(* ===== verification/Prelude.thy ===== *)
theory Prelude
  imports Complex_Main "HOL-Library.Word" "HOL-Library.Product_Lexorder" "HOL-Library.Multiset"
begin

text \<open>
  Shared vocabulary of the development: the types that name the program's values, the
  collections of facts the component proofs draw on, and the list lemmas behind the
  models of the SQL statements.

  UUIDs are 128-bit words.  PostgreSQL and \<^verbatim>\<open>bytes.Compare\<close> order them as big-endian byte
  strings, which is the unsigned order of the word; the nil UUID is 0.  Database
  timestamps are microseconds and Go durations are nanoseconds, both as integers.
  A Go string is a list of bytes, which is what \<^typ>\<open>char list\<close> is.
\<close>

type_synonym uuid = "128 word"
type_synonym timestamp = int
type_synonym duration = int
type_synonym bytes = "8 word list"

abbreviation uuid_Nil :: uuid where
  "uuid_Nil \<equiv> 0"

abbreviation (input) time_Millisecond :: duration where
  "time_Millisecond \<equiv> 1000000"

abbreviation (input) time_Second :: duration where
  "time_Second \<equiv> 1000000000"

abbreviation (input) time_Minute :: duration where
  "time_Minute \<equiv> 60000000000"

abbreviation (input) time_Hour :: duration where
  "time_Hour \<equiv> 3600000000000"

named_theorems sql_simps \<open>rewrite rules for the models of SQL statements\<close>
named_theorems tx_simps \<open>unfolding rules of the transaction combinators\<close>
named_theorems hoare_intro \<open>Hoare rules of the transaction combinators\<close>

section \<open>Lists\<close>

lemma distinct_map_filter [intro]:
  "distinct (map f xs) \<Longrightarrow> distinct (map f (filter P xs))"
  by (induction xs) auto

lemma distinct_map_unique:
  "distinct (map f xs) \<Longrightarrow> x \<in> set xs \<Longrightarrow> y \<in> set xs \<Longrightarrow> f x = f y \<Longrightarrow> x = y"
  by (auto simp: distinct_map dest: inj_onD)

lemma map_eq_keepI:
  "(\<And>x. x \<in> set xs \<Longrightarrow> f (g x) = f x) \<Longrightarrow> map f (map g xs) = map f xs"
  by (induction xs) auto

lemma filter_key_unique:
  assumes "distinct (map f xs)" and "x \<in> set xs"
  shows "filter (\<lambda>y. f y = f x) xs = [x]"
  using assms
proof (induction xs)
  case Nil
  then show ?case by simp
next
  case (Cons a xs)
  show ?case
  proof (cases "a = x")
    case True
    with Cons.prems have "f x \<notin> f ` set xs" by simp
    then have "filter (\<lambda>y. f y = f x) xs = []"
      by (fastforce simp: filter_empty_conv image_iff)
    with True show ?thesis by simp
  next
    case False
    with Cons.prems have x: "x \<in> set xs" by simp
    with Cons.prems have "f a \<noteq> f x" by auto
    with Cons x show ?thesis by simp
  qed
qed

lemma length_filter_partition:
  "length (filter P xs) + length (filter (\<lambda>x. \<not> P x) xs) = length xs"
  by (induction xs) auto

lemma find_key_Some:
  "distinct (map f xs) \<Longrightarrow> x \<in> set xs \<Longrightarrow> f x = k \<Longrightarrow> find (\<lambda>y. f y = k) xs = Some x"
  by (induction xs) auto

lemma find_SomeD: "find P xs = Some x \<Longrightarrow> x \<in> set xs \<and> P x"
  by (auto simp: find_Some_iff)

lemma image_Un_cover: "(\<And>x. x \<in> A \<Longrightarrow> Q x \<or> g x \<in> D) \<Longrightarrow> g ` {x \<in> A. Q x} \<union> D = g ` A \<union> D"
  by auto

lemma find_None_filter: "find P xs = None \<longleftrightarrow> filter P xs = []"
  by (induction xs) auto

end
