(* ===== verification/Errors.thy ===== *)
theory Errors
  imports Prelude
begin

text \<open>
  The error values of the package (\<^verbatim>\<open>errors.go\<close>).  An error is modelled by the sentinel at
  the end of its \<^verbatim>\<open>%w\<close> chain, which is what \<^verbatim>\<open>errors.Is\<close> looks at; the text that
  \<^verbatim>\<open>fmt.Errorf\<close> adds in front of it is not kept.  A failure reported by the database driver
  carries the SQLSTATE (absent for a driver whose error type has no \<^verbatim>\<open>SQLState()\<close> method) and
  the error text, since the code inspects both.
\<close>

record dberr =
  SQLState :: "string option"
  errText :: string

datatype err =
    ErrDBRequired
  | ErrInvalidConfig
  | ErrInvalidQueueName
  | ErrQueueAlreadyExists
  | ErrQueueNotFound
  | ErrTopicNotFound
  | ErrChannelNotFound
  | ErrDuplicateMessageID
  | ErrMessageSizeExceeded
  | ErrMetadataSizeExceeded
  | ErrMessageNotFound
  | ErrMessageAlreadyAcked
  | ErrClaimExpired
  | ErrReplayMessageNotFound
  | ErrMessageInProcessing
  | ErrReplayNotSupported
  | ErrNilPayload
  | ErrBatchTooLarge
  | ErrQueuePaused
  | ErrSubscriberNotFound
  | ErrTooManySubscribers
  | ErrInvalidSubscriberID
  | ErrUnsupportedPGVersion
  | ErrMaxQueuesReached
  | ErrInvalidVisibilityTimeout
  | ErrSchemaNotInitialized
  | ErrSchemaOutdated
  | ErrSchemaTooNew
  | ErrQueueEmpty
  | ErrQueueClosed
  | ErrReceiptMissingQueueType
  | ErrInvalidPerformedBy
  | ErrUnexpectedMessageStatus
  | errDryRunRollback
  | sql_ErrNoRows
  | context_Canceled
  | context_DeadlineExceeded
  | errMarshal
  | errRandom
  | strconv_NumError
  | ErrDriver dberr

text \<open>The \<^verbatim>\<open>%w\<close> links between sentinels, and \<^verbatim>\<open>errors.Is\<close> along them.\<close>

fun errors_Unwrap :: "err \<Rightarrow> err option" where
  "errors_Unwrap ErrTopicNotFound = Some ErrQueueNotFound"
| "errors_Unwrap ErrChannelNotFound = Some ErrQueueNotFound"
| "errors_Unwrap ErrReplayMessageNotFound = Some ErrMessageNotFound"
| "errors_Unwrap _ = None"

definition errors_Is :: "err \<Rightarrow> err \<Rightarrow> bool" where
  "errors_Is e target \<longleftrightarrow> e = target \<or> errors_Unwrap e = Some target"

lemma errors_Is_refl [simp]: "errors_Is e e"
  by (simp add: errors_Is_def)

text \<open>\<^verbatim>\<open>strings.Contains\<close>.\<close>

fun has_prefix :: "'a list \<Rightarrow> 'a list \<Rightarrow> bool" where
  "has_prefix [] _ = True"
| "has_prefix (p # ps) [] = False"
| "has_prefix (p # ps) (x # xs) = (p = x \<and> has_prefix ps xs)"

fun strings_Contains :: "string \<Rightarrow> string \<Rightarrow> bool" where
  "strings_Contains [] sub = (sub = [])"
| "strings_Contains (c # s) sub = (has_prefix sub (c # s) \<or> strings_Contains s sub)"

definition pgUniqueViolation :: string where
  "pgUniqueViolation = ''23505''"

definition pgSerializationFailure :: string where
  "pgSerializationFailure = ''40001''"

definition pgDeadlockDetected :: string where
  "pgDeadlockDetected = ''40P01''"

text \<open>
  \<^verbatim>\<open>queries.go\<close>: the classification of driver errors.  A sentinel of the package has no
  \<^verbatim>\<open>SQLState()\<close>, and none of their texts contains one of the phrases searched for.
\<close>

definition isUniqueViolation :: "err \<Rightarrow> bool" where
  "isUniqueViolation e =
     (case e of
        ErrDriver d \<Rightarrow>
          (case SQLState d of
             Some s \<Rightarrow> s = pgUniqueViolation
           | None \<Rightarrow> strings_Contains (errText d) ''duplicate key value'' \<or>
                     strings_Contains (errText d) ''unique constraint'')
      | _ \<Rightarrow> False)"

definition transient_text :: "string \<Rightarrow> bool" where
  "transient_text es \<longleftrightarrow>
     strings_Contains es ''could not serialize access'' \<or>
     strings_Contains es ''deadlock detected'' \<or>
     strings_Contains es ''connection refused'' \<or>
     strings_Contains es ''connection reset'' \<or>
     strings_Contains es ''bad connection'' \<or>
     strings_Contains es ''broken pipe''"

definition isTransientError :: "err \<Rightarrow> bool" where
  "isTransientError e =
     (case e of
        ErrDriver d \<Rightarrow>
          (case SQLState d of
             Some s \<Rightarrow> s = pgSerializationFailure \<or> s = pgDeadlockDetected
           | None \<Rightarrow> False) \<or> transient_text (errText d)
      | _ \<Rightarrow> False)"

lemma isTransientError_driver: "isTransientError e \<Longrightarrow> \<exists>d. e = ErrDriver d"
  by (cases e) (auto simp: isTransientError_def)

end
