(* ===== verification/Sql.thy ===== *)
theory Sql
  imports Prelude
begin

text \<open>
  The SQL statement forms the package issues, as functions on a table (a list of rows):
  \<^verbatim>\<open>SELECT ... ORDER BY ... LIMIT n [FOR UPDATE SKIP LOCKED]\<close>, \<^verbatim>\<open>UPDATE ... WHERE\<close>,
  \<^verbatim>\<open>DELETE ... WHERE\<close> and \<^verbatim>\<open>COUNT(*)\<close>.  Row locks held by concurrent transactions are a
  predicate on the row; \<^verbatim>\<open>SKIP LOCKED\<close> leaves such rows out of the result.
\<close>

definition sql_update :: "('r \<Rightarrow> bool) \<Rightarrow> ('r \<Rightarrow> 'r) \<Rightarrow> 'r list \<Rightarrow> 'r list" where
  "sql_update P f rows = map (\<lambda>r. if P r then f r else r) rows"

definition sql_count :: "('r \<Rightarrow> bool) \<Rightarrow> 'r list \<Rightarrow> nat" where
  "sql_count P rows = length (filter P rows)"

definition sql_delete :: "('r \<Rightarrow> bool) \<Rightarrow> 'r list \<Rightarrow> 'r list" where
  "sql_delete P rows = filter (\<lambda>r. \<not> P r) rows"

definition sql_select :: "('r \<Rightarrow> 'k::linorder) \<Rightarrow> nat \<Rightarrow> ('r \<Rightarrow> bool) \<Rightarrow> 'r list \<Rightarrow> 'r list" where
  "sql_select key n P rows = take n (sort_key key (filter P rows))"

definition sql_first :: "('r \<Rightarrow> 'k::linorder) \<Rightarrow> ('r \<Rightarrow> bool) \<Rightarrow> 'r list \<Rightarrow> 'r option" where
  "sql_first key P rows =
     (case sort_key key (filter P rows) of [] \<Rightarrow> None | r # _ \<Rightarrow> Some r)"

text \<open>\<^verbatim>\<open>INSERT ... ON CONFLICT (key) DO NOTHING\<close> of one row and of several.\<close>

definition insert_new :: "('r \<Rightarrow> 'k) \<Rightarrow> 'r \<Rightarrow> 'r list \<Rightarrow> 'r list" where
  "insert_new key row rows = (if key row \<in> key ` set rows then rows else rows @ [row])"

definition insert_all :: "('r \<Rightarrow> 'k) \<Rightarrow> 'r list \<Rightarrow> 'r list \<Rightarrow> 'r list" where
  "insert_all key news rows = fold (insert_new key) news rows"

section \<open>UPDATE\<close>

lemma sql_update_Nil [simp]: "sql_update P f [] = []"
  by (simp add: sql_update_def)

lemma sql_update_Cons [simp]:
  "sql_update P f (r # rows) = (if P r then f r else r) # sql_update P f rows"
  by (simp add: sql_update_def)

lemma length_sql_update [simp]: "length (sql_update P f rows) = length rows"
  by (simp add: sql_update_def)

lemma set_sql_update:
  "set (sql_update P f rows) = (\<lambda>r. if P r then f r else r) ` set rows"
  by (simp add: sql_update_def)

lemma sql_update_none: "(\<forall>r \<in> set rows. \<not> P r) \<Longrightarrow> sql_update P f rows = rows"
  by (induction rows) auto

lemma map_sql_update:
  "(\<And>r. P r \<Longrightarrow> g (f r) = g r) \<Longrightarrow> map g (sql_update P f rows) = map g rows"
  by (induction rows) auto

lemma sql_update_ball:
  "(\<And>r. r \<in> set rows \<Longrightarrow> P r \<Longrightarrow> Q r \<Longrightarrow> Q (f r)) \<Longrightarrow> (\<forall>r \<in> set rows. Q r) \<Longrightarrow>
   (\<forall>r \<in> set (sql_update P f rows). Q r)"
  by (auto simp: set_sql_update)

section \<open>DELETE and COUNT\<close>

lemma set_sql_delete [simp]: "set (sql_delete P rows) = {r \<in> set rows. \<not> P r}"
  by (auto simp: sql_delete_def)

lemma sql_delete_none: "(\<forall>r \<in> set rows. \<not> P r) \<Longrightarrow> sql_delete P rows = rows"
  by (simp add: sql_delete_def filter_True)

lemma distinct_sql_delete [intro]:
  "distinct (map g rows) \<Longrightarrow> distinct (map g (sql_delete P rows))"
  by (auto simp: sql_delete_def)

lemma sql_count_0: "sql_count P rows = 0 \<longleftrightarrow> (\<forall>r \<in> set rows. \<not> P r)"
  by (auto simp: sql_count_def filter_empty_conv)

lemma sql_count_pos: "0 < sql_count P rows \<longleftrightarrow> (\<exists>r \<in> set rows. P r)"
  using sql_count_0 [of P rows] by auto

lemma sql_count_delete: "sql_count P rows + length (sql_delete P rows) = length rows"
  by (simp add: sql_count_def sql_delete_def length_filter_partition)

lemma sql_count_Nil [simp]: "sql_count P [] = 0"
  by (simp add: sql_count_def)

lemma sql_count_Cons [simp]:
  "sql_count P (r # rows) = (if P r then Suc (sql_count P rows) else sql_count P rows)"
  by (simp add: sql_count_def)

lemma sql_delete_Nil [simp]: "sql_delete P [] = []"
  by (simp add: sql_delete_def)

lemma sql_delete_Cons [simp]:
  "sql_delete P (r # rows) = (if P r then sql_delete P rows else r # sql_delete P rows)"
  by (simp add: sql_delete_def)

lemma sql_delete_delete:
  "sql_delete P (sql_delete Q rows) = sql_delete (\<lambda>r. P r \<or> Q r) rows"
  by (induction rows) auto

section \<open>SELECT\<close>

lemma set_sql_select: "set (sql_select key n P rows) \<subseteq> {r \<in> set rows. P r}"
  by (auto simp: sql_select_def dest: in_set_takeD)

lemma sql_select_mem: "r \<in> set (sql_select key n P rows) \<Longrightarrow> r \<in> set rows \<and> P r"
  using set_sql_select [of key n P rows] by auto

lemma length_sql_select: "length (sql_select key n P rows) = min n (sql_count P rows)"
  by (simp add: sql_select_def sql_count_def min.commute)

lemma sorted_sql_select: "sorted (map key (sql_select key n P rows))"
  by (simp add: sql_select_def sorted_wrt_take flip: take_map)

lemma distinct_sql_select [intro]:
  "distinct (map g rows) \<Longrightarrow> distinct (map g (sql_select key n P rows))"
proof -
  assume "distinct (map g rows)"
  then have "distinct (map g (filter P rows))" by auto
  moreover have "mset (map g (sort_key key (filter P rows))) = mset (map g (filter P rows))"
    by simp
  ultimately have "distinct (map g (sort_key key (filter P rows)))"
    by (metis mset_eq_imp_distinct_iff)
  then show ?thesis by (simp add: sql_select_def flip: take_map)
qed

lemma sql_select_all: "sql_count P rows \<le> n \<Longrightarrow> set (sql_select key n P rows) = {r \<in> set rows. P r}"
  by (simp add: sql_select_def sql_count_def)

text \<open>The rows a page leaves out come after the rows it returns.\<close>

lemma sql_select_least:
  assumes "r \<in> set (sql_select key n P rows)"
    and "r' \<in> set rows" and "P r'" and "r' \<notin> set (sql_select key n P rows)"
  shows "key r \<le> key r'"
proof -
  let ?xs = "sort_key key (filter P rows)"
  have "r' \<in> set ?xs" using assms by simp
  then have "r' \<in> set (drop n ?xs)"
    using assms(4) by (metis Un_iff append_take_drop_id set_append sql_select_def)
  moreover have "sorted_wrt (\<lambda>a b. key a \<le> key b) (take n ?xs @ drop n ?xs)"
    using sorted_sort_key [of key "filter P rows"] by (simp add: sorted_map)
  ultimately show ?thesis
    using assms(1) unfolding sorted_wrt_append sql_select_def by blast
qed

lemma sort_key_eq_Nil: "sort_key key xs = [] \<longleftrightarrow> xs = []"
  using length_sort [of key xs] by (metis length_0_conv)

lemma sql_first_None: "sql_first key P rows = None \<longleftrightarrow> (\<forall>r \<in> set rows. \<not> P r)"
proof -
  have "sql_first key P rows = None \<longleftrightarrow> sort_key key (filter P rows) = []"
    by (simp add: sql_first_def split: list.split)
  then show ?thesis by (simp add: sort_key_eq_Nil filter_empty_conv)
qed

lemma sql_first_Some:
  assumes "sql_first key P rows = Some r"
  shows "r \<in> set rows" and "P r" and "\<And>r'. r' \<in> set rows \<Longrightarrow> P r' \<Longrightarrow> key r \<le> key r'"
proof -
  obtain rs where rs: "sort_key key (filter P rows) = r # rs"
    using assms by (auto simp: sql_first_def split: list.splits)
  have set_rs: "set (r # rs) = {x \<in> set rows. P x}"
    using arg_cong [OF rs, of set] by simp
  then show "r \<in> set rows" "P r" by auto
  fix r' assume "r' \<in> set rows" "P r'"
  then have "r' \<in> set (r # rs)" using set_rs by simp
  moreover have "sorted (map key (r # rs))"
    using sorted_sort_key [of key "filter P rows"] by (simp add: rs)
  ultimately show "key r \<le> key r'" by auto
qed

lemma sql_first_ex: "r \<in> set rows \<Longrightarrow> P r \<Longrightarrow> \<exists>r'. sql_first key P rows = Some r'"
  using sql_first_None [of key P rows] by fastforce

lemma sql_first_cong:
  "(\<And>r. r \<in> set rows \<Longrightarrow> P r = Q r) \<Longrightarrow> sql_first key P rows = sql_first key Q rows"
  unfolding sql_first_def by (metis filter_cong)

section \<open>INSERT\<close>

lemma insert_all_Nil [simp]: "insert_all key [] rows = rows"
  by (simp add: insert_all_def)

lemma insert_all_Cons [simp]:
  "insert_all key (r # news) rows = insert_all key news (insert_new key r rows)"
  by (simp add: insert_all_def)

lemma distinct_insert_new:
  "distinct (map key rows) \<Longrightarrow> distinct (map key (insert_new key r rows))"
  by (simp add: insert_new_def)

lemma distinct_insert_all:
  "distinct (map key rows) \<Longrightarrow> distinct (map key (insert_all key news rows))"
  by (induction news arbitrary: rows) (simp_all add: distinct_insert_new)

lemma keys_insert_all: "key ` set (insert_all key news rows) = key ` set rows \<union> key ` set news"
  by (induction news arbitrary: rows) (auto simp: insert_new_def)

lemma set_insert_all: "set (insert_all key news rows) \<subseteq> set rows \<union> set news"
proof (induction news arbitrary: rows)
  case (Cons r news)
  have "set (insert_new key r rows) \<subseteq> insert r (set rows)" by (simp add: insert_new_def subset_insertI)
  with Cons [of "insert_new key r rows"] show ?case by auto
qed simp

lemma insert_all_keeps: "set rows \<subseteq> set (insert_all key news rows)"
proof (induction news arbitrary: rows)
  case (Cons r news)
  have "set rows \<subseteq> set (insert_new key r rows)" by (auto simp: insert_new_def)
  with Cons show ?case by auto
qed simp

lemma length_insert_all_le: "length (insert_all key news rows) \<le> length rows + length news"
proof (induction news arbitrary: rows)
  case (Cons r news)
  have "length (insert_new key r rows) \<le> Suc (length rows)" by (simp add: insert_new_def)
  with Cons [of "insert_new key r rows"] show ?case by simp
qed simp

text \<open>All rows went in exactly when no key was taken; then they follow the old rows in order.\<close>

lemma insert_all_full:
  "length (insert_all key news rows) = length rows + length news \<longleftrightarrow>
   distinct (map key news) \<and> key ` set news \<inter> key ` set rows = {}"
proof (induction news arbitrary: rows)
  case (Cons r news)
  show ?case
  proof (cases "key r \<in> key ` set rows")
    case True
    then have "length (insert_all key (r # news) rows) \<le> length rows + length news"
      using length_insert_all_le [of key news rows] by (simp add: insert_new_def)
    with True show ?thesis by auto
  next
    case False
    then show ?thesis using Cons [of "rows @ [r]"] by (auto simp: insert_new_def)
  qed
qed simp

lemma insert_all_append:
  "distinct (map key news) \<Longrightarrow> key ` set news \<inter> key ` set rows = {} \<Longrightarrow>
   insert_all key news rows = rows @ news"
proof (induction news arbitrary: rows)
  case (Cons r news)
  then have "insert_new key r rows = rows @ [r]" by (auto simp: insert_new_def)
  moreover have "insert_all key news (rows @ [r]) = (rows @ [r]) @ news"
    using Cons.prems by (intro Cons.IH) auto
  ultimately show ?case by simp
qed simp

end
