(* ===== verification/Tx.thy ===== *)
theory Tx
  imports Errors Sql
begin

text \<open>
  Transactions.  A database call is a function on a pair of the number of driver round trips
  made so far and the tables; it returns an error or a value, the new count and the new
  tables.  The environment record holds what is not the package's code: the database clock
  and the application clock, \<^verbatim>\<open>make_interval\<close>, the UUIDs the server draws, those the process generates (the
  generator itself is in \<^theory_text>\<open>Uuid7\<close>), the row locks held by other
  transactions, the faults of the driver and the errors it makes of an SQLSTATE, the random
  source, the two float64 operations of the back-off computation, \<^verbatim>\<open>encoding/json\<close> on
  metadata maps, and the rank of a text in the database's collation.

  The driver may fail at every round trip.  A \<open>Fault\<close> reports a round trip that did not take
  effect; \<open>LostReply\<close> one that took effect on the server although the client saw an error.
  \<open>withTx\<close> is \<^verbatim>\<open>pgqueue.go\<close>'s \<^verbatim>\<open>withTx\<close>: begin, run, roll back on error, commit otherwise.
\<close>

datatype json =
    JNull
  | JBool bool
  | JNum int
  | JStr string
  | JArr "json list"
  | JObj "(string \<times> json) list"

type_synonym metadata = "(string \<times> json) list"

datatype fault = Fault dberr | LostReply dberr

record env =
  NOW :: timestamp
  time_Now :: int
  make_interval :: "duration \<Rightarrow> int"
  uuidv7 :: "nat \<Rightarrow> nat \<Rightarrow> uuid"
  NewUUIDv7 :: "nat \<Rightarrow> err + uuid"
  locked :: "uuid \<Rightarrow> bool"
  driver :: "nat \<Rightarrow> fault option"
  rand_Float64 :: "nat \<Rightarrow> nat \<Rightarrow> rat"
  float64 :: "rat \<Rightarrow> rat"
  float64_to_int64 :: "rat \<Rightarrow> int"
  pg_error :: "string \<Rightarrow> dberr"
  json_Marshal :: "metadata \<Rightarrow> string option"
  json_Unmarshal :: "string \<Rightarrow> metadata option"
  collate :: "string \<Rightarrow> rat"

type_synonym ('s, 'a) txm = "nat \<times> 's \<Rightarrow> (err + 'a) \<times> nat \<times> 's"

fun fault_err :: "fault \<Rightarrow> err" where
  "fault_err (Fault d) = ErrDriver d"
| "fault_err (LostReply d) = ErrDriver d"

definition returnT :: "'a \<Rightarrow> ('s, 'a) txm" where
  "returnT a = (\<lambda>(n, s). (Inr a, n, s))"

definition failT :: "err \<Rightarrow> ('s, 'a) txm" where
  "failT e = (\<lambda>(n, s). (Inl e, n, s))"

definition bindT :: "('s, 'a) txm \<Rightarrow> ('a \<Rightarrow> ('s, 'b) txm) \<Rightarrow> ('s, 'b) txm" where
  "bindT m k = (\<lambda>ns. case m ns of (Inl e, ns') \<Rightarrow> (Inl e, ns') | (Inr a, ns') \<Rightarrow> k a ns')"

text \<open>
  One statement inside a transaction: the body sees its own round-trip number, from which the
  server-drawn UUIDs are taken.  A failed statement leaves the tables alone, since PostgreSQL
  aborts the transaction.
\<close>

definition stmt :: "env \<Rightarrow> (nat \<Rightarrow> 's \<Rightarrow> 'a \<times> 's) \<Rightarrow> ('s, 'a) txm" where
  "stmt env f = (\<lambda>(n, s).
     case driver env n of
       Some flt \<Rightarrow> (Inl (fault_err flt), Suc n, s)
     | None \<Rightarrow> (case f n s of (a, s') \<Rightarrow> (Inr a, Suc n, s')))"

text \<open>A statement that a constraint or a missing relation may reject.\<close>

definition stmtE :: "env \<Rightarrow> (nat \<Rightarrow> 's \<Rightarrow> err + ('a \<times> 's)) \<Rightarrow> ('s, 'a) txm" where
  "stmtE env f = (\<lambda>(n, s).
     case driver env n of
       Some flt \<Rightarrow> (Inl (fault_err flt), Suc n, s)
     | None \<Rightarrow> (case f n s of
                  Inl e \<Rightarrow> (Inl e, Suc n, s)
                | Inr (a, s') \<Rightarrow> (Inr a, Suc n, s')))"

text \<open>A statement run outside a transaction commits by itself.\<close>

definition autocommit :: "env \<Rightarrow> (nat \<Rightarrow> 's \<Rightarrow> 'a \<times> 's) \<Rightarrow> ('s, 'a) txm" where
  "autocommit env f = (\<lambda>(n, s).
     case driver env n of
       Some (Fault d) \<Rightarrow> (Inl (ErrDriver d), Suc n, s)
     | Some (LostReply d) \<Rightarrow> (Inl (ErrDriver d), Suc n, snd (f n s))
     | None \<Rightarrow> (case f n s of (a, s') \<Rightarrow> (Inr a, Suc n, s')))"

definition withTx :: "env \<Rightarrow> ('s, 'a) txm \<Rightarrow> ('s, 'a) txm" where
  "withTx env fn = (\<lambda>(n, s).
     case driver env n of
       Some flt \<Rightarrow> (Inl (fault_err flt), Suc n, s)
     | None \<Rightarrow>
         (case fn (Suc n, s) of
            (Inl e, n', _) \<Rightarrow> (Inl e, Suc n', s)
          | (Inr a, n', s') \<Rightarrow>
              (case driver env n' of
                 Some (Fault d) \<Rightarrow> (Inl (ErrDriver d), Suc n', s)
               | Some (LostReply d) \<Rightarrow> (Inl (ErrDriver d), Suc n', s')
               | None \<Rightarrow> (Inr a, Suc n', s'))))"

definition liftE :: "err + 'a \<Rightarrow> ('s, 'a) txm" where
  "liftE r = (case r of Inl e \<Rightarrow> failT e | Inr a \<Rightarrow> returnT a)"

definition mapErrT :: "(err \<Rightarrow> err) \<Rightarrow> ('s, 'a) txm \<Rightarrow> ('s, 'a) txm" where
  "mapErrT h m = (\<lambda>ns. case m ns of (Inl e, ns') \<Rightarrow> (Inl (h e), ns') | (Inr a, ns') \<Rightarrow> (Inr a, ns'))"

text \<open>The random draws available at this point of a call.\<close>

definition randT :: "env \<Rightarrow> ('s, nat \<Rightarrow> rat) txm" where
  "randT env = (\<lambda>(n, s). (Inr (rand_Float64 env n), n, s))"

definition guardT :: "bool \<Rightarrow> err \<Rightarrow> ('s, unit) txm" where
  "guardT b e = (if b then returnT () else failT e)"

text \<open>A round trip on a part of the state.\<close>

definition zoom :: "('t \<Rightarrow> 's) \<Rightarrow> ('s \<Rightarrow> 't \<Rightarrow> 't) \<Rightarrow> ('s, 'a) txm \<Rightarrow> ('t, 'a) txm" where
  "zoom gets puts m = (\<lambda>(n, t). case m (n, gets t) of (r, n', s') \<Rightarrow> (r, n', puts s' t))"

definition no_faults :: "env \<Rightarrow> bool" where
  "no_faults env \<longleftrightarrow> (\<forall>n. driver env n = None)"

section \<open>Unfolding\<close>

lemma returnT_app [tx_simps, simp]: "returnT a (n, s) = (Inr a, n, s)"
  by (simp add: returnT_def)

lemma failT_app [tx_simps, simp]: "failT e (n, s) = (Inl e, n, s)"
  by (simp add: failT_def)

lemma bindT_app [tx_simps]:
  "bindT m k (n, s) = (case m (n, s) of (Inl e, ns') \<Rightarrow> (Inl e, ns') | (Inr a, ns') \<Rightarrow> k a ns')"
  by (simp add: bindT_def)

lemma stmt_ok [tx_simps]:
  "driver env n = None \<Longrightarrow> stmt env f (n, s) = (Inr (fst (f n s)), Suc n, snd (f n s))"
  by (simp add: stmt_def split: prod.split)

lemma stmt_fault [tx_simps]:
  "driver env n = Some flt \<Longrightarrow> stmt env f (n, s) = (Inl (fault_err flt), Suc n, s)"
  by (simp add: stmt_def)

lemma stmtE_ok [tx_simps]:
  "driver env n = None \<Longrightarrow>
   stmtE env f (n, s) =
     (case f n s of Inl e \<Rightarrow> (Inl e, Suc n, s) | Inr (a, s') \<Rightarrow> (Inr a, Suc n, s'))"
  by (simp add: stmtE_def)

lemma autocommit_ok [tx_simps]:
  "driver env n = None \<Longrightarrow> autocommit env f (n, s) = (Inr (fst (f n s)), Suc n, snd (f n s))"
  by (simp add: autocommit_def split: prod.split)

lemma withTx_ok [tx_simps]:
  "no_faults env \<Longrightarrow>
   withTx env fn (n, s) =
     (case fn (Suc n, s) of (Inl e, n', _) \<Rightarrow> (Inl e, Suc n', s) | (Inr a, n', s') \<Rightarrow> (Inr a, Suc n', s'))"
  by (simp add: withTx_def no_faults_def split: prod.split sum.split)

lemma no_faultsD [simp]: "no_faults env \<Longrightarrow> driver env n = None"
  by (simp add: no_faults_def)

lemma liftE_simps [tx_simps, simp]: "liftE (Inl e) = failT e" "liftE (Inr a) = returnT a"
  by (simp_all add: liftE_def)

lemma guardT_simps [tx_simps, simp]: "guardT True e = returnT ()" "guardT False e = failT e"
  by (simp_all add: guardT_def)

lemma randT_app [tx_simps, simp]: "randT env (n, s) = (Inr (rand_Float64 env n), n, s)"
  by (simp add: randT_def)

lemma bindT_returnT [simp]: "bindT (returnT a) k = k a"
  by (auto simp: bindT_def)

lemma bindT_failT [simp]: "bindT (failT e) k = failT e"
  by (auto simp: bindT_def failT_def)

lemma bindT_assoc: "bindT (bindT m k) l = bindT m (\<lambda>a. bindT (k a) l)"
  by (rule ext) (simp add: bindT_def split: prod.split sum.split)

section \<open>Hoare triples\<close>

text \<open>
  \<open>hoare P m Q\<close>: started in tables satisfying \<open>P\<close>, a call that returns a value ends in tables
  satisfying \<open>Q\<close> of it.  Nothing is said of the tables after an error, which \<open>withTx\<close> discards.
\<close>

definition hoare :: "('s \<Rightarrow> bool) \<Rightarrow> ('s, 'a) txm \<Rightarrow> ('a \<Rightarrow> 's \<Rightarrow> bool) \<Rightarrow> bool" where
  "hoare P m Q \<longleftrightarrow> (\<forall>n s a n' s'. P s \<longrightarrow> m (n, s) = (Inr a, n', s') \<longrightarrow> Q a s')"

lemma hoareI:
  "(\<And>n s a n' s'. P s \<Longrightarrow> m (n, s) = (Inr a, n', s') \<Longrightarrow> Q a s') \<Longrightarrow> hoare P m Q"
  by (simp add: hoare_def)

lemma hoareD: "hoare P m Q \<Longrightarrow> P s \<Longrightarrow> m (n, s) = (Inr a, n', s') \<Longrightarrow> Q a s'"
  by (simp add: hoare_def)

lemma hoare_return [hoare_intro]: "(\<And>s. P s \<Longrightarrow> Q a s) \<Longrightarrow> hoare P (returnT a) Q"
  by (simp add: hoare_def)

lemma hoare_fail [hoare_intro]: "hoare P (failT e) Q"
  by (simp add: hoare_def)

lemma hoare_bind [hoare_intro]:
  "hoare P m Q \<Longrightarrow> (\<And>a. hoare (Q a) (k a) R) \<Longrightarrow> hoare P (bindT m k) R"
  unfolding hoare_def by (auto simp: bindT_def split: prod.splits sum.splits) blast

lemma hoare_stmt [hoare_intro]:
  "(\<And>n s a s'. P s \<Longrightarrow> f n s = (a, s') \<Longrightarrow> Q a s') \<Longrightarrow> hoare P (stmt env f) Q"
  by (auto simp: hoare_def stmt_def split: option.splits prod.splits)

lemma hoare_stmtE [hoare_intro]:
  "(\<And>n s a s'. P s \<Longrightarrow> f n s = Inr (a, s') \<Longrightarrow> Q a s') \<Longrightarrow> hoare P (stmtE env f) Q"
  by (auto simp: hoare_def stmtE_def split: option.splits sum.splits prod.splits)

lemma hoare_if [hoare_intro]:
  "(b \<Longrightarrow> hoare P m Q) \<Longrightarrow> (\<not> b \<Longrightarrow> hoare P m' Q) \<Longrightarrow> hoare P (if b then m else m') Q"
  by simp

lemma hoare_option [hoare_intro]:
  "(x = None \<Longrightarrow> hoare P m Q) \<Longrightarrow> (\<And>y. x = Some y \<Longrightarrow> hoare P (k y) Q) \<Longrightarrow>
   hoare P (case x of None \<Rightarrow> m | Some y \<Rightarrow> k y) Q"
  by (simp split: option.split)

lemma hoare_mapErr [hoare_intro]: "hoare P m Q \<Longrightarrow> hoare P (mapErrT h m) Q"
  unfolding hoare_def mapErrT_def by (force split: prod.splits sum.splits)

lemma hoare_rand [hoare_intro]: "(\<And>s a. P s \<Longrightarrow> Q a s) \<Longrightarrow> hoare P (randT env) Q"
  by (simp add: hoare_def randT_def)

lemma hoare_rand_keep: "hoare P (randT env) (\<lambda>_. P)"
  by (simp add: hoare_def)

lemma hoare_guard [hoare_intro]: "(\<And>s. P s \<Longrightarrow> b \<Longrightarrow> Q () s) \<Longrightarrow> hoare P (guardT b e) Q"
  by (auto simp: hoare_def guardT_def split: if_splits)

lemma hoare_pre: "hoare P' m Q \<Longrightarrow> (\<And>s. P s \<Longrightarrow> P' s) \<Longrightarrow> hoare P m Q"
  unfolding hoare_def by blast

lemma hoare_post: "hoare P m Q' \<Longrightarrow> (\<And>a s. Q' a s \<Longrightarrow> Q a s) \<Longrightarrow> hoare P m Q"
  unfolding hoare_def by blast

lemma hoare_conj: "hoare P m Q \<Longrightarrow> hoare P' m Q' \<Longrightarrow> hoare (\<lambda>s. P s \<and> P' s) m (\<lambda>a s. Q a s \<and> Q' a s)"
  unfolding hoare_def by blast

lemma hoare_pure: "(b \<Longrightarrow> hoare P m Q) \<Longrightarrow> hoare (\<lambda>s. b \<and> P s) m Q"
  by (auto simp: hoare_def)

section \<open>Atomicity\<close>

text \<open>
  A transaction that fails before its commit leaves the tables as they were; the tables after
  any transaction are the old ones or those of a complete run of its body.
\<close>

lemma withTx_cases:
  assumes "withTx env fn (n, s) = (r, n', t)"
  obtains (unchanged) e where "r = Inl e" "t = s"
    | (lost) a m d where "fn (Suc n, s) = (Inr a, m, t)" "r = Inl (ErrDriver d)" "driver env m = Some (LostReply d)"
    | (committed) a m where "fn (Suc n, s) = (Inr a, m, t)" "r = Inr a" "driver env m = None"
  using assms
  by (auto simp: withTx_def split: option.splits prod.splits sum.splits fault.splits)

lemma withTx_hoare: "hoare P fn Q \<Longrightarrow> hoare P (withTx env fn) Q"
  by (rule hoareI) (erule withTx_cases; auto dest: hoareD)

lemma withTx_invariant:
  assumes "hoare I fn (\<lambda>_. I)" and "I s" and "withTx env fn (n, s) = (r, n', t)"
  shows "I t"
  using assms(3)
proof (cases rule: withTx_cases)
  case unchanged
  with assms show ?thesis by simp
next
  case lost
  with assms show ?thesis by (auto dest: hoareD)
next
  case committed
  with assms show ?thesis by (auto dest: hoareD)
qed

lemma autocommit_cases:
  assumes "autocommit env f (n, s) = (r, n', t)"
  obtains (unchanged) e where "r = Inl e" "t = s"
    | (lost) d where "r = Inl (ErrDriver d)" "t = snd (f n s)" "driver env n = Some (LostReply d)"
    | (committed) "r = Inr (fst (f n s))" "t = snd (f n s)" "driver env n = None"
  using assms
  by (auto simp: autocommit_def split: option.splits prod.splits fault.splits)

lemma autocommit_invariant:
  assumes "\<And>n s. I s \<Longrightarrow> I (snd (f n s))" and "I s" and "autocommit env f (n, s) = (r, n', t)"
  shows "I t"
  using assms(3) by (cases rule: autocommit_cases) (use assms in auto)

end
