(* ===== verification/Types.thy ===== *)
theory Types
  imports Tx
begin

text \<open>
  The data of the package: \<^verbatim>\<open>types.go\<close>'s structs, the rows of the tables that
  \<^verbatim>\<open>pgqueue.go\<close> creates, and the database as a whole.  A nullable column is an option.
  The status column is text with a check constraint; a text outside the four constants of
  \<^verbatim>\<open>types.go\<close> is \<open>OtherStatus\<close>.
\<close>

datatype QueueType = QueueTypePubSub | QueueTypeChannel | OtherQueueType string

datatype MessageStatus =
    MessageStatusPending
  | MessageStatusProcessing
  | MessageStatusCompleted
  | MessageStatusAcked
  | OtherStatus string

text \<open>
  \<^verbatim>\<open>topicOptions\<close> and \<^verbatim>\<open>channelOptions\<close> have the same fields; one record stands for both.
  The config column holds its JSON image, \<open>BadConfig\<close> a value that does not unmarshal.
\<close>

record queueOptions =
  optMaxMessageSize :: int
  optMaxMetadataSize :: int
  optTTL :: duration
  optTTLSet :: bool
  optMaxRetries :: int
  optMaxRetriesSet :: bool

datatype config_json = BadConfig | GoodConfig queueOptions

record Receipt =
  MessageID :: uuid
  ClaimID :: uuid
  ReceiptQueueName :: string
  ReceiptQueueType :: QueueType
  SubscriberID :: string

record Message =
  msgID :: uuid
  msgClaimID :: uuid
  msgPayload :: bytes
  msgCreatedAt :: timestamp
  msgStatus :: MessageStatus
  msgRetryCount :: int
  msgMaxRetries :: int
  msgVisibilityTimeout :: "timestamp option"
  msgProcessedAt :: "timestamp option"
  msgErrorMessage :: "string option"
  msgMetadata :: "metadata option"
  msgReceipt :: "Receipt option"

text \<open>\<^verbatim>\<open>Message.Receipt\<close> and \<^verbatim>\<open>SetReceipt\<close>: \<^verbatim>\<open>receiptSet\<close> is the option's tag.\<close>

definition Message_Receipt :: "Message \<Rightarrow> Receipt" where
  "Message_Receipt m =
     (case msgReceipt m of
        Some r \<Rightarrow> r
      | None \<Rightarrow> \<lparr>MessageID = msgID m, ClaimID = msgClaimID m, ReceiptQueueName = '''',
                 ReceiptQueueType = OtherQueueType '''', SubscriberID = ''''\<rparr>)"

definition SetReceipt :: "Message \<Rightarrow> Receipt \<Rightarrow> Message" where
  "SetReceipt m r = m\<lparr>msgReceipt := Some r\<rparr>"

record FailedReceipt =
  frReceipt :: Receipt
  frReason :: err

record BatchResult =
  Succeeded :: "Receipt list"
  Failed :: "FailedReceipt list"

record queueMetadata =
  metaID :: uuid
  metaQueueType :: QueueType
  metaQueueName :: string
  metaTableName :: string
  metaConfig :: config_json
  metaPaused :: bool
  metaCreatedAt :: timestamp
  metaUpdatedAt :: timestamp

record subscriber =
  subscriberRowID :: uuid
  subTopicName :: string
  subSubscriberID :: string
  subCreatedAt :: timestamp
  subActive :: bool

text \<open>The replay parameters are a JSON object with one text; the model keeps what the text prints.\<close>

datatype ReplayDetails =
    DetailsSince timestamp
  | DetailsMessageID uuid
  | DetailsFromDLQ int

record ReplayLog =
  rlID :: uuid
  rlQueueType :: QueueType
  rlQueueName :: string
  rlReplayType :: string
  rlReplayParams :: ReplayDetails
  rlMessageCount :: int
  rlCreatedAt :: timestamp
  rlCreatedBy :: "string option"

record PublishMessage =
  pmID :: uuid
  pmPayload :: "bytes option"
  pmMetadata :: "metadata option"

section \<open>Table rows\<close>

text \<open>\<^verbatim>\<open>createChannelTables\<close>: the message table of a channel.\<close>

record channel_row =
  id :: uuid
  payload :: bytes
  created_at :: timestamp
  status :: MessageStatus
  retry_count :: int
  max_retries :: "int option"
  visibility_timeout :: "timestamp option"
  available_at :: timestamp
  claim_id :: "uuid option"
  processed_at :: "timestamp option"
  error_message :: "string option"
  metadata :: "string option"

text \<open>\<^verbatim>\<open>createPubSubMessageTable\<close> and \<^verbatim>\<open>createPubSubTables\<close>: messages and subscriptions.\<close>

record topic_row =
  t_id :: uuid
  t_payload :: bytes
  t_created_at :: timestamp
  t_metadata :: "string option"

record sub_row =
  s_id :: uuid
  s_message_id :: uuid
  s_subscriber_id :: string
  s_status :: MessageStatus
  s_created_at :: timestamp
  s_acked_at :: "timestamp option"
  s_visibility_timeout :: "timestamp option"
  s_available_at :: timestamp
  s_claim_id :: "uuid option"
  s_retry_count :: int
  s_error_message :: "string option"

text \<open>\<^verbatim>\<open>createDLQTable\<close>.\<close>

record dlq_row =
  d_id :: uuid
  d_original_message_id :: uuid
  d_subscriber_id :: "string option"
  d_payload :: bytes
  d_failure_reason :: string
  d_retry_count :: int
  d_moved_at :: timestamp
  d_metadata :: "string option"

record channel_tables =
  msgs :: "channel_row list"
  dlq :: "dlq_row list"

record topic_tables =
  tmsgs :: "topic_row list"
  subs :: "sub_row list"
  tdlq :: "dlq_row list"

text \<open>The base schema and the per-queue tables, keyed by table name.\<close>

record db =
  pgqueue_metadata :: "queueMetadata list"
  pgqueue_subscribers :: "subscriber list"
  pgqueue_replay_log :: "ReplayLog list"
  channels :: "string \<rightharpoonup> channel_tables"
  topics :: "string \<rightharpoonup> topic_tables"

section \<open>Statements on one queue's tables\<close>

text \<open>
  A call on the tables of one queue inside a call on the database; a missing relation is
  SQLSTATE 42P01.
\<close>

definition onChannel :: "env \<Rightarrow> string \<Rightarrow> (channel_tables, 'a) txm \<Rightarrow> (db, 'a) txm" where
  "onChannel env tbl m = (\<lambda>(n, d).
     case channels d tbl of
       None \<Rightarrow> (Inl (ErrDriver (pg_error env ''42P01'')), Suc n, d)
     | Some t \<Rightarrow> (case m (n, t) of (r, n', t') \<Rightarrow> (r, n', d\<lparr>channels := (channels d)(tbl \<mapsto> t')\<rparr>)))"

definition onTopic :: "env \<Rightarrow> string \<Rightarrow> (topic_tables, 'a) txm \<Rightarrow> (db, 'a) txm" where
  "onTopic env tbl m = (\<lambda>(n, d).
     case topics d tbl of
       None \<Rightarrow> (Inl (ErrDriver (pg_error env ''42P01'')), Suc n, d)
     | Some t \<Rightarrow> (case m (n, t) of (r, n', t') \<Rightarrow> (r, n', d\<lparr>topics := (topics d)(tbl \<mapsto> t')\<rparr>)))"

lemma hoare_onChannel:
  assumes "hoare P m Q"
    and "\<And>d t. D d \<Longrightarrow> channels d tbl = Some t \<Longrightarrow> P t"
    and "\<And>d a t. D d \<Longrightarrow> channels d tbl \<noteq> None \<Longrightarrow> Q a t \<Longrightarrow>
           E a (d\<lparr>channels := (channels d)(tbl \<mapsto> t)\<rparr>)"
  shows "hoare D (onChannel env tbl m) E"
  using assms unfolding hoare_def onChannel_def
  by (fastforce split: option.splits prod.splits)

lemma hoare_onTopic:
  assumes "hoare P m Q"
    and "\<And>d t. D d \<Longrightarrow> topics d tbl = Some t \<Longrightarrow> P t"
    and "\<And>d a t. D d \<Longrightarrow> topics d tbl \<noteq> None \<Longrightarrow> Q a t \<Longrightarrow>
           E a (d\<lparr>topics := (topics d)(tbl \<mapsto> t)\<rparr>)"
  shows "hoare D (onTopic env tbl m) E"
  using assms unfolding hoare_def onTopic_def
  by (fastforce split: option.splits prod.splits)

end
