(* ===== verification/Claims.thy ===== *)
theory Claims
  imports Types
begin

text \<open>
  Claims and their fencing.  \<open>classifyClaimState\<close> is the decision of \<^verbatim>\<open>queries.go\<close> that explains
  why an ack, nack or extension matched no row.  The locale \<open>leased_rows\<close> is the interface that
  channel messages and topic subscriptions share: a row has a key, a status, a claim token, a
  visibility deadline and a retry count, and is changed by five updates (claim, acknowledge,
  retry, defer, extend).  Its lemmas are the lease discipline, proved once and used for both.
\<close>

definition classifyClaimState ::
    "bool \<Rightarrow> MessageStatus \<Rightarrow> uuid option \<Rightarrow> uuid \<Rightarrow> err" where
  "classifyClaimState found st claimID expectedClaim =
     (if \<not> found then ErrMessageNotFound
      else if expectedClaim = uuid_Nil then ErrMessageAlreadyAcked
      else if claimID = Some expectedClaim \<and> st \<noteq> MessageStatusProcessing
      then ErrMessageAlreadyAcked
      else ErrClaimExpired)"

text \<open>\<^verbatim>\<open>classifyClaimMiss\<close> after its query returned the row, or no row.\<close>

definition classifyClaimMiss ::
    "('r \<Rightarrow> MessageStatus) \<Rightarrow> ('r \<Rightarrow> uuid option) \<Rightarrow> 'r option \<Rightarrow> uuid \<Rightarrow> err" where
  "classifyClaimMiss st cl row expectedClaim =
     (case row of
        None \<Rightarrow> classifyClaimState False (OtherStatus '''') None expectedClaim
      | Some r \<Rightarrow> classifyClaimState True (st r) (cl r) expectedClaim)"

lemma classifyClaimState_cases:
  "classifyClaimState found st cl c \<in> {ErrMessageNotFound, ErrMessageAlreadyAcked, ErrClaimExpired}"
  by (simp add: classifyClaimState_def)

lemma classifyClaimMiss_cases:
  "classifyClaimMiss st cl row c \<in> {ErrMessageNotFound, ErrMessageAlreadyAcked, ErrClaimExpired}"
  by (auto simp: classifyClaimMiss_def classifyClaimState_def split: option.split)

section \<open>The lease interface\<close>

locale leased_rows =
  fixes key :: "'r \<Rightarrow> 'k"
    and st :: "'r \<Rightarrow> MessageStatus"
    and cl :: "'r \<Rightarrow> uuid option"
    and vt :: "'r \<Rightarrow> timestamp option"
    and rc :: "'r \<Rightarrow> int"
    and claim :: "int \<Rightarrow> uuid \<Rightarrow> timestamp \<Rightarrow> 'r \<Rightarrow> 'r"
    and ack :: "timestamp \<Rightarrow> 'r \<Rightarrow> 'r"
    and retry :: "string \<Rightarrow> timestamp \<Rightarrow> 'r \<Rightarrow> 'r"
    and defer_to :: "int \<Rightarrow> timestamp \<Rightarrow> 'r \<Rightarrow> 'r"
    and extend :: "timestamp \<Rightarrow> 'r \<Rightarrow> 'r"
    and live :: "'k \<Rightarrow> uuid \<Rightarrow> 'r \<Rightarrow> bool"
    and row_ok :: "'r \<Rightarrow> bool"
  assumes keeps_key:
      "key (claim n c d r) = key r" "key (ack t r) = key r" "key (retry e t r) = key r"
      "key (defer_to n t r) = key r" "key (extend d r) = key r"
    and claim_effect:
      "st (claim n c d r) = MessageStatusProcessing" "cl (claim n c d r) = Some c"
      "vt (claim n c d r) = Some d" "rc (claim n c d r) = n"
    and ack_effect:
      "st (ack t r) \<noteq> MessageStatusProcessing" "st (ack t r) \<noteq> MessageStatusPending"
      "cl (ack t r) = cl r" "rc (ack t r) = rc r"
    and retry_effect:
      "st (retry e t r) = MessageStatusPending" "cl (retry e t r) = None"
      "vt (retry e t r) = None" "rc (retry e t r) = rc r + 1"
    and defer_effect:
      "st (defer_to n t r) = MessageStatusPending" "cl (defer_to n t r) = None"
      "vt (defer_to n t r) = None" "rc (defer_to n t r) = n"
    and extend_effect:
      "st (extend d r) = st r" "cl (extend d r) = cl r" "vt (extend d r) = Some d"
      "rc (extend d r) = rc r"
    and live_iff:
      "live k c r \<longleftrightarrow> key r = k \<and> cl r = Some c \<and> st r = MessageStatusProcessing"
    and row_ok_iff:
      "row_ok r \<longleftrightarrow>
         (st r = MessageStatusPending \<longrightarrow> cl r = None \<and> vt r = None) \<and>
         (st r = MessageStatusProcessing \<longrightarrow> cl r \<noteq> None \<and> vt r \<noteq> None)"
begin

lemmas effects = keeps_key claim_effect ack_effect retry_effect defer_effect extend_effect

text \<open>Every update leaves a well-formed row, whatever the row was for claim, retry and defer.\<close>

lemma row_ok_claim: "row_ok (claim n c d r)"
  by (simp add: row_ok_iff effects)

lemma row_ok_retry: "row_ok (retry e t r)"
  by (simp add: row_ok_iff effects)

lemma row_ok_defer: "row_ok (defer_to n t r)"
  by (simp add: row_ok_iff effects)

lemma row_ok_ack: "row_ok (ack t r)"
  by (simp add: row_ok_iff effects)

lemma row_ok_extend: "live k c r \<Longrightarrow> row_ok r \<Longrightarrow> row_ok (extend d r)"
  by (simp add: row_ok_iff effects live_iff)

text \<open>One consumer at a time: a row is live under at most one claim token.\<close>

lemma live_unique: "live k c r \<Longrightarrow> live k c' r \<Longrightarrow> c = c'"
  by (simp add: live_iff)

lemma live_claim: "live (key r) c (claim n c d r)"
  by (simp add: live_iff effects)

lemma not_live_retry: "\<not> live k c (retry e t r)"
  by (simp add: live_iff effects)

lemma not_live_defer: "\<not> live k c (defer_to n t r)"
  by (simp add: live_iff effects)

lemma not_live_ack: "\<not> live k c (ack t r)"
  by (simp add: live_iff effects)

lemma live_extend: "live k c (extend d r) = live k c r"
  by (simp add: live_iff effects)

lemma not_live_reclaim: "c' \<noteq> c \<Longrightarrow> \<not> live k c (claim n c' d r)"
  by (simp add: live_iff effects)

text \<open>How a stale receipt is explained, by what happened to the row since it was issued.\<close>

lemma stale_after_reclaim:
  "c \<noteq> uuid_Nil \<Longrightarrow> c' \<noteq> c \<Longrightarrow>
   classifyClaimMiss st cl (Some (claim n c' d r)) c = ErrClaimExpired"
  by (simp add: classifyClaimMiss_def classifyClaimState_def effects)

lemma stale_after_retry:
  "c \<noteq> uuid_Nil \<Longrightarrow> classifyClaimMiss st cl (Some (retry e t r)) c = ErrClaimExpired"
  by (simp add: classifyClaimMiss_def classifyClaimState_def effects)

lemma stale_after_defer:
  "c \<noteq> uuid_Nil \<Longrightarrow> classifyClaimMiss st cl (Some (defer_to n t r)) c = ErrClaimExpired"
  by (simp add: classifyClaimMiss_def classifyClaimState_def effects)

lemma stale_after_ack:
  "live k c r \<Longrightarrow> classifyClaimMiss st cl (Some (ack t r)) c = ErrMessageAlreadyAcked"
  by (simp add: classifyClaimMiss_def classifyClaimState_def effects live_iff)

text \<open>On rows with distinct keys a fenced update touches the claimed row or nothing.\<close>

lemma fenced_update_none:
  "(\<forall>r \<in> set rows. \<not> live k c r) \<Longrightarrow> sql_update (live k c) f rows = rows"
  by (rule sql_update_none)

lemma fenced_count:
  assumes "distinct (map key rows)"
  shows "sql_count (live k c) rows = (if \<exists>r \<in> set rows. live k c r then 1 else 0)"
proof (cases "\<exists>r \<in> set rows. live k c r")
  case True
  then obtain r where r: "r \<in> set rows" "live k c r" by blast
  have "filter (live k c) rows = filter (live k c) (filter (\<lambda>y. key y = key r) rows)"
    using r by (auto simp: live_iff intro!: filter_cong)
  also have "\<dots> = [r]" using r filter_key_unique [OF assms r(1)] by simp
  finally show ?thesis using True by (simp add: sql_count_def)
next
  case False
  then show ?thesis by (simp add: sql_count_0)
qed

lemma fenced_update_keys:
  "(\<And>r. key (f r) = key r) \<Longrightarrow> map key (sql_update P f rows) = map key rows"
  by (rule map_sql_update) simp

lemma fenced_update_other:
  assumes "r \<in> set rows" and "key r \<noteq> k"
  shows "r \<in> set (sql_update (live k c) f rows)"
  using assms by (force simp: set_sql_update live_iff)

end

end
