(* ===== verification/Backoff.thy ===== *)
theory Backoff
  imports Tx
begin

text \<open>
  The retry back-off of \<^verbatim>\<open>backoff.go\<close>.  Durations are integers; the float64 steps go through the
  environment's rounding function and float-to-integer conversion, about which nothing is
  assumed, and the draws of \<^verbatim>\<open>rand.Float64\<close> come from its random source.  Infinite and NaN
  multipliers are outside the model.
\<close>

record BackoffPolicy =
  BaseDelay :: duration
  MaxDelay :: duration
  Multiplier :: rat

definition defaultBackoffBase :: duration where
  "defaultBackoffBase = 1 * time_Second"

definition defaultBackoffMax :: duration where
  "defaultBackoffMax = 5 * time_Minute"

definition defaultBackoffMultiplier :: rat where
  "defaultBackoffMultiplier = 3"

definition DefaultBackoffPolicy :: BackoffPolicy where
  "DefaultBackoffPolicy =
     \<lparr>BaseDelay = defaultBackoffBase, MaxDelay = defaultBackoffMax,
      Multiplier = defaultBackoffMultiplier\<rparr>"

definition normalized :: "BackoffPolicy \<Rightarrow> BackoffPolicy" where
  "normalized p =
     (let d = DefaultBackoffPolicy;
          p = (if BaseDelay p \<le> 0 then p\<lparr>BaseDelay := BaseDelay d\<rparr> else p);
          p = (if MaxDelay p < BaseDelay p then p\<lparr>MaxDelay := MaxDelay d\<rparr> else p);
          p = (if MaxDelay p < BaseDelay p then p\<lparr>MaxDelay := BaseDelay p\<rparr> else p);
          p = (if Multiplier p < 1 then p\<lparr>Multiplier := Multiplier d\<rparr> else p)
      in p)"

text \<open>\<open>rnd\<close> is the value \<^verbatim>\<open>rand.Float64()\<close> returns in this call.\<close>

definition Delay :: "env \<Rightarrow> BackoffPolicy \<Rightarrow> rat \<Rightarrow> duration \<Rightarrow> duration" where
  "Delay env p rnd prev =
     (let pn = normalized p;
          prev = (if prev < BaseDelay pn then BaseDelay pn else prev);
          fl = float64 env;
          low = fl (of_int (BaseDelay pn));
          high = fl (fl (of_int prev) * Multiplier pn);
          high = (if high < low then low else high);
          d = float64_to_int64 env (fl (low + fl (rnd * fl (high - low))))
      in if d > MaxDelay pn then MaxDelay pn
         else if d < BaseDelay pn then BaseDelay pn
         else d)"

definition maxBackoffSteps :: int where
  "maxBackoffSteps = 64"

definition maxRetryDelay :: duration where
  "maxRetryDelay = 24 * time_Hour"

text \<open>The loop \<^verbatim>\<open>for range steps\<close>; \<open>rnds k\<close> is the draw of its \<open>k\<close>-th iteration.\<close>

fun delay_steps :: "env \<Rightarrow> BackoffPolicy \<Rightarrow> (nat \<Rightarrow> rat) \<Rightarrow> nat \<Rightarrow> duration" where
  "delay_steps env p rnds 0 = 0"
| "delay_steps env p rnds (Suc k) = Delay env p (rnds k) (delay_steps env p rnds k)"

definition computeRetryDelay ::
    "env \<Rightarrow> BackoffPolicy \<Rightarrow> (nat \<Rightarrow> rat) \<Rightarrow> int \<Rightarrow> duration \<Rightarrow> duration" where
  "computeRetryDelay env p rnds attempt override =
     (if override > 0 then
        (if override > maxRetryDelay then maxRetryDelay else override)
      else delay_steps env p rnds (nat (min attempt maxBackoffSteps)))"

section \<open>Bounds\<close>

lemma normalized_bounds:
  "0 < BaseDelay (normalized p)"
  "BaseDelay (normalized p) \<le> MaxDelay (normalized p)"
  "1 \<le> Multiplier (normalized p)"
  by (simp_all add: normalized_def Let_def DefaultBackoffPolicy_def defaultBackoffBase_def
      defaultBackoffMax_def defaultBackoffMultiplier_def)

lemma normalized_noop:
  "0 < BaseDelay p \<Longrightarrow> BaseDelay p \<le> MaxDelay p \<Longrightarrow> 1 \<le> Multiplier p \<Longrightarrow> normalized p = p"
  by (simp add: normalized_def Let_def)

lemma normalized_idem: "normalized (normalized p) = normalized p"
  by (rule normalized_noop) (rule normalized_bounds)+

lemma Delay_bounds:
  "BaseDelay (normalized p) \<le> Delay env p rnd prev"
  "Delay env p rnd prev \<le> MaxDelay (normalized p)"
  using normalized_bounds [of p] by (auto simp: Delay_def Let_def)

lemma delay_steps_bounds:
  "0 < k \<Longrightarrow> BaseDelay (normalized p) \<le> delay_steps env p rnds k"
  "0 < k \<Longrightarrow> delay_steps env p rnds k \<le> MaxDelay (normalized p)"
  by (cases k; simp add: Delay_bounds)+

lemma computeRetryDelay_nonneg: "0 \<le> computeRetryDelay env p rnds attempt override"
proof (cases "nat (min attempt maxBackoffSteps) = 0")
  case True
  then show ?thesis by (simp add: computeRetryDelay_def maxRetryDelay_def)
next
  case False
  then have "BaseDelay (normalized p) \<le> delay_steps env p rnds (nat (min attempt maxBackoffSteps))"
    by (simp only: delay_steps_bounds neq0_conv)
  with normalized_bounds(1) [of p] show ?thesis
    by (simp add: computeRetryDelay_def maxRetryDelay_def)
qed

text \<open>
  Which delay a redelivery waits: a positive override, capped at a day; otherwise the policy's
  jittered delay, always between the completed policy's base and maximum.
\<close>

lemma computeRetryDelay_override:
  "0 < d \<Longrightarrow> computeRetryDelay env p rnds attempt d = min d maxRetryDelay"
  by (simp add: computeRetryDelay_def)

lemma computeRetryDelay_policy:
  assumes "1 \<le> attempt" and "d \<le> 0"
  shows "BaseDelay (normalized p) \<le> computeRetryDelay env p rnds attempt d"
    and "computeRetryDelay env p rnds attempt d \<le> MaxDelay (normalized p)"
proof -
  have "0 < nat (min attempt maxBackoffSteps)" using assms by (simp add: maxBackoffSteps_def)
  with assms show "BaseDelay (normalized p) \<le> computeRetryDelay env p rnds attempt d"
    and "computeRetryDelay env p rnds attempt d \<le> MaxDelay (normalized p)"
    by (auto simp: computeRetryDelay_def delay_steps_bounds)
qed

end
