(* ===== verification/Config.thy ===== *)
theory Config
  imports Backoff Types
begin

text \<open>
  The functional options of \<^verbatim>\<open>config.go\<close> and \<^verbatim>\<open>options.go\<close> and the checks \<^verbatim>\<open>New\<close> makes of them
  (\<^verbatim>\<open>pgqueue.go\<close>).  An option is a constructor with the value it closes over; applying it is
  \<open>apply_option\<close>.  Of a logger, tracer, metrics recorder or listener only whether it is non-nil
  is kept.
\<close>

definition defaultSchemaName :: string where
  "defaultSchemaName = ''public''"

definition defaultMaxMessageSize :: int where
  "defaultMaxMessageSize = 256 * 1024"

definition MaxAllowedMessageSize :: int where
  "MaxAllowedMessageSize = 2 ^ 30"

definition defaultMaxMetadataSize :: int where
  "defaultMaxMetadataSize = 16 * 1024"

definition MaxAllowedMetadataSize :: int where
  "MaxAllowedMetadataSize = 2 ^ 30"

record queueConfig =
  maxMessageSize :: int
  maxMetadataSize :: int
  defaultMaxRetries :: int
  maxRetriesSet :: bool
  defaultTTL :: duration
  maxQueues :: int
  schemaName :: string
  logger :: bool
  tracer :: bool
  metrics :: bool
  backoffPolicy :: BackoffPolicy
  backoffConfigured :: bool
  safetyNetPoll :: duration
  listener :: bool
  maxSubscribersPerTopic :: int
  maxBatchBytes :: int

definition zeroConfig :: queueConfig where
  "zeroConfig =
     \<lparr>maxMessageSize = 0, maxMetadataSize = 0, defaultMaxRetries = 0, maxRetriesSet = False,
      defaultTTL = 0, maxQueues = 0, schemaName = '''', logger = False, tracer = False,
      metrics = False, backoffPolicy = \<lparr>BaseDelay = 0, MaxDelay = 0, Multiplier = 0\<rparr>,
      backoffConfigured = False, safetyNetPoll = 0, listener = False,
      maxSubscribersPerTopic = 0, maxBatchBytes = 0\<rparr>"

datatype Option =
    WithMaxMessageSize int
  | WithMaxMetadataSize int
  | WithDefaultMaxRetries int
  | WithDefaultTTL duration
  | WithMaxQueues int
  | WithMaxSubscribersPerTopic int
  | WithMaxBatchBytes int
  | WithSchema string
  | WithLogger bool
  | WithTracer bool
  | WithMetrics bool
  | WithBackoffPolicy BackoffPolicy
  | WithSafetyNetPoll duration
  | WithListener bool

fun apply_option :: "Option \<Rightarrow> queueConfig \<Rightarrow> queueConfig" where
  "apply_option (WithMaxMessageSize n) c = c\<lparr>maxMessageSize := n\<rparr>"
| "apply_option (WithMaxMetadataSize n) c = c\<lparr>maxMetadataSize := n\<rparr>"
| "apply_option (WithDefaultMaxRetries n) c = c\<lparr>defaultMaxRetries := n, maxRetriesSet := True\<rparr>"
| "apply_option (WithDefaultTTL d) c = c\<lparr>defaultTTL := d\<rparr>"
| "apply_option (WithMaxQueues n) c = c\<lparr>maxQueues := n\<rparr>"
| "apply_option (WithMaxSubscribersPerTopic n) c = c\<lparr>maxSubscribersPerTopic := n\<rparr>"
| "apply_option (WithMaxBatchBytes n) c = c\<lparr>maxBatchBytes := n\<rparr>"
| "apply_option (WithSchema s) c = c\<lparr>schemaName := s\<rparr>"
| "apply_option (WithLogger l) c = c\<lparr>logger := l\<rparr>"
| "apply_option (WithTracer t) c = c\<lparr>tracer := t\<rparr>"
| "apply_option (WithMetrics m) c = c\<lparr>metrics := m\<rparr>"
| "apply_option (WithBackoffPolicy p) c = c\<lparr>backoffPolicy := p, backoffConfigured := True\<rparr>"
| "apply_option (WithSafetyNetPoll d) c = c\<lparr>safetyNetPoll := d\<rparr>"
| "apply_option (WithListener l) c = c\<lparr>listener := l\<rparr>"

definition raw_config :: "Option list \<Rightarrow> queueConfig" where
  "raw_config opts = fold apply_option opts zeroConfig"

definition fill_defaults :: "queueConfig \<Rightarrow> queueConfig" where
  "fill_defaults c =
     (let c = (if maxMessageSize c = 0 then c\<lparr>maxMessageSize := defaultMaxMessageSize\<rparr> else c);
          c = (if maxMetadataSize c = 0 then c\<lparr>maxMetadataSize := defaultMaxMetadataSize\<rparr> else c);
          c = (if \<not> maxRetriesSet c then c\<lparr>defaultMaxRetries := 3\<rparr> else c);
          c = (if schemaName c = '''' then c\<lparr>schemaName := defaultSchemaName\<rparr> else c)
      in c\<lparr>backoffPolicy := normalized (backoffPolicy c)\<rparr>)"

definition applyConfigOptions :: "Option list \<Rightarrow> queueConfig" where
  "applyConfigOptions opts = fill_defaults (raw_config opts)"

text \<open>\<^verbatim>\<open>InitSchema\<close>'s test that only \<^verbatim>\<open>WithSchema\<close> and \<^verbatim>\<open>WithLogger\<close> were given.\<close>

definition onlySchemaOrLoggerOption :: "Option list \<Rightarrow> bool" where
  "onlySchemaOrLoggerOption opts =
     (let probe = raw_config opts;
          disallowed =
            [maxMessageSize probe \<noteq> 0, maxMetadataSize probe \<noteq> 0, defaultMaxRetries probe \<noteq> 0,
             maxRetriesSet probe, defaultTTL probe \<noteq> 0, maxQueues probe \<noteq> 0,
             safetyNetPoll probe \<noteq> 0, backoffConfigured probe, tracer probe, metrics probe,
             listener probe]
      in \<not> list_ex (\<lambda>b. b) disallowed)"

section \<open>Validation\<close>

definition validateMaxMessageSize :: "int \<Rightarrow> err + unit" where
  "validateMaxMessageSize n =
     (if n < 0 \<or> n > MaxAllowedMessageSize then Inl ErrInvalidConfig else Inr ())"

definition validateMaxMetadataSize :: "int \<Rightarrow> err + unit" where
  "validateMaxMetadataSize n =
     (if n < 0 \<or> n > MaxAllowedMetadataSize then Inl ErrInvalidConfig else Inr ())"

definition validateMaxRetries :: "int \<Rightarrow> err + unit" where
  "validateMaxRetries n = (if n < 0 then Inl ErrInvalidConfig else Inr ())"

definition is_lower :: "char \<Rightarrow> bool" where
  "is_lower c \<longleftrightarrow> 97 \<le> (of_char c :: nat) \<and> (of_char c :: nat) \<le> 122"

definition is_upper :: "char \<Rightarrow> bool" where
  "is_upper c \<longleftrightarrow> 65 \<le> (of_char c :: nat) \<and> (of_char c :: nat) \<le> 90"

definition is_digit :: "char \<Rightarrow> bool" where
  "is_digit c \<longleftrightarrow> 48 \<le> (of_char c :: nat) \<and> (of_char c :: nat) \<le> 57"

definition maxSchemaNameLength :: nat where
  "maxSchemaNameLength = 63"

text \<open>\<^verbatim>\<open>validateSchemaName\<close>: \<^verbatim>\<open>^[a-zA-Z_][a-zA-Z0-9_]*$\<close>, at most 63 bytes.\<close>

definition schemaNameRegex :: "string \<Rightarrow> bool" where
  "schemaNameRegex s =
     (case s of
        [] \<Rightarrow> False
      | c # cs \<Rightarrow> (is_lower c \<or> is_upper c \<or> c = CHR ''_'') \<and>
                  list_all (\<lambda>c. is_lower c \<or> is_upper c \<or> is_digit c \<or> c = CHR ''_'') cs)"

definition validateSchemaName :: "string \<Rightarrow> err + unit" where
  "validateSchemaName s =
     (if length s > maxSchemaNameLength \<or> \<not> schemaNameRegex s then Inl ErrInvalidConfig else Inr ())"

definition validateResolvedConfig :: "queueConfig \<Rightarrow> err + unit" where
  "validateResolvedConfig c =
     (case validateMaxMessageSize (maxMessageSize c) of
        Inl e \<Rightarrow> Inl e
      | Inr _ \<Rightarrow>
          (case validateMaxMetadataSize (maxMetadataSize c) of
             Inl e \<Rightarrow> Inl e
           | Inr _ \<Rightarrow>
               if defaultMaxRetries c < 0 \<or> defaultTTL c < 0 \<or> maxQueues c < 0
               then Inl ErrInvalidConfig
               else validateSchemaName (schemaName c)))"

definition validateBackoffPolicy :: "BackoffPolicy \<Rightarrow> err + unit" where
  "validateBackoffPolicy p =
     (if BaseDelay p < 0 \<or> MaxDelay p < 0 then Inl ErrInvalidConfig
      else if Multiplier p \<noteq> 0 \<and> Multiplier p < 1 then Inl ErrInvalidConfig
      else if BaseDelay p > 0 \<and> MaxDelay p > 0 \<and> MaxDelay p < BaseDelay p then Inl ErrInvalidConfig
      else Inr ())"

definition validateRawOptions :: "Option list \<Rightarrow> err + unit" where
  "validateRawOptions opts =
     (let raw = raw_config opts in
      if safetyNetPoll raw < 0 then Inl ErrInvalidConfig
      else validateBackoffPolicy (backoffPolicy raw))"

text \<open>The part of \<^verbatim>\<open>New\<close> that turns options into the configuration of a queue.\<close>

definition New_config :: "Option list \<Rightarrow> err + queueConfig" where
  "New_config opts =
     (case validateRawOptions opts of
        Inl e \<Rightarrow> Inl e
      | Inr _ \<Rightarrow>
          (case validateResolvedConfig (applyConfigOptions opts) of
             Inl e \<Rightarrow> Inl e
           | Inr _ \<Rightarrow> Inr (applyConfigOptions opts)))"

end
