(* ===== verification/MetadataCache.thy ===== *)
theory MetadataCache
  imports Types "HOL-Library.AList"
begin

text \<open>
  \<^verbatim>\<open>metadatacache.go\<close>: the bounded cache from queue type and name to table name.  The Go map
  is an association list with distinct keys, in the order a range loop would visit it; \<open>now\<close>
  is the value of \<^verbatim>\<open>time.Now\<close> in the call, in nanoseconds.
\<close>

record cachedQueueMeta =
  cachedTable :: string
  storedAt :: int

type_synonym metadataCache = "(string \<times> cachedQueueMeta) list"

definition metadataCacheTTL :: duration where
  "metadataCacheTTL = 1 * time_Minute"

definition metadataCacheMaxEntries :: nat where
  "metadataCacheMaxEntries = 4096"

fun queue_type_text :: "QueueType \<Rightarrow> string" where
  "queue_type_text QueueTypePubSub = ''pubsub''"
| "queue_type_text QueueTypeChannel = ''channel''"
| "queue_type_text (OtherQueueType s) = s"

definition cache_key :: "QueueType \<Rightarrow> string \<Rightarrow> string" where
  "cache_key qt name = queue_type_text qt @ ''/'' @ name"

definition newMetadataCache :: metadataCache where
  "newMetadataCache = []"

definition cache_expired :: "int \<Rightarrow> cachedQueueMeta \<Rightarrow> bool" where
  "cache_expired now item \<longleftrightarrow> now - storedAt item > metadataCacheTTL"

definition cache_get ::
    "int \<Rightarrow> QueueType \<Rightarrow> string \<Rightarrow> metadataCache \<Rightarrow> string option \<times> metadataCache" where
  "cache_get now qt name mc =
     (case map_of mc (cache_key qt name) of
        None \<Rightarrow> (None, mc)
      | Some item \<Rightarrow>
          if cache_expired now item then (None, AList.delete (cache_key qt name) mc)
          else (Some (cachedTable item), mc))"

definition cache_sweep :: "int \<Rightarrow> metadataCache \<Rightarrow> metadataCache" where
  "cache_sweep now mc = filter (\<lambda>(_, item). \<not> cache_expired now item) mc"

text \<open>The scan for the entry stored first; ties keep the one visited first.\<close>

fun oldest_entry :: "metadataCache \<Rightarrow> (string \<times> int) option \<Rightarrow> (string \<times> int) option" where
  "oldest_entry [] acc = acc"
| "oldest_entry ((k, item) # mc) None = oldest_entry mc (Some (k, storedAt item))"
| "oldest_entry ((k, item) # mc) (Some (k', t0)) =
     oldest_entry mc (if storedAt item < t0 then Some (k, storedAt item) else Some (k', t0))"

definition evictLocked :: "int \<Rightarrow> metadataCache \<Rightarrow> metadataCache" where
  "evictLocked now mc =
     (let mc' = cache_sweep now mc in
      if length mc' < length mc then mc'
      else case oldest_entry mc' None of
             None \<Rightarrow> mc'
           | Some (k, _) \<Rightarrow> AList.delete k mc')"

definition cache_set :: "int \<Rightarrow> QueueType \<Rightarrow> string \<Rightarrow> string \<Rightarrow> metadataCache \<Rightarrow> metadataCache" where
  "cache_set now qt name tbl mc =
     (let key = cache_key qt name;
          mc = (if map_of mc key = None \<and> length mc \<ge> metadataCacheMaxEntries
                then evictLocked now mc else mc)
      in AList.update key \<lparr>cachedTable = tbl, storedAt = now\<rparr> mc)"

definition cache_invalidate :: "QueueType \<Rightarrow> string \<Rightarrow> metadataCache \<Rightarrow> metadataCache" where
  "cache_invalidate qt name mc = AList.delete (cache_key qt name) mc"

definition cache_inv :: "metadataCache \<Rightarrow> bool" where
  "cache_inv mc \<longleftrightarrow> distinct (map fst mc) \<and> length mc \<le> metadataCacheMaxEntries"

section \<open>Keys\<close>

lemma cache_key_inj:
  assumes "cache_key qt name = cache_key qt' name'"
    and "qt \<in> {QueueTypePubSub, QueueTypeChannel}" and "qt' \<in> {QueueTypePubSub, QueueTypeChannel}"
  shows "qt = qt' \<and> name = name'"
  using assms by (auto simp: cache_key_def)

section \<open>Eviction\<close>

lemma distinct_cache_sweep: "distinct (map fst mc) \<Longrightarrow> distinct (map fst (cache_sweep now mc))"
  by (auto simp: cache_sweep_def)

lemma length_cache_sweep: "length (cache_sweep now mc) \<le> length mc"
  by (simp add: cache_sweep_def)

lemma cache_sweep_lookup:
  "distinct (map fst mc) \<Longrightarrow> map_of (cache_sweep now mc) k = Some item \<Longrightarrow> map_of mc k = Some item"
  by (auto simp: cache_sweep_def dest!: map_of_SomeD)

lemma oldest_entry_key:
  "oldest_entry mc acc = Some (k, t0) \<Longrightarrow> k \<in> fst ` set mc \<or> acc = Some (k, t0)"
  by (induction mc acc rule: oldest_entry.induct) (auto split: if_splits)

lemma oldest_entry_some: "mc \<noteq> [] \<or> acc \<noteq> None \<Longrightarrow> oldest_entry mc acc \<noteq> None"
  by (induction mc acc rule: oldest_entry.induct) auto

lemma oldest_entry_least:
  "oldest_entry mc acc = Some (k, t0) \<Longrightarrow>
   (\<forall>(_, item) \<in> set mc. t0 \<le> storedAt item) \<and> (\<forall>k' t0'. acc = Some (k', t0') \<longrightarrow> t0 \<le> t0')"
proof (induction mc acc rule: oldest_entry.induct)
  case (3 k item mc k' t0)
  then show ?case by (cases "storedAt item < t0") fastforce+
qed auto

lemma length_AList_delete: "k \<in> fst ` set al \<Longrightarrow> length (AList.delete k al) < length al"
  by (auto simp: AList.delete_eq intro: length_filter_less)

lemma length_AList_update:
  "length (AList.update k v al) = (if k \<in> fst ` set al then length al else Suc (length al))"
  by (induction al) auto

lemma evictLocked_room:
  assumes "distinct (map fst mc)" and "mc \<noteq> []"
  shows "length (evictLocked now mc) < length mc"
proof (cases "length (cache_sweep now mc) < length mc")
  case True
  then show ?thesis by (simp add: evictLocked_def)
next
  case False
  then have all: "cache_sweep now mc = mc"
    using length_cache_sweep [of now mc] unfolding cache_sweep_def
    by (metis (lifting) filter_True le_neq_implies_less length_filter_less)
  obtain k t0 where k: "oldest_entry mc None = Some (k, t0)"
    using oldest_entry_some [of mc None] assms(2) by fastforce
  then have "k \<in> fst ` set mc" using oldest_entry_key [of mc None] by auto
  with assms k all show ?thesis by (simp add: evictLocked_def length_AList_delete)
qed

lemma distinct_evictLocked: "distinct (map fst mc) \<Longrightarrow> distinct (map fst (evictLocked now mc))"
  by (auto simp: evictLocked_def Let_def distinct_cache_sweep distinct_delete split: option.split)

section \<open>The operations\<close>

lemma cache_inv_new: "cache_inv newMetadataCache"
  by (simp add: cache_inv_def newMetadataCache_def)

lemma cache_inv_get: "cache_inv mc \<Longrightarrow> cache_inv (snd (cache_get now qt name mc))"
  by (auto simp: cache_inv_def cache_get_def distinct_delete
      intro: le_trans [OF length_delete_le] split: option.split)

lemma cache_inv_sweep: "cache_inv mc \<Longrightarrow> cache_inv (cache_sweep now mc)"
  using length_cache_sweep [of now mc] by (auto simp: cache_inv_def distinct_cache_sweep)

lemma cache_inv_invalidate: "cache_inv mc \<Longrightarrow> cache_inv (cache_invalidate qt name mc)"
  by (auto simp: cache_inv_def cache_invalidate_def distinct_delete
      intro: le_trans [OF length_delete_le])

lemma cache_inv_set:
  assumes "cache_inv mc"
  shows "cache_inv (cache_set now qt name tbl mc)"
proof -
  let ?k = "cache_key qt name"
  let ?full = "map_of mc ?k = None \<and> length mc \<ge> metadataCacheMaxEntries"
  let ?mc = "if ?full then evictLocked now mc else mc"
  have d: "distinct (map fst ?mc)" using assms distinct_evictLocked by (simp add: cache_inv_def)
  have "length (AList.update ?k v ?mc) \<le> metadataCacheMaxEntries" for v
  proof (cases ?full)
    case True
    then have "mc \<noteq> []" by (auto simp: metadataCacheMaxEntries_def)
    with True assms evictLocked_room [of mc now] show ?thesis
      by (auto simp: cache_inv_def length_AList_update)
  next
    case False
    then have "map_of mc ?k = None \<longrightarrow> length mc < metadataCacheMaxEntries" by auto
    moreover have "map_of mc ?k \<noteq> None \<Longrightarrow> ?k \<in> fst ` set mc" by (simp add: map_of_eq_None_iff)
    ultimately show ?thesis using False assms
      by (auto simp: cache_inv_def length_AList_update)
  qed
  with d show ?thesis by (simp add: cache_inv_def cache_set_def Let_def distinct_update)
qed

lemma cache_get_set:
  "fst (cache_get now' qt name (cache_set now qt name tbl mc)) =
     (if now' - now > metadataCacheTTL then None else Some tbl)"
  by (simp add: cache_get_def cache_set_def Let_def update_conv' cache_expired_def)

lemma cache_get_invalidate:
  "fst (cache_get now qt name (cache_invalidate qt name mc)) = None"
  by (simp add: cache_get_def cache_invalidate_def delete_conv')

lemma cache_get_fresh:
  "fst (cache_get now qt name mc) = Some tbl \<Longrightarrow>
   \<exists>item. map_of mc (cache_key qt name) = Some item \<and> cachedTable item = tbl \<and>
          now - storedAt item \<le> metadataCacheTTL"
  by (auto simp: cache_get_def cache_expired_def split: option.splits if_splits)

lemma evictLocked_lookup:
  assumes "distinct (map fst mc)" and "map_of (evictLocked now mc) k = Some item"
  shows "map_of mc k = Some item"
  using assms cache_sweep_lookup [OF assms(1)]
  by (auto simp: evictLocked_def Let_def delete_conv' fun_upd_apply split: if_splits option.splits)

text \<open>Storing one queue's table name never changes what is cached for another.\<close>

lemma cache_set_other:
  assumes "cache_inv mc" and "cache_key qt name \<noteq> k"
    and "map_of (cache_set now qt name tbl mc) k = Some item"
  shows "map_of mc k = Some item"
  using assms evictLocked_lookup [of mc now k item]
  by (auto simp: cache_inv_def cache_set_def Let_def update_conv' split: if_splits)

end
