(* ===== verification/Queries.thy ===== *)
theory Queries
  imports Claims Config MetadataCache
begin

text \<open>
  \<^verbatim>\<open>queries.go\<close>: the handle, the metadata and subscriber queries, the resolution of a queue's
  TTL and of message metadata.  The state of a process is the database and its table-name
  cache.
\<close>

record Queue =
  cfg :: queueConfig
  closed :: bool

record sys =
  store :: db
  mdcache :: metadataCache

definition onDb :: "(db, 'a) txm \<Rightarrow> (sys, 'a) txm" where
  "onDb = zoom store (\<lambda>d s. s\<lparr>store := d\<rparr>)"

definition onCache :: "(metadataCache \<Rightarrow> 'a \<times> metadataCache) \<Rightarrow> (sys, 'a) txm" where
  "onCache f = (\<lambda>(n, s). case f (mdcache s) of (a, mc) \<Rightarrow> (Inr a, n, s\<lparr>mdcache := mc\<rparr>))"

definition checkClosed :: "Queue \<Rightarrow> ('s, unit) txm" where
  "checkClosed pq = guardT (\<not> closed pq) ErrQueueClosed"

definition getQueueTTL :: "Queue \<Rightarrow> config_json \<Rightarrow> duration" where
  "getQueueTTL pq c =
     (case c of
        BadConfig \<Rightarrow> defaultTTL (cfg pq)
      | GoodConfig opts \<Rightarrow> if optTTLSet opts then optTTL opts else defaultTTL (cfg pq))"

definition parseMetadataJSON :: "env \<Rightarrow> string option \<Rightarrow> metadata option" where
  "parseMetadataJSON env s =
     (case s of
        None \<Rightarrow> None
      | Some t \<Rightarrow> if t = '''' then None else json_Unmarshal env t)"

section \<open>Queue metadata\<close>

definition is_queue :: "QueueType \<Rightarrow> string \<Rightarrow> queueMetadata \<Rightarrow> bool" where
  "is_queue qt name m \<longleftrightarrow> metaQueueType m = qt \<and> metaQueueName m = name"

definition selectQueueMetadata :: "env \<Rightarrow> QueueType \<Rightarrow> string \<Rightarrow> (db, queueMetadata option) txm" where
  "selectQueueMetadata env qt name =
     stmt env (\<lambda>n d. (find (is_queue qt name) (pgqueue_metadata d), d))"

definition getQueueMetadata :: "env \<Rightarrow> QueueType \<Rightarrow> string \<Rightarrow> (sys, queueMetadata) txm" where
  "getQueueMetadata env qt name =
     bindT (onDb (selectQueueMetadata env qt name)) (\<lambda>row.
       case row of
         None \<Rightarrow> failT ErrQueueNotFound
       | Some meta \<Rightarrow>
           bindT (onCache (\<lambda>mc. ((), cache_set (time_Now env) qt name (metaTableName meta) mc)))
             (\<lambda>_. returnT meta))"

definition cachedTableName :: "env \<Rightarrow> QueueType \<Rightarrow> string \<Rightarrow> (sys, string) txm" where
  "cachedTableName env qt name =
     bindT (onCache (cache_get (time_Now env) qt name)) (\<lambda>hit.
       case hit of
         Some tbl \<Rightarrow> returnT tbl
       | None \<Rightarrow> bindT (getQueueMetadata env qt name) (\<lambda>meta. returnT (metaTableName meta)))"

text \<open>The callers' translation of \<^verbatim>\<open>ErrQueueNotFound\<close>.\<close>

definition notFoundAs :: "err \<Rightarrow> ('s, 'a) txm \<Rightarrow> ('s, 'a) txm" where
  "notFoundAs e' = mapErrT (\<lambda>e. if errors_Is e ErrQueueNotFound then e' else e)"

section \<open>Subscribers\<close>

definition registerSubscriber :: "env \<Rightarrow> string \<Rightarrow> string \<Rightarrow> (db, subscriber) txm" where
  "registerSubscriber env topicName subID =
     autocommit env (\<lambda>n d.
       case find (\<lambda>s. subTopicName s = topicName \<and> subSubscriberID s = subID) (pgqueue_subscribers d) of
         Some s \<Rightarrow>
           (s\<lparr>subActive := True\<rparr>,
            d\<lparr>pgqueue_subscribers :=
                sql_update (\<lambda>s. subTopicName s = topicName \<and> subSubscriberID s = subID)
                  (subActive_update (\<lambda>_. True)) (pgqueue_subscribers d)\<rparr>)
       | None \<Rightarrow>
           (let s = \<lparr>subscriberRowID = uuidv7 env n 0, subTopicName = topicName,
                     subSubscriberID = subID, subCreatedAt = NOW env, subActive = True\<rparr>
            in (s, d\<lparr>pgqueue_subscribers := pgqueue_subscribers d @ [s]\<rparr>)))"

definition unregisterSubscriber :: "env \<Rightarrow> string \<Rightarrow> string \<Rightarrow> (db, unit) txm" where
  "unregisterSubscriber env topicName subID =
     bindT
       (autocommit env (\<lambda>n d.
          let P = (\<lambda>s. subTopicName s = topicName \<and> subSubscriberID s = subID \<and> subActive s) in
          (sql_count P (pgqueue_subscribers d),
           d\<lparr>pgqueue_subscribers :=
               sql_update P (subActive_update (\<lambda>_. False)) (pgqueue_subscribers d)\<rparr>)))
       (\<lambda>rows. guardT (rows \<noteq> 0) ErrSubscriberNotFound)"

definition active_on :: "string \<Rightarrow> subscriber \<Rightarrow> bool" where
  "active_on topicName s \<longleftrightarrow> subTopicName s = topicName \<and> subActive s"

definition getActiveSubscribers :: "Queue \<Rightarrow> env \<Rightarrow> string \<Rightarrow> (db, subscriber list) txm" where
  "getActiveSubscribers pq env topicName =
     (let maxSubs = maxSubscribersPerTopic (cfg pq) in
      bindT
        (stmt env (\<lambda>n d.
           (let all = sort_key subCreatedAt (filter (active_on topicName) (pgqueue_subscribers d))
            in if maxSubs > 0 then take (nat (maxSubs + 1)) all else all, d)))
        (\<lambda>items.
           if maxSubs > 0 \<and> int (length items) > maxSubs then failT ErrTooManySubscribers
           else returnT items))"

section \<open>Behaviour\<close>

lemma onDb_app [tx_simps]:
  "onDb m (n, s) = (case m (n, store s) of (r, n', d) \<Rightarrow> (r, n', s\<lparr>store := d\<rparr>))"
  by (simp add: onDb_def zoom_def)

lemma onCache_app [tx_simps]:
  "onCache f (n, s) = (Inr (fst (f (mdcache s))), n, s\<lparr>mdcache := snd (f (mdcache s))\<rparr>)"
  by (simp add: onCache_def split: prod.split)

lemma mapErrT_app [tx_simps]:
  "mapErrT h m (n, s) =
     (case m (n, s) of (Inl e, ns') \<Rightarrow> (Inl (h e), ns') | (Inr a, ns') \<Rightarrow> (Inr a, ns'))"
  by (simp add: mapErrT_def)

lemma getQueueMetadata_ok:
  "driver env n = None \<Longrightarrow>
   find (is_queue qt name) (pgqueue_metadata (store s)) = Some meta \<Longrightarrow>
   getQueueMetadata env qt name (n, s) =
     (Inr meta, Suc n,
      s\<lparr>mdcache := cache_set (time_Now env) qt name (metaTableName meta) (mdcache s)\<rparr>)"
  by (simp add: getQueueMetadata_def selectQueueMetadata_def tx_simps)

lemma getQueueMetadata_missing:
  "driver env n = None \<Longrightarrow>
   find (is_queue qt name) (pgqueue_metadata (store s)) = None \<Longrightarrow>
   getQueueMetadata env qt name (n, s) = (Inl ErrQueueNotFound, Suc n, s)"
  by (simp add: getQueueMetadata_def selectQueueMetadata_def tx_simps)

lemma getQueueMetadata_store:
  "getQueueMetadata env qt name (n, s) = (r, n', s') \<Longrightarrow> store s' = store s"
  by (auto simp: getQueueMetadata_def selectQueueMetadata_def tx_simps stmt_def
      split: option.splits sum.splits prod.splits)

lemma cachedTableName_store:
  "cachedTableName env qt name (n, s) = (r, n', s') \<Longrightarrow> store s' = store s"
  by (auto simp: cachedTableName_def tx_simps
      split: option.splits sum.splits prod.splits dest!: getQueueMetadata_store)

text \<open>
  A process cache is coherent when every unexpired entry names the table that the metadata
  table has for that queue.  Under coherence a cached lookup returns what a fresh read would.
\<close>

definition coherent :: "sys \<Rightarrow> bool" where
  "coherent s \<longleftrightarrow>
     (\<forall>qt name item. map_of (mdcache s) (cache_key qt name) = Some item \<longrightarrow>
        (\<exists>meta. find (is_queue qt name) (pgqueue_metadata (store s)) = Some meta \<and>
                metaTableName meta = cachedTable item))"

lemma cachedTableName_coherent:
  assumes "coherent s" and "no_faults env"
    and "find (is_queue qt name) (pgqueue_metadata (store s)) = Some meta"
  shows "\<exists>n' s'. cachedTableName env qt name (n, s) = (Inr (metaTableName meta), n', s')"
proof (cases "fst (cache_get (time_Now env) qt name (mdcache s))")
  case None
  then show ?thesis using assms
    by (auto simp: cachedTableName_def tx_simps getQueueMetadata_ok)
next
  case (Some tbl)
  then have "tbl = metaTableName meta"
    using assms cache_get_fresh [OF Some] unfolding coherent_def by fastforce
  with Some show ?thesis by (auto simp: cachedTableName_def tx_simps)
qed

lemma getActiveSubscribers_all:
  assumes "driver env n = None"
    and "maxSubscribersPerTopic (cfg pq) \<le> 0 \<or>
         int (sql_count (active_on topicName) (pgqueue_subscribers d)) \<le> maxSubscribersPerTopic (cfg pq)"
  shows "getActiveSubscribers pq env topicName (n, d) =
           (Inr (sort_key subCreatedAt (filter (active_on topicName) (pgqueue_subscribers d))), Suc n, d)"
  using assms by (auto simp: getActiveSubscribers_def Let_def tx_simps sql_count_def)

lemma getActiveSubscribers_too_many:
  assumes "driver env n = None" and "0 < maxSubscribersPerTopic (cfg pq)"
    and "maxSubscribersPerTopic (cfg pq) < int (sql_count (active_on topicName) (pgqueue_subscribers d))"
  shows "getActiveSubscribers pq env topicName (n, d) = (Inl ErrTooManySubscribers, Suc n, d)"
  using assms by (auto simp: getActiveSubscribers_def Let_def tx_simps sql_count_def)

end
