(* ===== verification/Sample.thy ===== *)
theory Sample
  imports Queries
begin

text \<open>
  Concrete values on which the witnesses evaluate the model: an environment whose driver never
  fails, the default configuration, and one-row tables.
\<close>

definition env0 :: env where
  "env0 =
     \<lparr>NOW = 1000000, time_Now = 0, make_interval = (\<lambda>d. d div 1000),
      uuidv7 = (\<lambda>n k. 1000 + 65536 * of_nat n + of_nat k), NewUUIDv7 = (\<lambda>i. Inr (of_nat (500 + i))), locked = (\<lambda>_. False),
      driver = (\<lambda>_. None), rand_Float64 = (\<lambda>_ _. 0), float64 = (\<lambda>x. x),
      float64_to_int64 = (\<lambda>x. \<lfloor>x\<rfloor>),
      pg_error = (\<lambda>c. \<lparr>SQLState = Some c, errText = c\<rparr>),
      json_Marshal = (\<lambda>_. Some ''{}''), json_Unmarshal = (\<lambda>_. Some []),
      collate = (\<lambda>s. case s of [] \<Rightarrow> 0 | c # _ \<Rightarrow> of_nat (of_char c))\<rparr>"

definition pq0 :: Queue where
  "pq0 = \<lparr>cfg = applyConfigOptions [], closed = False\<rparr>"

definition row0 :: channel_row where
  "row0 =
     \<lparr>id = 7, payload = [1, 2], created_at = 900000, status = MessageStatusPending,
      retry_count = 0, max_retries = Some 3, visibility_timeout = None, available_at = 900000,
      claim_id = None, processed_at = None, error_message = None, metadata = None\<rparr>"

text \<open>The same message claimed by token 42, its deadline in the past.\<close>

definition row1 :: channel_row where
  "row1 = row0\<lparr>status := MessageStatusProcessing, claim_id := Some 42, visibility_timeout := Some 950000\<rparr>"

definition meta0 :: queueMetadata where
  "meta0 =
     \<lparr>metaID = 1, metaQueueType = QueueTypeChannel, metaQueueName = ''orders'',
      metaTableName = ''orders'',
      metaConfig = GoodConfig \<lparr>optMaxMessageSize = 0, optMaxMetadataSize = 0, optTTL = 0,
        optTTLSet = False, optMaxRetries = 0, optMaxRetriesSet = False\<rparr>,
      metaPaused = False, metaCreatedAt = 0, metaUpdatedAt = 0\<rparr>"

definition sys_with :: "channel_tables \<Rightarrow> sys" where
  "sys_with t =
     \<lparr>store = \<lparr>pgqueue_metadata = [meta0], pgqueue_subscribers = [], pgqueue_replay_log = [],
               channels = [''orders'' \<mapsto> t], topics = Map.empty\<rparr>,
      mdcache = []\<rparr>"

definition receipt0 :: Receipt where
  "receipt0 =
     \<lparr>MessageID = 7, ClaimID = 42, ReceiptQueueName = ''orders'',
      ReceiptQueueType = QueueTypeChannel, SubscriberID = ''''\<rparr>"

lemma no_faults_env0 [simp]: "no_faults env0"
  by (simp add: no_faults_def env0_def)

lemma env0_simps [simp]:
  "NOW env0 = 1000000" "time_Now env0 = 0" "make_interval env0 d = d div 1000"
  "uuidv7 env0 n k = 1000 + 65536 * of_nat n + of_nat k" "locked env0 i = False" "driver env0 n = None"
  "rand_Float64 env0 n k = 0" "pg_error env0 c = \<lparr>SQLState = Some c, errText = c\<rparr>"
  "NewUUIDv7 env0 j = Inr (of_nat (500 + j))"
  "json_Marshal env0 m = Some ''{}''" "json_Unmarshal env0 s = Some []"
  by (simp_all add: env0_def)

lemma env0_uuid_unat:
  assumes "j < 1000000" and "i < 65536"
  shows "unat (uuidv7 env0 j i) = 1000 + 65536 * j + i"
proof -
  have "uuidv7 env0 j i = of_nat (1000 + 65536 * j + i)" by simp
  then have eq: "unat (uuidv7 env0 j i) = (1000 + 65536 * j + i) mod 2 ^ LENGTH(128)"
    by (simp only: unat_of_nat)
  have "1000 + 65536 * j + i < 2 ^ 40" using assms by simp
  also have "(2 :: nat) ^ 40 \<le> 2 ^ LENGTH(128)" by (rule power_increasing) simp_all
  finally show ?thesis unfolding eq by (rule mod_less)
qed

lemma env0_uuid_inj2:
  assumes "j < 1000000" and "k < 1000000" and "i < 65536" and "l < 65536"
  shows "uuidv7 env0 j i = uuidv7 env0 k l \<longleftrightarrow> j = k \<and> i = l"
proof
  assume "uuidv7 env0 j i = uuidv7 env0 k l"
  then have "unat (uuidv7 env0 j i) = unat (uuidv7 env0 k l)" by (rule arg_cong)
  then have eq: "i + 65536 * j = l + 65536 * k"
    unfolding env0_uuid_unat [OF assms(1,3)] env0_uuid_unat [OF assms(2,4)] by simp
  then have "(i + 65536 * j) div 65536 = (l + 65536 * k) div 65536" by (rule arg_cong)
  then have "j = k" using assms(3,4) by simp
  with eq show "j = k \<and> i = l" by simp
qed simp

lemma env0_uuid_inj:
  "j < 1000000 \<Longrightarrow> k < 1000000 \<Longrightarrow> uuidv7 env0 j 0 = uuidv7 env0 k 0 \<longleftrightarrow> j = k"
  using env0_uuid_inj2 [of j k 0 0] by simp

lemma coherent_sys_with [simp]: "coherent (sys_with t)"
  by (simp add: coherent_def sys_with_def)

lemma pq0_simps [simp]:
  "closed pq0 = False" "defaultMaxRetries (cfg pq0) = 3" "backoffConfigured (cfg pq0) = False"
  "defaultTTL (cfg pq0) = 0" "maxSubscribersPerTopic (cfg pq0) = 0" "maxBatchBytes (cfg pq0) = 0"
  "maxMessageSize (cfg pq0) = 262144" "maxMetadataSize (cfg pq0) = 16384" "maxQueues (cfg pq0) = 0"
  by (simp_all add: pq0_def applyConfigOptions_def raw_config_def fill_defaults_def zeroConfig_def
      Let_def defaultMaxMessageSize_def defaultMaxMetadataSize_def)

end
