(* ===== verification/ErrorText.thy ===== *)
theory ErrorText
  imports Prelude
begin

text \<open>
  \<^verbatim>\<open>truncateErrorMsg\<close> of \<^verbatim>\<open>channel.go\<close>, which makes an arbitrary Go string storable in a
  TEXT column, with the functions of \<^verbatim>\<open>unicode/utf8\<close> and \<^verbatim>\<open>strings\<close> it calls.  \<open>rune_len s\<close> is
  the width of the well-formed UTF-8 sequence at the head of \<open>s\<close>, and 0 where \<^verbatim>\<open>DecodeRune\<close>
  reports an encoding error.
\<close>

abbreviation (input) byte :: "char \<Rightarrow> nat" where
  "byte c \<equiv> of_char c"

definition in_range :: "nat \<Rightarrow> nat \<Rightarrow> char \<Rightarrow> bool" where
  "in_range lo hi c \<longleftrightarrow> lo \<le> byte c \<and> byte c \<le> hi"

definition cont :: "char \<Rightarrow> bool" where
  "cont = in_range 128 191"

definition accept3 :: "char \<Rightarrow> char \<Rightarrow> bool" where
  "accept3 c0 c1 =
     (if byte c0 = 224 then in_range 160 191 c1
      else if byte c0 = 237 then in_range 128 159 c1
      else cont c1)"

definition accept4 :: "char \<Rightarrow> char \<Rightarrow> bool" where
  "accept4 c0 c1 =
     (if byte c0 = 240 then in_range 144 191 c1
      else if byte c0 = 244 then in_range 128 143 c1
      else cont c1)"

fun rune_len :: "string \<Rightarrow> nat" where
  "rune_len [] = 0"
| "rune_len (c0 # r) =
     (if byte c0 < 128 then 1
      else if in_range 194 223 c0 then
        (case r of c1 # _ \<Rightarrow> if cont c1 then 2 else 0 | _ \<Rightarrow> 0)
      else if in_range 224 239 c0 then
        (case r of c1 # c2 # _ \<Rightarrow> if accept3 c0 c1 \<and> cont c2 then 3 else 0 | _ \<Rightarrow> 0)
      else if in_range 240 244 c0 then
        (case r of c1 # c2 # c3 # _ \<Rightarrow> if accept4 c0 c1 \<and> cont c2 \<and> cont c3 then 4 else 0 | _ \<Rightarrow> 0)
      else 0)"

function utf8_ValidString :: "string \<Rightarrow> bool" where
  "utf8_ValidString s =
     (if s = [] then True
      else if rune_len s = 0 then False
      else utf8_ValidString (drop (rune_len s) s))"
  by pat_completeness auto
termination by (relation "measure length") auto

definition replacement :: string where
  "replacement = [CHR 0xEF, CHR 0xBF, CHR 0xBD]"

text \<open>
  \<^verbatim>\<open>strings.ToValidUTF8\<close>: a run of undecodable bytes becomes one replacement; \<open>invalid\<close>
  records that the previous byte belonged to such a run.
\<close>

function strings_ToValidUTF8 :: "bool \<Rightarrow> string \<Rightarrow> string" where
  "strings_ToValidUTF8 invalid s =
     (if s = [] then []
      else if rune_len s = 0 then
        (if invalid then [] else replacement) @ strings_ToValidUTF8 True (tl s)
      else take (rune_len s) s @ strings_ToValidUTF8 False (drop (rune_len s) s))"
  by pat_completeness auto
termination by (relation "measure (\<lambda>(_, s). length s)") auto

text \<open>The loop that drops trailing bytes until the string is valid.\<close>

function trim_invalid :: "string \<Rightarrow> string" where
  "trim_invalid s =
     (if s \<noteq> [] \<and> \<not> utf8_ValidString s then trim_invalid (take (length s - 1) s) else s)"
  by pat_completeness auto
termination by (relation "measure length") auto

definition maxErrorMessageLength :: nat where
  "maxErrorMessageLength = 1024"

definition truncateErrorMsg :: "string \<Rightarrow> string" where
  "truncateErrorMsg msg =
     (if utf8_ValidString msg \<and> length msg \<le> maxErrorMessageLength then msg
      else
        let msg = (if \<not> utf8_ValidString msg then strings_ToValidUTF8 False msg else msg) in
        if length msg \<le> maxErrorMessageLength then msg
        else trim_invalid (take maxErrorMessageLength msg))"

declare utf8_ValidString.simps [simp del]
declare strings_ToValidUTF8.simps [simp del]
declare trim_invalid.simps [simp del]

section \<open>UTF-8\<close>

lemma rune_len_le: "rune_len s \<le> length s"
  by (cases s) (auto split: list.splits)

lemma rune_len_le4: "rune_len s \<le> 4"
  by (cases s) (auto split: list.splits)

lemma utf8_Nil [simp]: "utf8_ValidString []"
  by (simp add: utf8_ValidString.simps)

lemma utf8_step:
  "rune_len s \<noteq> 0 \<Longrightarrow> utf8_ValidString s \<longleftrightarrow> utf8_ValidString (drop (rune_len s) s)"
  by (subst utf8_ValidString.simps) auto

lemma utf8_rune_pos: "utf8_ValidString s \<Longrightarrow> s \<noteq> [] \<Longrightarrow> rune_len s \<noteq> 0"
  by (subst (asm) utf8_ValidString.simps) (auto split: if_splits)

text \<open>Decoding looks at the bytes of the sequence only.\<close>

lemma rune_len_append:
  assumes "rune_len s \<noteq> 0"
  shows "rune_len (take (rune_len s) s @ t) = rune_len s"
proof (cases s)
  case Nil
  with assms show ?thesis by simp
next
  case (Cons c0 r)
  with assms show ?thesis by (auto split: list.splits if_splits)
qed

lemma utf8_rune_append:
  assumes "rune_len s \<noteq> 0" and "utf8_ValidString t"
  shows "utf8_ValidString (take (rune_len s) s @ t)"
proof -
  have "drop (rune_len s) (take (rune_len s) s @ t) = t"
    using rune_len_le [of s] by simp
  then show ?thesis using assms rune_len_append [OF assms(1), of t] utf8_step by metis
qed

lemma rune_len_replacement: "rune_len (replacement @ t) = 3"
  by (simp add: replacement_def in_range_def accept3_def cont_def)

lemma utf8_replacement_append: "utf8_ValidString t \<Longrightarrow> utf8_ValidString (replacement @ t)"
proof -
  assume "utf8_ValidString t"
  moreover have "drop 3 (replacement @ t) = t" by (simp add: replacement_def)
  ultimately show ?thesis using utf8_step [of "replacement @ t"] rune_len_replacement [of t]
    by (metis numeral_neq_zero)
qed

lemma utf8_ToValidUTF8: "utf8_ValidString (strings_ToValidUTF8 invalid s)"
proof (induction invalid s rule: strings_ToValidUTF8.induct)
  case (1 invalid s)
  then show ?case
    by (subst strings_ToValidUTF8.simps)
      (auto intro: utf8_rune_append utf8_replacement_append)
qed

lemma ToValidUTF8_valid: "utf8_ValidString s \<Longrightarrow> strings_ToValidUTF8 invalid s = s"
proof (induction invalid s rule: strings_ToValidUTF8.induct)
  case (1 invalid s)
  show ?case
  proof (cases "s = []")
    case True
    then show ?thesis by (simp add: strings_ToValidUTF8.simps)
  next
    case False
    then have r: "rune_len s \<noteq> 0" using 1 utf8_rune_pos by blast
    then have "utf8_ValidString (drop (rune_len s) s)" using 1 utf8_step by blast
    then have "strings_ToValidUTF8 False (drop (rune_len s) s) = drop (rune_len s) s"
      using 1 False r by blast
    with False r show ?thesis by (subst strings_ToValidUTF8.simps) simp
  qed
qed

text \<open>Cutting a valid string at any byte leaves at most three bytes of a split sequence.\<close>

lemma utf8_take:
  "utf8_ValidString s \<Longrightarrow> n \<le> length s \<Longrightarrow>
   \<exists>j. j \<le> n \<and> n \<le> j + 3 \<and> utf8_ValidString (take j s)"
proof (induction s arbitrary: n rule: utf8_ValidString.induct)
  case (1 s)
  show ?case
  proof (cases "n < rune_len s \<or> s = []")
    case True
    with 1 rune_len_le4 [of s] show ?thesis by (intro exI [of _ 0]) auto
  next
    case False
    let ?k = "rune_len s"
    have k: "?k \<noteq> 0" using 1 False utf8_rune_pos by blast
    with 1 False obtain j where j: "j \<le> n - ?k" "n - ?k \<le> j + 3"
        "utf8_ValidString (take j (drop ?k s))"
      using utf8_step [of s] by (metis diff_le_mono length_drop)
    have "take (?k + j) s = take ?k s @ take j (drop ?k s)" by (simp add: take_add)
    then have "utf8_ValidString (take (?k + j) s)" using k j utf8_rune_append by simp
    with j False show ?thesis by (intro exI [of _ "?k + j"]) auto
  qed
qed

section \<open>The trimming loop\<close>

lemma trim_invalid_valid: "utf8_ValidString (trim_invalid s)"
  by (induction s rule: trim_invalid.induct) (subst trim_invalid.simps, auto)

lemma trim_invalid_prefix: "\<exists>j \<le> length s. trim_invalid s = take j s"
proof (induction s rule: trim_invalid.induct)
  case (1 s)
  show ?case
  proof (cases "s \<noteq> [] \<and> \<not> utf8_ValidString s")
    case True
    then obtain j where "j \<le> length s - 1" "trim_invalid s = take j (take (length s - 1) s)"
      using 1 trim_invalid.simps [of s] by auto
    then show ?thesis by (intro exI [of _ j]) (auto simp: min_def)
  next
    case False
    then show ?thesis by (subst trim_invalid.simps) (auto intro: exI [of _ "length s"])
  qed
qed

text \<open>The loop stops at the longest valid prefix.\<close>

lemma trim_invalid_longest:
  "j \<le> length s \<Longrightarrow> utf8_ValidString (take j s) \<Longrightarrow> j \<le> length (trim_invalid s)"
proof (induction s rule: trim_invalid.induct)
  case (1 s)
  show ?case
  proof (cases "s \<noteq> [] \<and> \<not> utf8_ValidString s")
    case True
    then have "j \<noteq> length s" using 1 by auto
    then have "j \<le> length s - 1" using 1 by simp
    then show ?thesis using 1 True
      by (subst trim_invalid.simps) (simp add: min_def)
  next
    case False
    then show ?thesis using 1 by (subst trim_invalid.simps) auto
  qed
qed

section \<open>The stored text\<close>

lemma truncateErrorMsg_valid: "utf8_ValidString (truncateErrorMsg msg)"
  by (auto simp: truncateErrorMsg_def Let_def utf8_ToValidUTF8 trim_invalid_valid)

lemma truncateErrorMsg_length: "length (truncateErrorMsg msg) \<le> maxErrorMessageLength"
proof -
  have "length (trim_invalid (take n s)) \<le> n" for n and s :: string
    using trim_invalid_prefix [of "take n s"] by auto
  then show ?thesis by (auto simp: truncateErrorMsg_def Let_def)
qed

lemma truncateErrorMsg_id:
  "utf8_ValidString msg \<Longrightarrow> length msg \<le> maxErrorMessageLength \<Longrightarrow> truncateErrorMsg msg = msg"
  by (simp add: truncateErrorMsg_def)

lemma truncateErrorMsg_idem [simp]: "truncateErrorMsg (truncateErrorMsg msg) = truncateErrorMsg msg"
  by (intro truncateErrorMsg_id truncateErrorMsg_valid truncateErrorMsg_length)

lemma truncateErrorMsg_long:
  assumes "utf8_ValidString msg" and "maxErrorMessageLength < length msg"
  shows "\<exists>j. maxErrorMessageLength \<le> j + 3 \<and> j \<le> maxErrorMessageLength \<and>
             truncateErrorMsg msg = take j msg"
proof -
  let ?t = "take maxErrorMessageLength msg"
  have eq: "truncateErrorMsg msg = trim_invalid ?t"
    using assms by (simp add: truncateErrorMsg_def)
  obtain i where i: "i \<le> maxErrorMessageLength" "maxErrorMessageLength \<le> i + 3"
      "utf8_ValidString (take i msg)"
    using utf8_take [OF assms(1), of maxErrorMessageLength] assms(2) by auto
  then have "i \<le> length (trim_invalid ?t)"
    using assms(2) by (intro trim_invalid_longest) (auto simp: min_def)
  moreover obtain j where j: "j \<le> length ?t" "trim_invalid ?t = take j ?t"
    using trim_invalid_prefix [of ?t] by auto
  ultimately have "maxErrorMessageLength \<le> j + 3" using i assms(2) by simp
  moreover have "trim_invalid ?t = take j msg" using j assms(2) by (simp add: min_absorb1)
  ultimately show ?thesis using eq j(1) assms(2) by auto
qed

end
