(* ===== verification/BaseProps.thy ===== *)
theory BaseProps
  imports Sample ErrorText
begin

text \<open>
  Properties of the small components: the retry delay, the stored error text, the table-name
  cache as a state machine, and the accepted configuration.
\<close>

section \<open>Back-off\<close>

text \<open>
  C40.  The delay before a redelivery is never negative.  A positive override is honoured up to 24
  hours; otherwise, from the first attempt on, the delay lies between the base and the maximum of
  the normalized policy, whatever the random source and the rounding of floats do.
\<close>

theorem computeRetryDelay_bounds:
  "0 \<le> computeRetryDelay env p rnds attempt override \<and>
   (0 < override \<longrightarrow> computeRetryDelay env p rnds attempt override = min override (24 * time_Hour)) \<and>
   (override \<le> 0 \<and> 1 \<le> attempt \<longrightarrow>
      BaseDelay (normalized p) \<le> computeRetryDelay env p rnds attempt override \<and>
      computeRetryDelay env p rnds attempt override \<le> MaxDelay (normalized p))"
  using computeRetryDelay_nonneg computeRetryDelay_policy computeRetryDelay_override [of override env p rnds attempt]
  by (auto simp: maxRetryDelay_def)

theorem computeRetryDelay_bounds_witness:
  "BaseDelay (normalized DefaultBackoffPolicy) \<le> computeRetryDelay env0 DefaultBackoffPolicy (\<lambda>_. 0) 3 0"
  using computeRetryDelay_bounds [of env0 DefaultBackoffPolicy "\<lambda>_. 0" 3 0] by simp

section \<open>Stored error texts\<close>

text \<open>
  What is stored of an error text is valid UTF-8 of at most 1024 bytes; a valid text that fits
  is stored unchanged, a longer valid one loses at most three bytes more than needed and only at
  its end, and truncating twice changes nothing.
\<close>

theorem truncateErrorMsg_spec:
  "utf8_ValidString (truncateErrorMsg msg) \<and> length (truncateErrorMsg msg) \<le> 1024 \<and>
   truncateErrorMsg (truncateErrorMsg msg) = truncateErrorMsg msg \<and>
   (utf8_ValidString msg \<and> length msg \<le> 1024 \<longrightarrow> truncateErrorMsg msg = msg) \<and>
   (utf8_ValidString msg \<and> 1024 < length msg \<longrightarrow> (\<exists>j. 1021 \<le> j \<and> j \<le> 1024 \<and> truncateErrorMsg msg = take j msg))"
  using truncateErrorMsg_valid [of msg] truncateErrorMsg_length [of msg] truncateErrorMsg_id [of msg]
    truncateErrorMsg_long [of msg]
  by (auto simp: maxErrorMessageLength_def)

theorem truncateErrorMsg_spec_witness: "truncateErrorMsg ''boom'' = ''boom''"
proof -
  have "utf8_ValidString ''boom''" by code_simp
  then show ?thesis using truncateErrorMsg_spec [of "''boom''"] by simp
qed

section \<open>The table-name cache\<close>

inductive cache_reached :: "metadataCache \<Rightarrow> bool" where
  new: "cache_reached newMetadataCache"
| get: "cache_reached mc \<Longrightarrow> cache_reached (snd (cache_get now qt name mc))"
| set: "cache_reached mc \<Longrightarrow> cache_reached (cache_set now qt name tbl mc)"
| invalidate: "cache_reached mc \<Longrightarrow> cache_reached (cache_invalidate qt name mc)"
| sweep: "cache_reached mc \<Longrightarrow> cache_reached (cache_sweep now mc)"

lemma cache_reached_inv: "cache_reached mc \<Longrightarrow> cache_inv mc"
  by (induction rule: cache_reached.induct)
    (auto intro: cache_inv_new cache_inv_get cache_inv_set cache_inv_invalidate cache_inv_sweep)

text \<open>
  After any sequence of calls the cache holds at most 4096 entries, one per queue.  A lookup
  after a store finds the stored table for one minute and nothing later, a lookup after an
  invalidation finds nothing, and a store changes no other queue's entry except by evicting it.
\<close>

theorem cache_behaviour:
  assumes "cache_reached mc"
  shows "distinct (map fst mc) \<and> length mc \<le> 4096 \<and>
         fst (cache_get now' qt name (cache_set now qt name tbl mc)) =
           (if now' - now > time_Minute then None else Some tbl) \<and>
         fst (cache_get now' qt name (cache_invalidate qt name mc)) = None \<and>
         (\<forall>k item. k \<noteq> cache_key qt name \<longrightarrow> map_of (cache_set now qt name tbl mc) k = Some item \<longrightarrow>
            map_of mc k = Some item)"
  using cache_reached_inv [OF assms] cache_get_set [of now' qt name now tbl mc] cache_get_invalidate [of now' qt name mc]
    cache_set_other [of mc qt name]
  by (auto simp: cache_inv_def metadataCacheMaxEntries_def metadataCacheTTL_def)

theorem cache_behaviour_witness:
  "fst (cache_get 5 QueueTypeChannel ''orders'' (cache_set 3 QueueTypeChannel ''orders'' ''orders'' newMetadataCache)) =
   Some ''orders''"
  using cache_behaviour [OF cache_reached.new, of 5 QueueTypeChannel "''orders''" 3 "''orders''"]
  by simp

section \<open>Configuration\<close>

text \<open>Two options pass the filter of \<^verbatim>\<open>InitSchema\<close>, whose comment says every other option is rejected.\<close>

lemma onlySchemaOrLoggerOption_gap:
  "onlySchemaOrLoggerOption [WithMaxSubscribersPerTopic n] \<and> onlySchemaOrLoggerOption [WithMaxBatchBytes n]"
  by (simp add: onlySchemaOrLoggerOption_def raw_config_def zeroConfig_def)

text \<open>The resolved limits on subscribers and batch bytes are not validated.\<close>

lemma negative_limits_accepted: "New_config [WithMaxSubscribersPerTopic (-1)] = Inr (applyConfigOptions [WithMaxSubscribersPerTopic (-1)])"
  by code_simp

end
