(* ===== verification/Names.thy ===== *)
theory Names
  imports Config "HOL-Library.Sublist"
begin

text \<open>
  Queue names and the SQL identifiers made from them (\<^verbatim>\<open>pgqueue.go\<close>, \<^verbatim>\<open>notify.go\<close>).  Table and
  index names are interpolated into SQL text, so the safety of every statement rests on the
  character set and the length of these strings.
\<close>

definition maxQueueNameLength :: nat where
  "maxQueueNameLength = 28"

definition maxSubscriberIDLength :: nat where
  "maxSubscriberIDLength = 128"

definition queueNameChar :: "char \<Rightarrow> bool" where
  "queueNameChar c \<longleftrightarrow> is_lower c \<or> is_upper c \<or> is_digit c \<or> c = CHR ''_'' \<or> c = CHR ''-''"

definition queueNameRegex :: "string \<Rightarrow> bool" where
  "queueNameRegex s \<longleftrightarrow> s \<noteq> [] \<and> list_all queueNameChar s"

definition validateQueueName :: "string \<Rightarrow> err + unit" where
  "validateQueueName name =
     (if length name = 0 \<or> length name > maxQueueNameLength then Inl ErrInvalidQueueName
      else if \<not> queueNameRegex name then Inl ErrInvalidQueueName
      else Inr ())"

definition validateSubscriberID :: "string \<Rightarrow> err + unit" where
  "validateSubscriberID i =
     (if length i = 0 \<or> length i > maxSubscriberIDLength \<or> \<not> queueNameRegex i
      then Inl ErrInvalidSubscriberID else Inr ())"

text \<open>\<^verbatim>\<open>strings.ToLower\<close> on ASCII, which is all a validated name contains.\<close>

definition to_lower :: "char \<Rightarrow> char" where
  "to_lower c = (if is_upper c then char_of (of_char c + (32 :: nat)) else c)"

definition sanitizeTableName :: "string \<Rightarrow> string" where
  "sanitizeTableName name = map to_lower (map (\<lambda>c. if c = CHR ''-'' then CHR ''_'' else c) name)"

definition schemaTablePrefix :: "string \<Rightarrow> string" where
  "schemaTablePrefix schema =
     (if schema = '''' \<or> schema = defaultSchemaName then '''' else schema @ ''.'')"

definition msgTable :: "string \<Rightarrow> string \<Rightarrow> string" where
  "msgTable schema tbl = schemaTablePrefix schema @ ''pgqueue_msg_'' @ tbl"

definition dlqTable :: "string \<Rightarrow> string \<Rightarrow> string" where
  "dlqTable schema tbl = schemaTablePrefix schema @ ''pgqueue_dlq_'' @ tbl"

definition subTable :: "string \<Rightarrow> string \<Rightarrow> string" where
  "subTable schema tbl = schemaTablePrefix schema @ ''pgqueue_sub_'' @ tbl"

definition globalTable :: "string \<Rightarrow> string \<Rightarrow> string" where
  "globalTable schema name = schemaTablePrefix schema @ name"

definition notifyChannelName :: "string \<Rightarrow> string" where
  "notifyChannelName tbl = ''pgqueue_'' @ tbl"

text \<open>
  The indexes that \<^verbatim>\<open>createPubSubMessageTable\<close>, \<^verbatim>\<open>createPubSubIndexes\<close>, \<^verbatim>\<open>createDLQTable\<close>,
  \<^verbatim>\<open>createPubSubDLQSubscriberIndex\<close> and \<^verbatim>\<open>createChannelIndexes\<close> create for a table name.
\<close>

definition dlqIndexes :: "string \<Rightarrow> string list" where
  "dlqIndexes tbl = map (\<lambda>suf. ''idx_pgqueue_dlq_'' @ tbl @ suf) [''_moved_at'', ''_orig_msg'']"

definition channelIndexes :: "string \<Rightarrow> string list" where
  "channelIndexes tbl =
     map (\<lambda>suf. ''idx_pgqueue_msg_'' @ tbl @ suf)
       [''_status_created'', ''_consumable_null'', ''_consumable_timeout'', ''_completed''] @
     dlqIndexes tbl"

definition pubSubIndexes :: "string \<Rightarrow> string list" where
  "pubSubIndexes tbl =
     [''idx_pgqueue_msg_'' @ tbl @ ''_created_at''] @
     map (\<lambda>suf. ''idx_pgqueue_sub_'' @ tbl @ suf)
       [''_msg_id'', ''_subscriber'', ''_status'', ''_consumable_null'', ''_consumable_timeout''] @
     dlqIndexes tbl @
     [''idx_pgqueue_dlq_'' @ tbl @ ''_subscriber_id'']"

section \<open>Character set\<close>

definition tableNameChar :: "char \<Rightarrow> bool" where
  "tableNameChar c \<longleftrightarrow> is_lower c \<or> is_digit c \<or> c = CHR ''_''"

lemma queueName_valid:
  "validateQueueName name = Inr () \<longleftrightarrow>
   1 \<le> length name \<and> length name \<le> maxQueueNameLength \<and> list_all queueNameChar name"
  by (auto simp: validateQueueName_def queueNameRegex_def Suc_le_eq)

lemma subscriberID_valid:
  "validateSubscriberID i = Inr () \<longleftrightarrow>
   1 \<le> length i \<and> length i \<le> maxSubscriberIDLength \<and> list_all queueNameChar i"
  by (auto simp: validateSubscriberID_def queueNameRegex_def Suc_le_eq)

lemma to_lower_lower: "is_upper c \<Longrightarrow> is_lower (to_lower c)"
  by (auto simp: to_lower_def is_upper_def is_lower_def of_char_of)

lemma to_lower_id: "\<not> is_upper c \<Longrightarrow> to_lower c = c"
  by (simp add: to_lower_def)

lemma lower_not_upper: "is_lower c \<Longrightarrow> \<not> is_upper c"
  by (simp add: is_lower_def is_upper_def)

lemma underscore_class [simp]:
  "is_lower (CHR ''_'') = False" "is_upper (CHR ''_'') = False" "is_digit (CHR ''_'') = False"
  "is_lower (CHR ''-'') = False" "is_upper (CHR ''-'') = False" "is_digit (CHR ''-'') = False"
  by (simp_all add: is_lower_def is_upper_def is_digit_def)

lemma digit_not_upper: "is_digit c \<Longrightarrow> \<not> is_upper c"
  by (simp add: is_digit_def is_upper_def)

lemma sanitize_char:
  "queueNameChar c \<Longrightarrow> tableNameChar (to_lower (if c = CHR ''-'' then CHR ''_'' else c))"
  by (cases "is_upper c")
    (auto simp: queueNameChar_def tableNameChar_def to_lower_id to_lower_lower)

lemma sanitize_chars: "list_all queueNameChar name \<Longrightarrow> list_all tableNameChar (sanitizeTableName name)"
  by (simp add: sanitizeTableName_def list_all_iff sanitize_char)

lemma length_sanitize [simp]: "length (sanitizeTableName name) = length name"
  by (simp add: sanitizeTableName_def)

lemma sanitize_id: "list_all tableNameChar tbl \<Longrightarrow> sanitizeTableName tbl = tbl"
  unfolding sanitizeTableName_def map_map
  by (rule map_idI) (auto simp: list_all_iff tableNameChar_def to_lower_id lower_not_upper digit_not_upper)

section \<open>Distinct queues have distinct relations\<close>

lemma append_suffix_eq:
  assumes "a @ s = b @ t" and "\<not> strict_suffix s t" and "\<not> strict_suffix t s"
  shows "a = b \<and> s = t"
proof (cases "length s \<le> length t")
  case True
  with assms(1) have "suffix s t" by (metis suffixI suffix_length_suffix)
  with assms(2) have "s = t" by (simp add: strict_suffix_def)
  with assms(1) show ?thesis by simp
next
  case False
  with assms(1) have "suffix t s" by (metis nat_le_linear suffixI suffix_length_suffix)
  with assms(3) have "s = t" by (simp add: strict_suffix_def)
  with assms(1) show ?thesis by simp
qed

definition index_suffixes :: "string list" where
  "index_suffixes =
     [''_status_created'', ''_consumable_null'', ''_consumable_timeout'', ''_completed'', ''_created_at'',
      ''_msg_id'', ''_subscriber'', ''_status'', ''_moved_at'', ''_orig_msg'', ''_subscriber_id'']"

lemma index_suffixes_free:
  "list_all (\<lambda>s. list_all (\<lambda>t. \<not> strict_suffix s t) index_suffixes) index_suffixes"
  by code_simp

lemma index_name_inj:
  assumes "s \<in> set index_suffixes" and "t \<in> set index_suffixes" and "a @ s = b @ t"
  shows "a = b"
  using append_suffix_eq [OF assms(3)] index_suffixes_free assms(1,2) by (auto simp: list_all_iff)

lemma index_form:
  assumes "i \<in> set (channelIndexes tbl) \<union> set (pubSubIndexes tbl)"
  shows "\<exists>p \<in> {''idx_pgqueue_msg_'', ''idx_pgqueue_sub_'', ''idx_pgqueue_dlq_''}.
         \<exists>s \<in> set index_suffixes. i = p @ tbl @ s"
  using assms by (auto simp: channelIndexes_def pubSubIndexes_def dlqIndexes_def index_suffixes_def)

lemma index_length:
  assumes "i \<in> set (channelIndexes tbl) \<union> set (pubSubIndexes tbl)"
  shows "length i \<le> length tbl + 35"
  using assms by (auto simp: channelIndexes_def pubSubIndexes_def dlqIndexes_def)

lemma index_distinct:
  assumes "i \<in> set (channelIndexes a) \<union> set (pubSubIndexes a)"
    and "i \<in> set (channelIndexes b) \<union> set (pubSubIndexes b)"
  shows "a = b"
proof -
  obtain p s where p: "p \<in> {''idx_pgqueue_msg_'', ''idx_pgqueue_sub_'', ''idx_pgqueue_dlq_''}"
      "s \<in> set index_suffixes" "i = p @ a @ s"
    using index_form [OF assms(1)] by blast
  obtain q t where q: "q \<in> {''idx_pgqueue_msg_'', ''idx_pgqueue_sub_'', ''idx_pgqueue_dlq_''}"
      "t \<in> set index_suffixes" "i = q @ b @ t"
    using index_form [OF assms(2)] by blast
  have "length p = length q" using p(1) q(1) by auto
  with p(3) q(3) have "a @ s = b @ t" by simp
  then show ?thesis using index_name_inj p(2) q(2) by blast
qed

lemma table_names_inj:
  "msgTable sc a = msgTable sc b \<longleftrightarrow> a = b" "dlqTable sc a = dlqTable sc b \<longleftrightarrow> a = b"
  "subTable sc a = subTable sc b \<longleftrightarrow> a = b" "notifyChannelName a = notifyChannelName b \<longleftrightarrow> a = b"
  by (simp_all add: msgTable_def dlqTable_def subTable_def notifyChannelName_def)

lemma table_names_disjoint:
  "msgTable sc a \<noteq> dlqTable sc b" "msgTable sc a \<noteq> subTable sc b" "dlqTable sc a \<noteq> subTable sc b"
  by (simp_all add: msgTable_def dlqTable_def subTable_def)

text \<open>
  A queue name that passes validation yields a table name of lower-case letters, digits
  and underscores only, at most 28 bytes long and stable under sanitizing, so nothing the caller
  chooses can leave the identifier it is interpolated into; and every index name made from it
  fits PostgreSQL's limit of 63 bytes.
\<close>

theorem sanitized_names_safe:
  assumes "validateQueueName name = Inr ()"
  shows "list_all tableNameChar (sanitizeTableName name) \<and>
         1 \<le> length (sanitizeTableName name) \<and> length (sanitizeTableName name) \<le> 28 \<and>
         sanitizeTableName (sanitizeTableName name) = sanitizeTableName name \<and>
         (\<forall>i \<in> set (channelIndexes (sanitizeTableName name)) \<union> set (pubSubIndexes (sanitizeTableName name)).
            length i \<le> 63)"
proof -
  have v: "1 \<le> length name" "length name \<le> 28" "list_all queueNameChar name"
    using assms by (simp_all add: queueName_valid maxQueueNameLength_def)
  have "\<forall>i \<in> set (channelIndexes (sanitizeTableName name)) \<union> set (pubSubIndexes (sanitizeTableName name)).
          length i \<le> 63"
    using index_length [of _ "sanitizeTableName name"] v(2) by fastforce
  with v show ?thesis using sanitize_chars sanitize_id by simp
qed

theorem sanitized_names_safe_witness:
  "validateQueueName ''My-Queue_1'' = Inr () \<and> sanitizeTableName ''My-Queue_1'' = ''my_queue_1'' \<and>
   list_all tableNameChar (sanitizeTableName ''My-Queue_1'')"
proof -
  have v: "validateQueueName ''My-Queue_1'' = Inr ()" "sanitizeTableName ''My-Queue_1'' = ''my_queue_1''"
    by code_simp+
  show ?thesis using sanitized_names_safe [OF v(1)] v by simp
qed

text \<open>
  Two different table names never share a message, dead-letter or subscription table, a
  notification channel, or any index: \<^verbatim>\<open>CREATE INDEX IF NOT EXISTS\<close> cannot mistake another queue's
  index for its own.
\<close>

theorem relations_disjoint:
  assumes "a \<noteq> b"
  shows "msgTable sc a \<noteq> msgTable sc b \<and> dlqTable sc a \<noteq> dlqTable sc b \<and> subTable sc a \<noteq> subTable sc b \<and>
         notifyChannelName a \<noteq> notifyChannelName b \<and>
         (set (channelIndexes a) \<union> set (pubSubIndexes a)) \<inter> (set (channelIndexes b) \<union> set (pubSubIndexes b)) = {}"
  using assms index_distinct [of _ a b] by (auto simp: table_names_inj)

theorem relations_disjoint_witness:
  "set (pubSubIndexes ''a_status'') \<inter> set (channelIndexes ''a'') = {}"
  using relations_disjoint [of "''a_status''" "''a''" "''public''"] by auto

end
