(* ===== verification/Uuid7.thy ===== *)
theory Uuid7
  imports Errors
begin

unbundle bit_operations_syntax

text \<open>
  The UUIDv7 generator of \<^verbatim>\<open>uuid.go\<close>.  A UUID is its 16 bytes; the generator state is the pinned
  millisecond (\<^verbatim>\<open>uint64\<close>) and the counter (\<^verbatim>\<open>uint16\<close>).  A call receives the ten random bytes of
  \<^verbatim>\<open>rand.Read\<close>, or nothing when it fails, and the two readings the clock would return.
\<close>

record uuidV7State =
  lastMS :: "64 word"
  counter :: "16 word"

definition uuidV7CounterMask :: "16 word" where
  "uuidV7CounterMask = 0x0fff"

definition uuidV7CounterSeedMask :: "16 word" where
  "uuidV7CounterSeedMask = 0x07ff"

definition counter_seed :: "8 word list \<Rightarrow> 16 word" where
  "counter_seed rnd = (push_bit 8 (ucast (rnd ! 0)) OR ucast (rnd ! 1)) AND uuidV7CounterSeedMask"

text \<open>The state update under the mutex.\<close>

definition advance :: "64 word \<Rightarrow> 64 word \<Rightarrow> 16 word \<Rightarrow> uuidV7State \<Rightarrow> uuidV7State" where
  "advance now1 now2 seed st =
     (if now1 > lastMS st then \<lparr>lastMS = now1, counter = seed\<rparr>
      else
        let c = counter st + 1 in
        if c > uuidV7CounterMask then
          \<lparr>lastMS = (if now2 > lastMS st then now2 else lastMS st + 1), counter = 0\<rparr>
        else \<lparr>lastMS = lastMS st, counter = c\<rparr>)"

definition put_bytes :: "uuidV7State \<Rightarrow> 8 word list \<Rightarrow> 8 word list" where
  "put_bytes st rnd =
     (let ms = lastMS st;
          hi = (ucast (drop_bit 32 ms) :: 16 word);
          lo = (ucast ms :: 32 word)
      in [ucast (drop_bit 8 hi), ucast hi,
          ucast (drop_bit 24 lo), ucast (drop_bit 16 lo), ucast (drop_bit 8 lo), ucast lo,
          (ucast (drop_bit 8 (counter st)) AND 0x0f) OR 0x70,
          ucast (counter st),
          (rnd ! 2 AND 0x3f) OR 0x80] @ drop 3 rnd)"

definition newUUIDv7At ::
    "8 word list option \<Rightarrow> 64 word \<Rightarrow> 64 word \<Rightarrow> uuidV7State \<Rightarrow> (err + 8 word list) \<times> uuidV7State" where
  "newUUIDv7At rnd now1 now2 st =
     (case rnd of
        None \<Rightarrow> (Inl errRandom, st)
      | Some rnd \<Rightarrow>
          let st' = advance now1 now2 (counter_seed rnd) st in (Inr (put_bytes st' rnd), st'))"

definition ExtractTimestamp :: "8 word list \<Rightarrow> 64 word" where
  "ExtractTimestamp u =
     push_bit 32 (ucast (push_bit 8 (ucast (u ! 0)) OR ucast (u ! 1) :: 16 word)) OR
     ucast (push_bit 24 (ucast (u ! 2)) OR push_bit 16 (ucast (u ! 3)) OR
            push_bit 8 (ucast (u ! 4)) OR ucast (u ! 5) :: 32 word)"

text \<open>The order of UUIDs: \<^verbatim>\<open>bytes.Compare\<close> and the database compare byte by byte.\<close>

fun bytes_value :: "8 word list \<Rightarrow> nat" where
  "bytes_value [] = 0"
| "bytes_value (b # bs) = unat b * 256 ^ length bs + bytes_value bs"

definition uuid_less :: "8 word list \<Rightarrow> 8 word list \<Rightarrow> bool" where
  "uuid_less u v \<longleftrightarrow> (u, v) \<in> lexord {(a, b). a < b}"

section \<open>Bits\<close>

lemma unat_ucast_8 [simp]: "unat (ucast (x :: 'a::len word) :: 8 word) = unat x mod 256"
  by (simp add: unsigned_ucast_eq take_bit_eq_mod)

lemma unat_drop_bit [simp]: "unat (drop_bit k (x :: 'a::len word)) = unat x div 2 ^ k"
proof -
  have "take_bit LENGTH('a) (unat x) = unat x" by (rule take_bit_nat_eq_self) (rule unsigned_less)
  then show ?thesis unfolding unsigned_drop_bit_eq by (simp only: drop_bit_eq_div)
qed

lemma push_or_nat:
  fixes a b :: nat
  assumes "b < 2 ^ k"
  shows "push_bit k a OR b = a * 2 ^ k + b"
proof -
  have b: "b = take_bit k b" using assms by (simp add: take_bit_nat_eq_self)
  have "push_bit k a + b = push_bit k a OR b"
  proof (rule disjunctive_add)
    fix n
    show "\<not> bit (push_bit k a) n \<or> \<not> bit b n"
      by (subst b) (auto simp: bit_push_bit_iff bit_take_bit_iff)
  qed
  then show ?thesis by (simp add: push_bit_eq_mult)
qed

lemma unat_version: "unat ((x AND 0x0f) OR 0x70 :: 8 word) = unat x mod 16 + 112"
proof -
  have "unat (x AND 0x0f) = unat x mod 16"
    using take_bit_eq_mask [of 4 "unat x"] by (simp add: unsigned_and_eq mask_eq_exp_minus_1 take_bit_eq_mod)
  then show ?thesis
    using push_or_nat [of "unat x mod 16" 4 7] by (simp add: unsigned_or_eq push_bit_eq_mult or.commute)
qed

lemma unat_variant: "unat ((x AND 0x3f) OR 0x80 :: 8 word) = unat x mod 64 + 128"
proof -
  have "unat (x AND 0x3f) = unat x mod 64"
    using take_bit_eq_mask [of 6 "unat x"] by (simp add: unsigned_and_eq mask_eq_exp_minus_1 take_bit_eq_mod)
  then show ?thesis
    using push_or_nat [of "unat x mod 64" 7 1] by (simp add: unsigned_or_eq push_bit_eq_mult or.commute)
qed

lemma counter_seed_le: "counter_seed rnd \<le> uuidV7CounterMask"
proof -
  have "unat (x AND 0x07ff) < 2048" for x :: "16 word"
    using take_bit_eq_mask [of 11 "unat x"] by (simp add: unsigned_and_eq mask_eq_exp_minus_1 take_bit_eq_mod)
  then have "unat (counter_seed rnd) < 2048"
    by (simp only: counter_seed_def uuidV7CounterSeedMask_def)
  then show ?thesis by (simp add: word_le_nat_alt uuidV7CounterMask_def)
qed

lemma bytes_value_less: "bytes_value bs < 256 ^ length bs"
proof (induction bs)
  case (Cons b bs)
  have "unat b < 256" using unsigned_less [of b] by simp
  then have "Suc (unat b) * 256 ^ length bs \<le> 256 * 256 ^ length bs" by (intro mult_right_mono) auto
  moreover have "bytes_value (b # bs) < Suc (unat b) * 256 ^ length bs" using Cons by simp
  ultimately show ?case unfolding length_Cons power_Suc by (rule less_le_trans [rotated])
qed simp

text \<open>Comparing byte by byte is comparing the 128-bit values.\<close>

lemma uuid_less_value:
  "length u = length v \<Longrightarrow> uuid_less u v \<longleftrightarrow> bytes_value u < bytes_value v"
proof (induction u v rule: list_induct2)
  case (Cons a u b v)
  have lt: "unat c * 256 ^ length u + x < unat d * 256 ^ length u"
    if "unat c < unat d" "x < 256 ^ length u" for c d :: "8 word" and x
  proof -
    have "unat c * 256 ^ length u + x < Suc (unat c) * 256 ^ length u" using that by simp
    also have "\<dots> \<le> unat d * 256 ^ length u" using that by (intro mult_right_mono) auto
    finally show ?thesis .
  qed
  consider "unat a < unat b" | "unat b < unat a" | "a = b"
    using less_linear [of "unat a" "unat b"] by (auto dest: unsigned_word_eqI)
  then show ?case
  proof cases
    case 1
    then show ?thesis using lt [OF 1 bytes_value_less [of u]] Cons(1)
      by (simp add: uuid_less_def word_less_nat_alt)
  next
    case 2
    then show ?thesis using lt [OF 2, of "bytes_value v"] bytes_value_less [of v] Cons(1)
      by (auto simp: uuid_less_def word_less_nat_alt)
  next
    case 3
    then show ?thesis using Cons by (simp add: uuid_less_def)
  qed
qed (simp add: uuid_less_def)

section \<open>The value of a generated UUID\<close>

lemma split_bytes16: "v < 65536 \<Longrightarrow> v div 256 mod 256 * 256 + v mod 256 = (v :: nat)"
  by (simp add: div_mod_decomp mod_less div_less less_mult_imp_div_less)

lemma split_bytes32:
  fixes v :: nat
  assumes "v < 4294967296"
  shows "v div 16777216 mod 256 * 16777216 + v div 65536 mod 256 * 65536 + v div 256 mod 256 * 256 + v mod 256 = v"
proof -
  have d: "v div 65536 = v div 256 div 256" "v div 16777216 = v div 65536 div 256"
    by (simp_all flip: div_mult2_eq)
  have "v = v div 256 * 256 + v mod 256"
    "v div 256 = v div 256 div 256 * 256 + v div 256 mod 256"
    "v div 65536 = v div 65536 div 256 * 256 + v div 65536 mod 256"
    by (simp_all only: div_mult_mod_eq)
  note this [folded d]
  moreover have "v div 16777216 mod 256 = v div 16777216" using assms by (simp add: mod_less div_less less_mult_imp_div_less)
  ultimately show ?thesis by linarith
qed

definition uuid_value :: "uuidV7State \<Rightarrow> 8 word list \<Rightarrow> nat" where
  "uuid_value st rnd =
     unat (lastMS st) * 2 ^ 80 + (unat (counter st) + 7 * 2 ^ 12) * 2 ^ 64 +
     (unat (rnd ! 2) mod 64 + 128) * 2 ^ 56 + bytes_value (drop 3 rnd)"

lemma put_bytes_value:
  assumes "unat (lastMS st) < 2 ^ 48" and "counter st \<le> uuidV7CounterMask" and "length rnd = 10"
  shows "bytes_value (put_bytes st rnd) = uuid_value st rnd"
proof -
  let ?ms = "unat (lastMS st)" and ?c = "unat (counter st)"
  have c: "?c < 4096" using assms(2) by (simp add: word_le_nat_alt uuidV7CounterMask_def)
  have hi: "unat (ucast (drop_bit 32 (lastMS st)) :: 16 word) = ?ms div 2 ^ 32"
    using assms(1) by (simp add: unsigned_ucast_eq take_bit_eq_mod mod_less div_less less_mult_imp_div_less)
  have lo: "unat (ucast (lastMS st) :: 32 word) = ?ms mod 2 ^ 32"
    by (simp add: unsigned_ucast_eq take_bit_eq_mod)
  have hi16: "?ms div 2 ^ 32 < 65536" using assms(1) by (simp add: less_mult_imp_div_less)
  have c6: "?c div 256 mod 256 mod 16 = ?c div 256"
    using c by (simp add: mod_less div_less less_mult_imp_div_less)
  have c67: "?c div 256 * (256 * k) + ?c mod 256 * k = ?c * k" for k :: nat
    by (metis distrib_right div_mult_mod_eq mult.assoc)
  have "bytes_value (put_bytes st rnd) =
      ((?ms div 2 ^ 32) div 256 mod 256 * 256 + (?ms div 2 ^ 32) mod 256) * 2 ^ 112 +
      ((?ms mod 2 ^ 32) div 16777216 mod 256 * 16777216 + (?ms mod 2 ^ 32) div 65536 mod 256 * 65536 +
       (?ms mod 2 ^ 32) div 256 mod 256 * 256 + (?ms mod 2 ^ 32) mod 256) * 2 ^ 80 +
      ((?c div 256 + 112) * 256 + ?c mod 256) * 2 ^ 64 +
      (unat (rnd ! 2) mod 64 + 128) * 2 ^ 56 + bytes_value (drop 3 rnd)"
    using assms(3) c67 [of "2 ^ 64"]
    by (simp add: put_bytes_def Let_def hi lo unat_version c6 unat_variant)
  also have "\<dots> = uuid_value st rnd"
  proof -
    have "?ms mod 2 ^ 32 * k + ?ms div 2 ^ 32 * (2 ^ 32 * k) = ?ms * k" for k :: nat
      by (metis add.commute distrib_right div_mult_mod_eq mult.assoc)
    from this [of "2 ^ 80"] show ?thesis
      unfolding split_bytes16 [OF hi16] uuid_value_def
      by (subst split_bytes32) (simp_all add: algebra_simps)
  qed
  finally show ?thesis .
qed

lemma uuid_value_bounds:
  assumes "length rnd = 10"
  shows "(unat (lastMS st) * 2 ^ 16 + unat (counter st)) * 2 ^ 64 \<le> uuid_value st rnd - 7 * 2 ^ 76 - 2 ^ 63"
    and "7 * 2 ^ 76 + 2 ^ 63 \<le> uuid_value st rnd"
    and "uuid_value st rnd < 7 * 2 ^ 76 + (unat (lastMS st) * 2 ^ 16 + unat (counter st) + 1) * 2 ^ 64"
proof -
  have "bytes_value (drop 3 rnd) < 2 ^ 56" using bytes_value_less [of "drop 3 rnd"] assms by simp
  moreover have "unat (rnd ! 2) mod 64 \<le> 63" using mod_less_divisor [of 64 "unat (rnd ! 2)"] by linarith
  ultimately show "(unat (lastMS st) * 2 ^ 16 + unat (counter st)) * 2 ^ 64 \<le> uuid_value st rnd - 7 * 2 ^ 76 - 2 ^ 63"
    and "7 * 2 ^ 76 + 2 ^ 63 \<le> uuid_value st rnd"
    and "uuid_value st rnd < 7 * 2 ^ 76 + (unat (lastMS st) * 2 ^ 16 + unat (counter st) + 1) * 2 ^ 64"
    by (simp_all add: uuid_value_def)
qed

section \<open>The generator\<close>

definition position :: "uuidV7State \<Rightarrow> nat" where
  "position st = unat (lastMS st) * 2 ^ 16 + unat (counter st)"

lemma advance_counter:
  "seed \<le> uuidV7CounterMask \<Longrightarrow> counter (advance now1 now2 seed st) \<le> uuidV7CounterMask"
  by (auto simp: advance_def Let_def)

lemma advance_position:
  assumes "counter st \<le> uuidV7CounterMask" and "unat (lastMS st) < 2 ^ 48"
  shows "position st < position (advance now1 now2 seed st)"
proof -
  have c: "unat (counter st) < 4096" using assms(1) by (simp add: word_le_nat_alt uuidV7CounterMask_def)
  then have inc: "unat (counter st + 1) = unat (counter st) + 1"
    by (subst unat_add_lem [THEN iffD1]) simp_all
  have ms: "unat (lastMS st + 1) = unat (lastMS st) + 1"
    using assms(2) by (subst unat_add_lem [THEN iffD1]) simp_all
  have later: "unat (lastMS st) * 65536 + unat (counter st) < m * 65536 + k" if "unat (lastMS st) < m" for m k
    using that c by linarith
  show ?thesis
    using c inc ms later
    by (auto simp: position_def advance_def Let_def word_less_nat_alt uuidV7CounterMask_def not_less)
qed

text \<open>A sequence of calls in one process; a call whose random read fails yields no UUID.\<close>

type_synonym uuid_call = "8 word list option \<times> 64 word \<times> 64 word"

fun generate :: "uuid_call list \<Rightarrow> uuidV7State \<Rightarrow> 8 word list list" where
  "generate [] st = []"
| "generate ((rnd, now1, now2) # calls) st =
     (case newUUIDv7At rnd now1 now2 st of
        (Inl _, st') \<Rightarrow> generate calls st'
      | (Inr u, st') \<Rightarrow> u # generate calls st')"

text \<open>Ten random bytes a call, and clocks that stay clear of the 48-bit field's end.\<close>

definition calls_ok :: "uuid_call list \<Rightarrow> uuidV7State \<Rightarrow> bool" where
  "calls_ok calls st \<longleftrightarrow>
     counter st \<le> uuidV7CounterMask \<and> unat (lastMS st) + length calls < 2 ^ 48 \<and>
     list_all (\<lambda>(rnd, now1, now2).
       (case rnd of None \<Rightarrow> True | Some r \<Rightarrow> length r = 10) \<and>
       unat now1 + length calls < 2 ^ 48 \<and> unat now2 + length calls < 2 ^ 48) calls"

lemma advance_lastMS:
  assumes "unat (lastMS st) + k < 2 ^ 48" and "unat now1 + k < 2 ^ 48" and "unat now2 + k < 2 ^ 48" and "0 < k"
  shows "unat (lastMS (advance now1 now2 seed st)) + (k - 1) < 2 ^ 48"
proof -
  have "unat (lastMS st + 1) = unat (lastMS st) + 1"
    using assms(1) by (subst unat_add_lem [THEN iffD1]) simp_all
  with assms show ?thesis by (auto simp: advance_def Let_def)
qed

lemma calls_ok_advance:
  assumes "calls_ok ((Some r, now1, now2) # calls) st"
  shows "calls_ok calls (advance now1 now2 (counter_seed r) st)"
  using assms advance_lastMS [of st "Suc (length calls)" now1 now2 "counter_seed r"]
    advance_counter [OF counter_seed_le, of now1 now2 r st]
  by (auto simp: calls_ok_def list_all_iff)

lemma calls_ok_skip: "calls_ok ((None, now1, now2) # calls) st \<Longrightarrow> calls_ok calls st"
  by (auto simp: calls_ok_def list_all_iff)

lemma length_put_bytes: "length rnd = 10 \<Longrightarrow> length (put_bytes st rnd) = 16"
  by (simp add: put_bytes_def Let_def)

lemma put_bytes_bounds:
  assumes "calls_ok ((Some r, now1, now2) # calls) st"
  defines "st' \<equiv> advance now1 now2 (counter_seed r) st"
  shows "7 * 2 ^ 76 + position st' * 2 ^ 64 \<le> bytes_value (put_bytes st' r)"
    and "bytes_value (put_bytes st' r) < 7 * 2 ^ 76 + (position st' + 1) * 2 ^ 64"
proof -
  have "calls_ok calls st'" using assms calls_ok_advance by blast
  then have v: "bytes_value (put_bytes st' r) = uuid_value st' r"
    using assms by (intro put_bytes_value) (auto simp: calls_ok_def)
  have "length r = 10" using assms by (simp add: calls_ok_def)
  from uuid_value_bounds [OF this, of st'] v
  show "7 * 2 ^ 76 + position st' * 2 ^ 64 \<le> bytes_value (put_bytes st' r)"
    and "bytes_value (put_bytes st' r) < 7 * 2 ^ 76 + (position st' + 1) * 2 ^ 64"
    by (simp_all add: position_def)
qed

text \<open>Every UUID generated from a state is above all that were generated before.\<close>

lemma generate_above:
  assumes "calls_ok calls st" and "u \<in> set (generate calls st)"
  shows "length u = 16 \<and> 7 * 2 ^ 76 + (position st + 1) * 2 ^ 64 \<le> bytes_value u"
  using assms
proof (induction calls st rule: generate.induct)
  case (2 rnd now1 now2 calls st)
  show ?case
  proof (cases rnd)
    case None
    then show ?thesis using 2 calls_ok_skip by (auto simp: newUUIDv7At_def)
  next
    case (Some r)
    let ?st = "advance now1 now2 (counter_seed r) st"
    have pos: "position st + 1 \<le> position ?st"
      using 2(3) advance_position [of st now1 now2 "counter_seed r"] by (simp add: calls_ok_def)
    then have le: "(position st + 1) * 2 ^ 64 \<le> position ?st * 2 ^ 64" by (intro mult_right_mono) auto
    have "length r = 10" using 2(3) Some by (simp add: calls_ok_def)
    then have "length (put_bytes ?st r) = 16" by (rule length_put_bytes)
    moreover have "7 * 2 ^ 76 + position ?st * 2 ^ 64 \<le> bytes_value (put_bytes ?st r)"
      using put_bytes_bounds(1) 2(3) Some by blast
    moreover have "length u = 16 \<and> 7 * 2 ^ 76 + (position ?st + 1) * 2 ^ 64 \<le> bytes_value u"
      if "u \<in> set (generate calls ?st)"
      using 2 Some that calls_ok_advance by (auto simp: newUUIDv7At_def Let_def)
    ultimately show ?thesis using 2(4) Some le by (auto simp: newUUIDv7At_def Let_def)
  qed
qed simp

text \<open>
  C11.  UUIDs generated by one process are strictly increasing in byte order, within a
  millisecond, across clock steps backwards, and across counter overflow.
\<close>

theorem uuidv7_monotone:
  assumes "calls_ok calls st"
  shows "sorted_wrt uuid_less (generate calls st)"
  using assms
proof (induction calls st rule: generate.induct)
  case (2 rnd now1 now2 calls st)
  show ?case
  proof (cases rnd)
    case None
    then show ?thesis using 2 calls_ok_skip by (auto simp: newUUIDv7At_def)
  next
    case (Some r)
    let ?st = "advance now1 now2 (counter_seed r) st"
    have ok: "calls_ok calls ?st" using 2(3) Some calls_ok_advance by blast
    have "length r = 10" using 2(3) Some by (simp add: calls_ok_def)
    then have len: "length (put_bytes ?st r) = 16" by (rule length_put_bytes)
    have "uuid_less (put_bytes ?st r) v" if "v \<in> set (generate calls ?st)" for v
      using generate_above [OF ok that] put_bytes_bounds(2) [of r now1 now2 calls st] 2(3) Some len
      by (simp add: uuid_less_value)
    then show ?thesis using 2 Some ok by (simp add: newUUIDv7At_def Let_def)
  qed
qed simp

definition calls0 :: "uuid_call list" where
  "calls0 =
     [(Some (replicate 10 0xff), 1000, 1000), (Some (replicate 10 0), 1000, 1000),
      (Some (replicate 10 9), 990, 990), (Some (replicate 10 0), 1001, 1001)]"

theorem uuidv7_monotone_witness:
  "sorted_wrt uuid_less (generate calls0 \<lparr>lastMS = 0, counter = 0\<rparr>) \<and>
   length (generate calls0 \<lparr>lastMS = 0, counter = 0\<rparr>) = 4"
proof -
  have "calls_ok calls0 \<lparr>lastMS = 0, counter = 0\<rparr>"
    "length (generate calls0 \<lparr>lastMS = 0, counter = 0\<rparr>) = 4"
    by (simp_all add: calls_ok_def calls0_def newUUIDv7At_def Let_def uuidV7CounterMask_def)
  then show ?thesis using uuidv7_monotone by blast
qed

lemma ExtractTimestamp_bits: "ExtractTimestamp (put_bytes st rnd) = take_bit 48 (lastMS st)"
proof (rule bit_word_eqI)
  fix n assume "n < LENGTH(64)"
  then consider "n < 8" | "8 \<le> n" "n < 16" | "16 \<le> n" "n < 24" | "24 \<le> n" "n < 32" | "32 \<le> n" "n < 40"
    | "40 \<le> n" "n < 48" | "48 \<le> n" "n < 64" by fastforce
  then show "bit (ExtractTimestamp (put_bytes st rnd)) n = bit (take_bit 48 (lastMS st)) n"
    by cases (auto simp: ExtractTimestamp_def put_bytes_def Let_def bit_simps)
qed

lemma version_bits: "drop_bit 4 ((x AND 0x0f) OR 0x70 :: 8 word) = 7"
proof (rule unsigned_word_eqI [where 'a = nat])
  show "unat (drop_bit 4 ((x AND 0x0f) OR 0x70 :: 8 word)) = unat (7 :: 8 word)"
    unfolding unat_drop_bit unat_version by simp
qed

lemma variant_bits: "drop_bit 6 ((x AND 0x3f) OR 0x80 :: 8 word) = 2"
proof (rule unsigned_word_eqI [where 'a = nat])
  show "unat (drop_bit 6 ((x AND 0x3f) OR 0x80 :: 8 word)) = unat (2 :: 8 word)"
    unfolding unat_drop_bit unat_variant by simp
qed

text \<open>
  A generated UUID has 16 bytes, version 7 and the RFC 4122 variant, and
  \<^verbatim>\<open>ExtractTimestamp\<close> gives back the millisecond it was stamped with, which is never behind the
  clock reading of the call.
\<close>

theorem uuidv7_layout:
  assumes "length rnd = 10" and "unat (lastMS st) < 2 ^ 48"
    and "newUUIDv7At (Some rnd) now1 now2 st = (Inr u, st')" and "unat (lastMS st') < 2 ^ 48"
  shows "length u = 16 \<and> drop_bit 4 (u ! 6) = 7 \<and> drop_bit 6 (u ! 8) = 2 \<and>
         ExtractTimestamp u = lastMS st' \<and> now1 \<le> lastMS st'"
proof -
  have u: "u = put_bytes st' rnd" and st': "st' = advance now1 now2 (counter_seed rnd) st"
    using assms(3) by (auto simp: newUUIDv7At_def Let_def)
  have "unat (take_bit 48 (lastMS st')) = unat (lastMS st')"
    using assms(4) by (simp only: unsigned_take_bit_eq take_bit_nat_eq_self)
  then have ts: "take_bit 48 (lastMS st') = lastMS st'" by (rule unsigned_word_eqI)
  have "unat (lastMS st + 1) = unat (lastMS st) + 1"
    using assms(2) by (subst unat_add_lem [THEN iffD1]) simp_all
  then have clock: "now1 \<le> lastMS st'"
    by (auto simp: st' advance_def Let_def not_less word_le_nat_alt word_less_nat_alt)
  have "u ! 6 = (ucast (drop_bit 8 (counter st')) AND 0x0f) OR 0x70" "u ! 8 = (rnd ! 2 AND 0x3f) OR 0x80"
    by (simp_all add: u put_bytes_def Let_def)
  then have "drop_bit 4 (u ! 6) = 7" "drop_bit 6 (u ! 8) = 2"
    by (simp_all only: version_bits variant_bits)
  moreover have "ExtractTimestamp u = lastMS st'" unfolding u ExtractTimestamp_bits by (rule ts)
  moreover have "length u = 16" unfolding u by (rule length_put_bytes [OF assms(1)])
  ultimately show ?thesis using clock by blast
qed

theorem uuidv7_layout_witness:
  "ExtractTimestamp (put_bytes \<lparr>lastMS = 1731700000000, counter = 0\<rparr> (replicate 10 0)) = 1731700000000"
proof -
  have "newUUIDv7At (Some (replicate 10 0)) 1731700000000 0 \<lparr>lastMS = 5, counter = 0\<rparr> =
      (Inr (put_bytes \<lparr>lastMS = 1731700000000, counter = 0\<rparr> (replicate 10 0)),
       \<lparr>lastMS = 1731700000000, counter = 0\<rparr>)"
    by (simp add: newUUIDv7At_def Let_def advance_def counter_seed_def)
  from uuidv7_layout [OF _ _ this] show ?thesis by simp
qed

end
