(* ===== verification/Scan.thy ===== *)
theory Scan
  imports Tx
begin

text \<open>
  The consume scan that channels and topics share (\<^verbatim>\<open>fetchPendingChannelMessage\<close>,
  \<^verbatim>\<open>fetchPendingTopicMessage\<close>): probe for a pending row, then for a timed-out one; account for the
  timed-out one and either claim it or, when it was dead-lettered or deferred, go round again,
  at most \<open>maxConsumeReclaimDefers\<close> times.  The locale \<open>reclaim_scan\<close> has the unfolding of such a
  loop as its law and carries the two induction principles its clients use: one for what holds
  when the scan returns, one for that it does return.
\<close>

definition maxConsumeReclaimDefers :: nat where
  "maxConsumeReclaimDefers = 64"

section \<open>Total correctness\<close>

text \<open>
  \<open>total P m Q\<close>: from every count and tables satisfying \<open>P\<close> the call returns a value, with \<open>Q\<close> of
  the value and of the count and tables it ends in.
\<close>

definition total :: "(nat \<Rightarrow> 's \<Rightarrow> bool) \<Rightarrow> ('s, 'a) txm \<Rightarrow> ('a \<Rightarrow> nat \<Rightarrow> 's \<Rightarrow> bool) \<Rightarrow> bool" where
  "total P m Q \<longleftrightarrow> (\<forall>n s. P n s \<longrightarrow> (\<exists>a n' s'. m (n, s) = (Inr a, n', s') \<and> Q a n' s'))"

lemma totalI:
  "(\<And>n s. P n s \<Longrightarrow> \<exists>a n' s'. m (n, s) = (Inr a, n', s') \<and> Q a n' s') \<Longrightarrow> total P m Q"
  by (simp add: total_def)

lemma totalD: "total P m Q \<Longrightarrow> P n s \<Longrightarrow> \<exists>a n' s'. m (n, s) = (Inr a, n', s') \<and> Q a n' s'"
  by (simp add: total_def)

lemma total_return: "(\<And>n s. P n s \<Longrightarrow> Q a n s) \<Longrightarrow> total P (returnT a) Q"
  by (simp add: total_def)

lemma total_bind: "total P m Q \<Longrightarrow> (\<And>a. total (Q a) (k a) R) \<Longrightarrow> total P (bindT m k) R"
  unfolding total_def by (fastforce simp: bindT_app)

lemma total_pre: "total P' m Q \<Longrightarrow> (\<And>n s. P n s \<Longrightarrow> P' n s) \<Longrightarrow> total P m Q"
  unfolding total_def by blast

lemma total_post: "total P m Q \<Longrightarrow> (\<And>a n s. Q a n s \<Longrightarrow> Q' a n s) \<Longrightarrow> total P m Q'"
  unfolding total_def by blast

lemma total_stmt:
  "no_faults env \<Longrightarrow> (\<And>n s. P n s \<Longrightarrow> Q (fst (f n s)) (Suc n) (snd (f n s))) \<Longrightarrow> total P (stmt env f) Q"
  by (simp add: total_def stmt_ok)

lemma total_stmtE:
  assumes "no_faults env"
    and "\<And>n s. P n s \<Longrightarrow> \<exists>a s'. f n s = Inr (a, s') \<and> Q a (Suc n) s'"
  shows "total P (stmtE env f) Q"
  using assms by (fastforce simp: total_def stmtE_ok)

lemma total_rand: "(\<And>n s a. P n s \<Longrightarrow> Q a n s) \<Longrightarrow> total P (randT env) Q"
  by (simp add: total_def)

lemma total_rand_keep: "total P (randT env) (\<lambda>_. P)"
  by (simp add: total_def)

lemma total_if:
  "(b \<Longrightarrow> total P m Q) \<Longrightarrow> (\<not> b \<Longrightarrow> total P m' Q) \<Longrightarrow> total P (if b then m else m') Q"
  by simp

lemma total_option:
  "(x = None \<Longrightarrow> total P m Q) \<Longrightarrow> (\<And>y. x = Some y \<Longrightarrow> total P (k y) Q) \<Longrightarrow>
   total P (case x of None \<Rightarrow> m | Some y \<Rightarrow> k y) Q"
  by (simp split: option.split)

section \<open>The scan\<close>

locale reclaim_scan =
  fixes fetch :: "nat \<Rightarrow> ('s, 'm option) txm"
    and probe_pending :: "('s, 'c option) txm"
    and probe_reclaim :: "('s, 'c option) txm"
    and attempt :: "'c \<Rightarrow> ('s, int \<times> bool) txm"
    and claim :: "'c \<Rightarrow> int \<Rightarrow> ('s, 'm) txm"
    and rcount :: "'c \<Rightarrow> int"
  assumes fetch_unfold:
    "fetch defers =
       bindT probe_pending (\<lambda>row.
         case row of
           Some row \<Rightarrow> bindT (claim row (rcount row)) (\<lambda>m. returnT (Some m))
         | None \<Rightarrow>
             bindT probe_reclaim (\<lambda>row.
               case row of
                 None \<Rightarrow> returnT None
               | Some row \<Rightarrow>
                   bindT (attempt row) (\<lambda>(n, deferred).
                     if deferred then
                       (if defers + 1 \<ge> maxConsumeReclaimDefers then returnT None
                        else fetch (defers + 1))
                     else bindT (claim row n) (\<lambda>m. returnT (Some m)))))"
begin

lemma scan_induct [case_names step]:
  assumes "\<And>d. (d + 1 < maxConsumeReclaimDefers \<Longrightarrow> P (d + 1)) \<Longrightarrow> P d"
  shows "P (d :: nat)"
proof (induction "maxConsumeReclaimDefers - d" arbitrary: d rule: less_induct)
  case less
  show ?case by (rule assms, rule less) simp
qed

text \<open>
  What holds when a scan returns: \<open>I d\<close> is kept by the probes and by each round that defers,
  \<open>CP\<close> and \<open>CR\<close> hold of the rows the probes return and \<open>CL\<close> of a timed-out row about to be claimed.
\<close>

lemma scan_hoare:
  assumes pending: "\<And>d. hoare (I d) probe_pending (\<lambda>row t. I d t \<and> (\<forall>c. row = Some c \<longrightarrow> CP c t))"
    and reclaim: "\<And>d. hoare (I d) probe_reclaim (\<lambda>row t. I d t \<and> (\<forall>c. row = Some c \<longrightarrow> CR c t))"
    and claim_pending: "\<And>d c. hoare (\<lambda>t. I d t \<and> CP c t) (claim c (rcount c)) (\<lambda>m. R (Some m))"
    and account: "\<And>d c. d < maxConsumeReclaimDefers \<Longrightarrow>
                    hoare (\<lambda>t. I d t \<and> CR c t) (attempt c)
                      (\<lambda>(n, deferred) t. if deferred then I (Suc d) t else I d t \<and> CL c n t)"
    and claim_reclaim: "\<And>d c n. hoare (\<lambda>t. I d t \<and> CL c n t) (claim c n) (\<lambda>m. R (Some m))"
    and stop: "\<And>d t. d \<le> maxConsumeReclaimDefers \<Longrightarrow> I d t \<Longrightarrow> R None t"
    and "d < maxConsumeReclaimDefers"
  shows "hoare (I d) (fetch d) R"
  using \<open>d < maxConsumeReclaimDefers\<close>
proof (induction d rule: scan_induct)
  case (step d)
  have round: "hoare (case p of (n, deferred) \<Rightarrow> \<lambda>t. if deferred then I (Suc d) t else I d t \<and> CL c n t)
      (case p of (n, deferred) \<Rightarrow>
         if deferred then (if d + 1 \<ge> maxConsumeReclaimDefers then returnT None else fetch (d + 1))
         else bindT (claim c n) (\<lambda>m. returnT (Some m))) R" for c p
  proof -
    obtain n deferred where p: "p = (n, deferred)" by fastforce
    have stop': "hoare (I (Suc d)) (returnT None) R"
      by (rule hoare_return) (use step.prems stop [of "Suc d"] in auto)
    have "hoare (I (Suc d)) (fetch (d + 1)) R" if "\<not> d + 1 \<ge> maxConsumeReclaimDefers"
      using that step.IH by simp
    moreover have "hoare (\<lambda>t. I d t \<and> CL c n t) (bindT (claim c n) (\<lambda>m. returnT (Some m))) R"
      by (rule hoare_bind [OF claim_reclaim]) (rule hoare_return)
    ultimately show ?thesis unfolding p prod.case using stop' by (cases deferred) simp_all
  qed
  have stop0: "hoare (I d) (returnT None) R"
    by (rule hoare_return) (use step.prems stop [of d] in auto)
  have again: "hoare (I d) (bindT probe_reclaim (\<lambda>row. case row of
        None \<Rightarrow> returnT None
      | Some row \<Rightarrow> bindT (attempt row) (\<lambda>(n, deferred).
          if deferred then (if d + 1 \<ge> maxConsumeReclaimDefers then returnT None else fetch (d + 1))
          else bindT (claim row n) (\<lambda>m. returnT (Some m))))) R"
    by (intro hoare_bind [OF reclaim] hoare_option hoare_pre [OF stop0]
        hoare_pre [OF hoare_bind [OF account [OF step.prems] round]]) auto
  have claim0: "hoare (\<lambda>t. I d t \<and> CP c t) (bindT (claim c (rcount c)) (\<lambda>m. returnT (Some m))) R" for c
    by (rule hoare_bind [OF claim_pending]) (rule hoare_return)
  show ?case
    unfolding fetch_unfold [of d]
    by (intro hoare_bind [OF pending] hoare_option hoare_pre [OF again] hoare_pre [OF claim0]) auto
qed

text \<open>
  That a scan returns: the same shape, with total correctness of every part.  \<open>I d\<close> holds at the
  head of a round, \<open>J d\<close> after its first probe and \<open>K d\<close> after its second.
\<close>

lemma scan_total:
  assumes pending: "\<And>d. total (I d) probe_pending (\<lambda>row n t. J d n t \<and> (\<forall>c. row = Some c \<longrightarrow> CP c t))"
    and reclaim: "\<And>d. total (J d) probe_reclaim (\<lambda>row n t. K d n t \<and> (\<forall>c. row = Some c \<longrightarrow> CR c t))"
    and claim_pending: "\<And>c. total (\<lambda>n. CP c) (claim c (rcount c)) (\<lambda>_ _ _. True)"
    and account: "\<And>d c. d < maxConsumeReclaimDefers \<Longrightarrow>
                    total (\<lambda>n t. K d n t \<and> CR c t) (attempt c)
                      (\<lambda>(k, deferred) n t. if deferred then I (Suc d) n t else CL c k t)"
    and claim_reclaim: "\<And>c k. total (\<lambda>n. CL c k) (claim c k) (\<lambda>_ _ _. True)"
    and "d < maxConsumeReclaimDefers"
  shows "total (I d) (fetch d) (\<lambda>_ _ _. True)"
  using \<open>d < maxConsumeReclaimDefers\<close>
proof (induction d rule: scan_induct)
  case (step d)
  have round: "total (case p of (k, deferred) \<Rightarrow> \<lambda>n t. if deferred then I (Suc d) n t else CL c k t)
      (case p of (n, deferred) \<Rightarrow>
         if deferred then (if d + 1 \<ge> maxConsumeReclaimDefers then returnT None else fetch (d + 1))
         else bindT (claim c n) (\<lambda>m. returnT (Some m))) (\<lambda>_ _ _. True)" for c p
  proof -
    obtain k deferred where p: "p = (k, deferred)" by fastforce
    have "total (I (Suc d)) (fetch (d + 1)) (\<lambda>_ _ _. True)" if "\<not> d + 1 \<ge> maxConsumeReclaimDefers"
      using that step.IH by simp
    moreover have "total (\<lambda>n. CL c k) (bindT (claim c k) (\<lambda>m. returnT (Some m))) (\<lambda>_ _ _. True)"
      by (rule total_bind [OF claim_reclaim]) (simp add: total_return)
    ultimately show ?thesis unfolding p prod.case by (cases deferred) (simp_all add: total_return)
  qed
  have again: "total (J d) (bindT probe_reclaim (\<lambda>row. case row of
        None \<Rightarrow> returnT None
      | Some row \<Rightarrow> bindT (attempt row) (\<lambda>(n, deferred).
          if deferred then (if d + 1 \<ge> maxConsumeReclaimDefers then returnT None else fetch (d + 1))
          else bindT (claim row n) (\<lambda>m. returnT (Some m))))) (\<lambda>_ _ _. True)"
    by (intro total_bind [OF reclaim] total_option total_return
        total_pre [OF total_bind [OF account [OF step.prems] round]]) auto
  have claim0: "total (\<lambda>n. CP c) (bindT (claim c (rcount c)) (\<lambda>m. returnT (Some m)))
      (\<lambda>_ _ _. True)" for c
    by (rule total_bind [OF claim_pending]) (simp add: total_return)
  show ?case
    unfolding fetch_unfold [of d]
    by (intro total_bind [OF pending] total_option total_pre [OF again] total_pre [OF claim0]) auto
qed

end

end
