(* ===== verification/Channel.thy ===== *)
theory Channel
  imports Queries ErrorText Scan
begin

text \<open>
  \<^verbatim>\<open>channel.go\<close>: consuming, acknowledging, extending and nacking the messages of a channel.
  The statements run on the channel's message table and dead-letter table; a row stands for
  the \<^verbatim>\<open>channelCandidate\<close> and \<^verbatim>\<open>messageState\<close> the code scans from it.
\<close>

definition minVisibilityTimeout :: duration where
  "minVisibilityTimeout = 1 * time_Millisecond"

definition maxVisibilityTimeout :: duration where
  "maxVisibilityTimeout = 24 * time_Hour"

definition errReasonVisibilityTimeout :: string where
  "errReasonVisibilityTimeout = ''exceeded max retries: not acknowledged before visibility timeout''"

definition validateVisibilityTimeout :: "duration \<Rightarrow> err + unit" where
  "validateVisibilityTimeout d =
     (if d < minVisibilityTimeout \<or> d > maxVisibilityTimeout
      then Inl ErrInvalidVisibilityTimeout else Inr ())"

definition channelMaxRetries :: "int \<Rightarrow> int option \<Rightarrow> int" where
  "channelMaxRetries defaultMax maxRetries =
     (case maxRetries of Some n \<Rightarrow> n | None \<Rightarrow> defaultMax)"

section \<open>Row updates (the SET clauses)\<close>

definition claim_row :: "int \<Rightarrow> uuid \<Rightarrow> timestamp \<Rightarrow> channel_row \<Rightarrow> channel_row" where
  "claim_row n c deadline r =
     r\<lparr>status := MessageStatusProcessing, retry_count := n, claim_id := Some c,
       visibility_timeout := Some deadline\<rparr>"

definition ack_row :: "timestamp \<Rightarrow> channel_row \<Rightarrow> channel_row" where
  "ack_row now r = r\<lparr>status := MessageStatusCompleted, processed_at := Some now\<rparr>"

definition extend_row :: "timestamp \<Rightarrow> channel_row \<Rightarrow> channel_row" where
  "extend_row deadline r = r\<lparr>visibility_timeout := Some deadline\<rparr>"

definition retry_row :: "string \<Rightarrow> timestamp \<Rightarrow> channel_row \<Rightarrow> channel_row" where
  "retry_row errorMsg avail r =
     r\<lparr>status := MessageStatusPending, claim_id := None, retry_count := retry_count r + 1,
       visibility_timeout := None, available_at := avail, error_message := Some errorMsg\<rparr>"

definition defer_row :: "int \<Rightarrow> timestamp \<Rightarrow> channel_row \<Rightarrow> channel_row" where
  "defer_row n avail r =
     r\<lparr>status := MessageStatusPending, claim_id := None, retry_count := n,
       visibility_timeout := None, available_at := avail\<rparr>"

definition live_row :: "uuid \<Rightarrow> uuid \<Rightarrow> channel_row \<Rightarrow> bool" where
  "live_row i c r \<longleftrightarrow> id r = i \<and> claim_id r = Some c \<and> status r = MessageStatusProcessing"

section \<open>Acknowledging\<close>

definition classifyChannelAckMiss :: "env \<Rightarrow> Receipt \<Rightarrow> (channel_tables, 'a) txm" where
  "classifyChannelAckMiss env r =
     bindT (stmt env (\<lambda>n t. (find (\<lambda>row. id row = MessageID r) (msgs t), t)))
       (\<lambda>row. failT (classifyClaimMiss status claim_id row (ClaimID r)))"

text \<open>
  The body both \<^verbatim>\<open>ackChannel\<close> and \<^verbatim>\<open>extendChannelVisibility\<close> run in their transaction: a fenced
  UPDATE and, when it matched no row, the classification.
\<close>

definition fencedUpdate ::
    "env \<Rightarrow> Receipt \<Rightarrow> (channel_row \<Rightarrow> channel_row) \<Rightarrow> (channel_tables, unit) txm" where
  "fencedUpdate env r f =
     bindT
       (stmt env (\<lambda>n t.
          let P = live_row (MessageID r) (ClaimID r) in
          (sql_count P (msgs t), t\<lparr>msgs := sql_update P f (msgs t)\<rparr>)))
       (\<lambda>rows. if rows = 0 then classifyChannelAckMiss env r else returnT ())"

definition ackChannel :: "env \<Rightarrow> string \<Rightarrow> Receipt \<Rightarrow> (sys, unit) txm" where
  "ackChannel env channelName r =
     bindT (notFoundAs ErrChannelNotFound (cachedTableName env QueueTypeChannel channelName))
       (\<lambda>tbl. onDb (withTx env (onChannel env tbl (fencedUpdate env r (ack_row (NOW env))))))"

definition extendChannelVisibility ::
    "env \<Rightarrow> string \<Rightarrow> Receipt \<Rightarrow> duration \<Rightarrow> (sys, unit) txm" where
  "extendChannelVisibility env channelName r d =
     bindT (notFoundAs ErrChannelNotFound (cachedTableName env QueueTypeChannel channelName))
       (\<lambda>tbl. onDb (withTx env (onChannel env tbl
          (fencedUpdate env r (extend_row (NOW env + make_interval env d))))))"

section \<open>Dead-lettering and retrying\<close>

definition insert_dlq :: "env \<Rightarrow> dlq_row \<Rightarrow> dlq_row list \<Rightarrow> err + dlq_row list" where
  "insert_dlq env row rows =
     (if d_id row \<in> d_id ` set rows then Inl (ErrDriver (pg_error env pgUniqueViolation))
      else Inr (rows @ [row]))"

definition moveToDLQ ::
    "env \<Rightarrow> uuid \<Rightarrow> string \<Rightarrow> bytes \<Rightarrow> int \<Rightarrow> string option \<Rightarrow> (channel_tables, unit) txm" where
  "moveToDLQ env messageID errorMsg pload retryCount metadataJSON =
     bindT
       (stmtE env (\<lambda>n t.
          case insert_dlq env
                 \<lparr>d_id = uuidv7 env n 0, d_original_message_id = messageID, d_subscriber_id = None,
                  d_payload = pload, d_failure_reason = truncateErrorMsg errorMsg,
                  d_retry_count = retryCount, d_moved_at = NOW env, d_metadata = metadataJSON\<rparr>
                 (dlq t) of
            Inl e \<Rightarrow> Inl e
          | Inr rows \<Rightarrow> Inr ((), t\<lparr>dlq := rows\<rparr>)))
       (\<lambda>_. stmt env (\<lambda>n t. ((), t\<lparr>msgs := sql_delete (\<lambda>r. id r = messageID) (msgs t)\<rparr>)))"

definition retryMessage :: "env \<Rightarrow> uuid \<Rightarrow> string \<Rightarrow> duration \<Rightarrow> (channel_tables, unit) txm" where
  "retryMessage env messageID errorMsg delay =
     stmt env (\<lambda>n t.
       ((), t\<lparr>msgs := sql_update (\<lambda>r. id r = messageID)
                       (retry_row errorMsg (NOW env + make_interval env delay)) (msgs t)\<rparr>))"

definition deferReclaimedChannelMessage ::
    "env \<Rightarrow> uuid \<Rightarrow> int \<Rightarrow> duration \<Rightarrow> (channel_tables, unit) txm" where
  "deferReclaimedChannelMessage env messageID retryCount delay =
     stmt env (\<lambda>n t.
       ((), t\<lparr>msgs := sql_update (\<lambda>r. id r = messageID)
                       (defer_row retryCount (NOW env + make_interval env delay)) (msgs t)\<rparr>))"

definition getProcessingMessageState ::
    "env \<Rightarrow> Receipt \<Rightarrow> (channel_tables, channel_row) txm" where
  "getProcessingMessageState env r =
     bindT (stmt env (\<lambda>n t. (find (live_row (MessageID r) (ClaimID r)) (msgs t), t)))
       (\<lambda>row. case row of
                None \<Rightarrow> classifyChannelAckMiss env r
              | Some row \<Rightarrow> returnT row)"

definition handleNack ::
    "Queue \<Rightarrow> env \<Rightarrow> uuid \<Rightarrow> string \<Rightarrow> channel_row \<Rightarrow> duration \<Rightarrow> (channel_tables, unit) txm" where
  "handleNack pq env messageID errorMsg state retryDelay =
     (let maxRetry = channelMaxRetries (defaultMaxRetries (cfg pq)) (max_retries state) in
      if retry_count state + 1 > maxRetry then
        moveToDLQ env messageID errorMsg (payload state) (retry_count state + 1) (metadata state)
      else
        bindT (randT env) (\<lambda>rnds.
          retryMessage env messageID errorMsg
            (computeRetryDelay env (backoffPolicy (cfg pq)) rnds (retry_count state + 1) retryDelay)))"

definition nackChannelBody ::
    "Queue \<Rightarrow> env \<Rightarrow> Receipt \<Rightarrow> string \<Rightarrow> duration \<Rightarrow> (channel_tables, unit) txm" where
  "nackChannelBody pq env r errorMsg retryDelay =
     bindT (getProcessingMessageState env r)
       (\<lambda>state. handleNack pq env (MessageID r) errorMsg state retryDelay)"

definition nackChannelImpl ::
    "Queue \<Rightarrow> env \<Rightarrow> string \<Rightarrow> Receipt \<Rightarrow> string \<Rightarrow> duration \<Rightarrow> (sys, unit) txm" where
  "nackChannelImpl pq env channelName r errorMsg retryDelay =
     bindT (notFoundAs ErrChannelNotFound (getQueueMetadata env QueueTypeChannel channelName))
       (\<lambda>queueMeta. onDb (withTx env (onChannel env (metaTableName queueMeta)
          (nackChannelBody pq env r (truncateErrorMsg errorMsg) retryDelay))))"

section \<open>Consuming\<close>

text \<open>\<^verbatim>\<open>channelConsumeQueries\<close>: the two probes, with the optional TTL clause.\<close>

definition ttl_clause :: "env \<Rightarrow> duration \<Rightarrow> timestamp \<Rightarrow> bool" where
  "ttl_clause env ttl created \<longleftrightarrow> (ttl > 0 \<longrightarrow> created > NOW env - make_interval env ttl)"

definition pendingQuery :: "env \<Rightarrow> duration \<Rightarrow> channel_row \<Rightarrow> bool" where
  "pendingQuery env ttl r \<longleftrightarrow>
     status r = MessageStatusPending \<and> available_at r \<le> NOW env \<and> ttl_clause env ttl (created_at r)"

definition expired_at :: "timestamp \<Rightarrow> timestamp option \<Rightarrow> bool" where
  "expired_at now vt = (case vt of None \<Rightarrow> False | Some v \<Rightarrow> v < now)"

definition reclaimQuery :: "env \<Rightarrow> duration \<Rightarrow> channel_row \<Rightarrow> bool" where
  "reclaimQuery env ttl r \<longleftrightarrow>
     status r = MessageStatusProcessing \<and> expired_at (NOW env) (visibility_timeout r) \<and>
     ttl_clause env ttl (created_at r)"

definition pendingOrder :: "channel_row \<Rightarrow> timestamp \<times> uuid" where
  "pendingOrder r = (available_at r, id r)"

definition reclaimOrder :: "channel_row \<Rightarrow> timestamp \<times> uuid" where
  "reclaimOrder r = (case visibility_timeout r of Some v \<Rightarrow> (v, id r) | None \<Rightarrow> (0, id r))"

definition probePending :: "env \<Rightarrow> duration \<Rightarrow> (channel_tables, channel_row option) txm" where
  "probePending env ttl =
     stmt env (\<lambda>n t.
       (sql_first pendingOrder (\<lambda>r. pendingQuery env ttl r \<and> \<not> locked env (id r)) (msgs t), t))"

definition probeReclaim :: "env \<Rightarrow> duration \<Rightarrow> (channel_tables, channel_row option) txm" where
  "probeReclaim env ttl =
     stmt env (\<lambda>n t.
       (sql_first reclaimOrder (\<lambda>r. reclaimQuery env ttl r \<and> \<not> locked env (id r)) (msgs t), t))"

definition reclaimChannelAttempt ::
    "Queue \<Rightarrow> env \<Rightarrow> channel_row \<Rightarrow> (channel_tables, int \<times> bool) txm" where
  "reclaimChannelAttempt pq env row =
     (case status row of
        MessageStatusProcessing \<Rightarrow>
          (let retryCount = retry_count row + 1 in
           if retryCount > channelMaxRetries (defaultMaxRetries (cfg pq)) (max_retries row) then
             bindT (moveToDLQ env (id row) errReasonVisibilityTimeout (payload row) retryCount (metadata row))
               (\<lambda>_. returnT (0, True))
           else if backoffConfigured (cfg pq) then
             bindT (randT env) (\<lambda>rnds.
               bindT (deferReclaimedChannelMessage env (id row) retryCount
                        (computeRetryDelay env (backoffPolicy (cfg pq)) rnds retryCount 0))
                 (\<lambda>_. returnT (0, True)))
           else returnT (retryCount, False))
      | MessageStatusPending \<Rightarrow> returnT (retry_count row, False)
      | _ \<Rightarrow> failT ErrUnexpectedMessageStatus)"

definition claimChannelMessage ::
    "Queue \<Rightarrow> env \<Rightarrow> duration \<Rightarrow> channel_row \<Rightarrow> int \<Rightarrow> (channel_tables, Message \<times> timestamp) txm" where
  "claimChannelMessage pq env visibilityTimeout row retryCount =
     bindT
       (stmtE env (\<lambda>n t.
          let deadline = NOW env + make_interval env visibilityTimeout; c = uuidv7 env n 0 in
          if \<exists>r \<in> set (msgs t). id r = id row then
            Inr ((deadline, c),
                 t\<lparr>msgs := sql_update (\<lambda>r. id r = id row) (claim_row retryCount c deadline) (msgs t)\<rparr>)
          else Inl sql_ErrNoRows))
       (\<lambda>(visTimeout, claimID).
          returnT
            (\<lparr>msgID = id row, msgClaimID = claimID, msgPayload = payload row,
              msgCreatedAt = created_at row, msgStatus = MessageStatusProcessing,
              msgRetryCount = retryCount,
              msgMaxRetries = channelMaxRetries (defaultMaxRetries (cfg pq)) (max_retries row),
              msgVisibilityTimeout = None, msgProcessedAt = processed_at row,
              msgErrorMessage = error_message row,
              msgMetadata = parseMetadataJSON env (metadata row), msgReceipt = None\<rparr>,
             visTimeout))"

text \<open>The loop of \<^verbatim>\<open>fetchPendingChannelMessage\<close>; \<open>defers\<close> counts the rows skipped so far.\<close>

function fetchPendingChannelMessage ::
    "Queue \<Rightarrow> env \<Rightarrow> duration \<Rightarrow> duration \<Rightarrow> nat \<Rightarrow> (channel_tables, (Message \<times> timestamp) option) txm" where
  "fetchPendingChannelMessage pq env visibilityTimeout ttl defers =
     bindT (probePending env ttl) (\<lambda>row.
       case row of
         Some row \<Rightarrow>
           bindT (claimChannelMessage pq env visibilityTimeout row (retry_count row))
             (\<lambda>m. returnT (Some m))
       | None \<Rightarrow>
           bindT (probeReclaim env ttl) (\<lambda>row.
             case row of
               None \<Rightarrow> returnT None
             | Some row \<Rightarrow>
                 bindT (reclaimChannelAttempt pq env row) (\<lambda>(retryCount, deferred).
                   if deferred then
                     (if defers + 1 \<ge> maxConsumeReclaimDefers then returnT None
                      else fetchPendingChannelMessage pq env visibilityTimeout ttl (defers + 1))
                   else
                     bindT (claimChannelMessage pq env visibilityTimeout row retryCount)
                       (\<lambda>m. returnT (Some m)))))"
  by pat_completeness auto
termination by (relation "measure (\<lambda>(_, _, _, _, defers). maxConsumeReclaimDefers - defers)") auto

declare fetchPendingChannelMessage.simps [simp del]

definition consumeFromChannel ::
    "Queue \<Rightarrow> env \<Rightarrow> string \<Rightarrow> duration \<Rightarrow> (sys, Message option) txm" where
  "consumeFromChannel pq env channelName visibilityTimeout =
     bindT (checkClosed pq) (\<lambda>_.
     bindT (liftE (validateVisibilityTimeout visibilityTimeout)) (\<lambda>_.
     bindT (notFoundAs ErrChannelNotFound (getQueueMetadata env QueueTypeChannel channelName))
       (\<lambda>queueMeta.
          if metaPaused queueMeta then failT ErrQueuePaused
          else
            bindT (onDb (withTx env (onChannel env (metaTableName queueMeta)
                     (fetchPendingChannelMessage pq env visibilityTimeout
                        (getQueueTTL pq (metaConfig queueMeta)) 0))))
              (\<lambda>m. returnT (map_option (\<lambda>(msg, vis). msg\<lparr>msgVisibilityTimeout := Some vis\<rparr>) m)))))"

section \<open>The lease discipline on channel rows\<close>

definition channel_row_ok :: "channel_row \<Rightarrow> bool" where
  "channel_row_ok r \<longleftrightarrow>
     (status r = MessageStatusPending \<longrightarrow> claim_id r = None \<and> visibility_timeout r = None) \<and>
     (status r = MessageStatusProcessing \<longrightarrow> claim_id r \<noteq> None \<and> visibility_timeout r \<noteq> None)"

interpretation channel_lease: leased_rows id status claim_id visibility_timeout retry_count
    claim_row ack_row retry_row defer_row extend_row live_row channel_row_ok
  by unfold_locales
    (simp_all add: claim_row_def ack_row_def retry_row_def defer_row_def extend_row_def
      live_row_def channel_row_ok_def)

interpretation channel_scan: reclaim_scan "fetchPendingChannelMessage pq env vt ttl"
    "probePending env ttl" "probeReclaim env ttl" "reclaimChannelAttempt pq env"
    "claimChannelMessage pq env vt" retry_count for pq env vt ttl
  by unfold_locales (rule fetchPendingChannelMessage.simps)

end
