(* ===== verification/Publish.thy ===== *)
theory Publish
  imports Channel
begin

text \<open>
  \<^verbatim>\<open>publish.go\<close> and the publishing half of \<^verbatim>\<open>batch.go\<close>: single and batch publication to channels
  and topics, with the size limits, the duplicate check and the fan-out to the active
  subscribers of a topic.
\<close>

definition MaxBatchSize :: nat where
  "MaxBatchSize = 1000"

definition subFanoutChunkRows :: nat where
  "subFanoutChunkRows = 16000"

section \<open>Limits of a queue\<close>

definition resolveQueueMetadata :: "env \<Rightarrow> string \<Rightarrow> (db, queueMetadata) txm" where
  "resolveQueueMetadata env queueName =
     bindT (stmt env (\<lambda>n d. (find (\<lambda>m. metaQueueName m = queueName) (pgqueue_metadata d), d)))
       (\<lambda>row. case row of None \<Rightarrow> failT ErrQueueNotFound | Some meta \<Rightarrow> returnT meta)"

definition resolveMaxMessageSize :: "Queue \<Rightarrow> queueMetadata \<Rightarrow> int" where
  "resolveMaxMessageSize pq meta =
     (case metaConfig meta of
        BadConfig \<Rightarrow> maxMessageSize (cfg pq)
      | GoodConfig opts \<Rightarrow>
          if optMaxMessageSize opts = 0 then maxMessageSize (cfg pq) else optMaxMessageSize opts)"

definition checkPayloadSize :: "int \<Rightarrow> bytes \<Rightarrow> err + unit" where
  "checkPayloadSize limit pload =
     (if int (length pload) > limit then Inl ErrMessageSizeExceeded else Inr ())"

definition resolveMaxMetadataSize :: "Queue \<Rightarrow> queueMetadata \<Rightarrow> int" where
  "resolveMaxMetadataSize pq meta =
     (case metaConfig meta of
        BadConfig \<Rightarrow> maxMetadataSize (cfg pq)
      | GoodConfig opts \<Rightarrow>
          if optMaxMetadataSize opts > 0 then optMaxMetadataSize opts else maxMetadataSize (cfg pq))"

definition marshalMetadataWithLimit :: "env \<Rightarrow> int \<Rightarrow> metadata option \<Rightarrow> err + string option" where
  "marshalMetadataWithLimit env limit md =
     (case md of
        None \<Rightarrow> Inr None
      | Some m \<Rightarrow>
          (case json_Marshal env m of
             None \<Rightarrow> Inl errMarshal
           | Some js \<Rightarrow>
               if limit > 0 \<and> int (length js) > limit then Inl ErrMetadataSizeExceeded
               else Inr (Some js)))"

definition resolveMaxRetries :: "Queue \<Rightarrow> queueMetadata \<Rightarrow> int" where
  "resolveMaxRetries pq meta =
     (case metaConfig meta of
        BadConfig \<Rightarrow> defaultMaxRetries (cfg pq)
      | GoodConfig opts \<Rightarrow>
          if optMaxRetriesSet opts then optMaxRetries opts
          else if optMaxRetries opts > 0 then optMaxRetries opts
          else defaultMaxRetries (cfg pq))"

section \<open>Channel inserts\<close>

text \<open>A pending row as the INSERT leaves it, the other columns at their defaults.\<close>

definition new_channel_row :: "env \<Rightarrow> int \<Rightarrow> uuid \<times> bytes \<times> string option \<Rightarrow> channel_row" where
  "new_channel_row env maxRetries m =
     (case m of (i, pload, md) \<Rightarrow>
        \<lparr>id = i, payload = pload, created_at = NOW env, status = MessageStatusPending,
         retry_count = 0, max_retries = Some maxRetries, visibility_timeout = None,
         available_at = NOW env, claim_id = None, processed_at = None, error_message = None,
         metadata = md\<rparr>)"

text \<open>
  The multi-row INSERT with \<^verbatim>\<open>ON CONFLICT (id) DO NOTHING\<close>; the CHECK on \<^verbatim>\<open>max_retries\<close> is
  SQLSTATE 23514.  The result is the number of rows inserted.
\<close>

definition insertChannelRows ::
    "env \<Rightarrow> int \<Rightarrow> (uuid \<times> bytes \<times> string option) list \<Rightarrow> (channel_tables, nat) txm" where
  "insertChannelRows env maxRetries news =
     stmtE env (\<lambda>n t.
       if maxRetries < 0 then Inl (ErrDriver (pg_error env ''23514''))
       else
         let rows = insert_all id (map (new_channel_row env maxRetries) news) (msgs t) in
         Inr (length rows - length (msgs t), t\<lparr>msgs := rows\<rparr>))"

text \<open>\<^verbatim>\<open>emitNotify\<close>: a failing \<^verbatim>\<open>pg_notify\<close> aborts the transaction and so fails its commit.\<close>

definition emitNotify :: "env \<Rightarrow> ('s, unit) txm" where
  "emitNotify env = stmt env (\<lambda>n t. ((), t))"

definition publishChannelBody ::
    "env \<Rightarrow> (uuid \<times> bytes \<times> string option) list \<Rightarrow> int \<Rightarrow> (channel_tables, unit) txm" where
  "publishChannelBody env news maxRetries =
     bindT (insertChannelRows env maxRetries news) (\<lambda>rowsAffected.
       if rowsAffected < length news then failT ErrDuplicateMessageID
       else emitNotify env)"

definition publishToChannel ::
    "env \<Rightarrow> string \<Rightarrow> uuid \<Rightarrow> bytes \<Rightarrow> string option \<Rightarrow> int \<Rightarrow> (db, unit) txm" where
  "publishToChannel env tbl messageID pload md maxRetries =
     withTx env (onChannel env tbl (publishChannelBody env [(messageID, pload, md)] maxRetries))"

definition publishBatchToChannel ::
    "env \<Rightarrow> string \<Rightarrow> (uuid \<times> bytes \<times> string option) list \<Rightarrow> int \<Rightarrow> (db, unit) txm" where
  "publishBatchToChannel env tbl news maxRetries =
     withTx env (onChannel env tbl (publishChannelBody env news maxRetries))"

section \<open>Topic inserts and fan-out\<close>

definition new_topic_row :: "env \<Rightarrow> uuid \<times> bytes \<times> string option \<Rightarrow> topic_row" where
  "new_topic_row env m =
     (case m of (i, pload, md) \<Rightarrow>
        \<lparr>t_id = i, t_payload = pload, t_created_at = NOW env, t_metadata = md\<rparr>)"

definition insertPubSubMessages ::
    "env \<Rightarrow> (uuid \<times> bytes \<times> string option) list \<Rightarrow> (topic_tables, unit) txm" where
  "insertPubSubMessages env news =
     bindT
       (stmt env (\<lambda>n t.
          let rows = insert_all t_id (map (new_topic_row env) news) (tmsgs t) in
          (length rows - length (tmsgs t), t\<lparr>tmsgs := rows\<rparr>)))
       (\<lambda>rowsAffected.
          if rowsAffected < length news then failT ErrDuplicateMessageID else returnT ())"

type_synonym subRecord = "uuid \<times> string"

definition new_sub_row :: "env \<Rightarrow> nat \<Rightarrow> nat \<times> subRecord \<Rightarrow> sub_row" where
  "new_sub_row env n r =
     (case r of (i, m, s) \<Rightarrow>
        \<lparr>s_id = uuidv7 env n i, s_message_id = m, s_subscriber_id = s,
         s_status = MessageStatusPending, s_created_at = NOW env, s_acked_at = None,
         s_visibility_timeout = None, s_available_at = NOW env, s_claim_id = None,
         s_retry_count = 0, s_error_message = None\<rparr>)"

definition sub_key :: "sub_row \<Rightarrow> subRecord" where
  "sub_key s = (s_message_id s, s_subscriber_id s)"

text \<open>
  One chunk of the subscription INSERT: the foreign key to the message table (23503), the
  conflict clause on \<^verbatim>\<open>(message_id, subscriber_id)\<close>, and the primary key (23505).
\<close>

definition insertSubChunk :: "env \<Rightarrow> subRecord list \<Rightarrow> (topic_tables, unit) txm" where
  "insertSubChunk env recs =
     stmtE env (\<lambda>n t.
       if \<not> list_all (\<lambda>(m, _). m \<in> t_id ` set (tmsgs t)) recs
       then Inl (ErrDriver (pg_error env ''23503''))
       else
         let rows = insert_all sub_key (map (new_sub_row env n) (enumerate 0 recs)) (subs t) in
         if distinct (map s_id rows) then Inr ((), t\<lparr>subs := rows\<rparr>)
         else Inl (ErrDriver (pg_error env pgUniqueViolation)))"

function insertSubscriptionRecords :: "env \<Rightarrow> subRecord list \<Rightarrow> (topic_tables, unit) txm" where
  "insertSubscriptionRecords env recs =
     (if recs = [] then returnT ()
      else bindT (insertSubChunk env (take subFanoutChunkRows recs))
             (\<lambda>_. insertSubscriptionRecords env (drop subFanoutChunkRows recs)))"
  by pat_completeness auto
termination by (relation "measure (\<lambda>(_, recs). length recs)") (auto simp: subFanoutChunkRows_def)

declare insertSubscriptionRecords.simps [simp del]

definition createSubscriptionRecords ::
    "Queue \<Rightarrow> env \<Rightarrow> string \<Rightarrow> string \<Rightarrow> uuid \<Rightarrow> (db, unit) txm" where
  "createSubscriptionRecords pq env topicName tbl messageID =
     bindT (getActiveSubscribers pq env topicName) (\<lambda>subscribers.
       if subscribers = [] then returnT ()
       else onTopic env tbl
              (insertSubscriptionRecords env (map (\<lambda>s. (messageID, subSubscriberID s)) subscribers)))"

definition publishToPubSub ::
    "Queue \<Rightarrow> env \<Rightarrow> string \<Rightarrow> string \<Rightarrow> uuid \<Rightarrow> bytes \<Rightarrow> string option \<Rightarrow> (db, unit) txm" where
  "publishToPubSub pq env topicName tbl messageID pload md =
     withTx env
       (bindT (onTopic env tbl (insertPubSubMessages env [(messageID, pload, md)])) (\<lambda>_.
        bindT (createSubscriptionRecords pq env topicName tbl messageID) (\<lambda>_.
        emitNotify env)))"

text \<open>
  \<^verbatim>\<open>batchCreateSubscriptionRecords\<close>: the message by subscriber product streamed through a
  buffer that is flushed when it holds \<^verbatim>\<open>subFanoutChunkRows\<close> records and once at the end.
\<close>

fun fanOut :: "env \<Rightarrow> subRecord list \<Rightarrow> subRecord list \<Rightarrow> (topic_tables, unit) txm" where
  "fanOut env buf [] = (if buf = [] then returnT () else insertSubscriptionRecords env buf)"
| "fanOut env buf (r # recs) =
     (let buf = buf @ [r] in
      if length buf = subFanoutChunkRows
      then bindT (insertSubscriptionRecords env buf) (\<lambda>_. fanOut env [] recs)
      else fanOut env buf recs)"

definition batchCreateSubscriptionRecords ::
    "env \<Rightarrow> uuid list \<Rightarrow> subscriber list \<Rightarrow> (topic_tables, unit) txm" where
  "batchCreateSubscriptionRecords env ids subscribers =
     fanOut env [] [(m, subSubscriberID s). m \<leftarrow> ids, s \<leftarrow> subscribers]"

definition publishBatchToPubSub ::
    "Queue \<Rightarrow> env \<Rightarrow> string \<Rightarrow> string \<Rightarrow> (uuid \<times> bytes \<times> string option) list \<Rightarrow> (db, unit) txm" where
  "publishBatchToPubSub pq env topicName tbl news =
     withTx env
       (bindT (onTopic env tbl (insertPubSubMessages env news)) (\<lambda>_.
        bindT (getActiveSubscribers pq env topicName) (\<lambda>subscribers.
        bindT (if subscribers \<noteq> []
               then onTopic env tbl (batchCreateSubscriptionRecords env (map fst news) subscribers)
               else returnT ()) (\<lambda>_.
        emitNotify env))))"

section \<open>Publish and PublishBatch\<close>

definition resolve_id :: "env \<Rightarrow> nat \<Rightarrow> uuid \<Rightarrow> err + uuid" where
  "resolve_id env k messageID = (if messageID = uuid_Nil then NewUUIDv7 env k else Inr messageID)"

definition publishResolved ::
    "Queue \<Rightarrow> env \<Rightarrow> string \<Rightarrow> bytes \<Rightarrow> uuid \<Rightarrow> metadata option \<Rightarrow> (db, uuid) txm" where
  "publishResolved pq env queueName pload messageID md =
     bindT (resolveQueueMetadata env queueName) (\<lambda>queueMeta.
     bindT (liftE (checkPayloadSize (resolveMaxMessageSize pq queueMeta) pload)) (\<lambda>_.
     bindT (liftE (resolve_id env 0 messageID)) (\<lambda>messageID.
     bindT (liftE (marshalMetadataWithLimit env (resolveMaxMetadataSize pq queueMeta) md)) (\<lambda>js.
     bindT (if metaQueueType queueMeta = QueueTypePubSub
            then publishToPubSub pq env (metaQueueName queueMeta) (metaTableName queueMeta) messageID pload js
            else publishToChannel env (metaTableName queueMeta) messageID pload js (resolveMaxRetries pq queueMeta))
       (\<lambda>_. returnT messageID)))))"

definition Publish ::
    "Queue \<Rightarrow> env \<Rightarrow> string \<Rightarrow> bytes option \<Rightarrow> uuid \<Rightarrow> metadata option \<Rightarrow> (db, uuid) txm" where
  "Publish pq env queueName pload messageID md =
     bindT (checkClosed pq) (\<lambda>_.
       case pload of
         None \<Rightarrow> failT ErrNilPayload
       | Some p \<Rightarrow> publishResolved pq env queueName p messageID md)"

definition validateBatchSize :: "nat \<Rightarrow> err + unit" where
  "validateBatchSize sz = (if sz > MaxBatchSize then Inl ErrBatchTooLarge else Inr ())"

text \<open>The up-front payload checks of \<^verbatim>\<open>publishBatchResolved\<close>, with the running byte total.\<close>

fun checkBatchPayloads :: "int \<Rightarrow> PublishMessage list \<Rightarrow> int \<Rightarrow> err + int" where
  "checkBatchPayloads limit [] acc = Inr acc"
| "checkBatchPayloads limit (m # ms) acc =
     (case pmPayload m of
        None \<Rightarrow> Inl ErrNilPayload
      | Some p \<Rightarrow>
          (case checkPayloadSize limit p of
             Inl e \<Rightarrow> Inl e
           | Inr _ \<Rightarrow> checkBatchPayloads limit ms (acc + int (length p))))"

fun prepareBatchMessages ::
    "env \<Rightarrow> int \<Rightarrow> nat \<Rightarrow> PublishMessage list \<Rightarrow> err + (uuid \<times> bytes \<times> string option) list" where
  "prepareBatchMessages env limit k [] = Inr []"
| "prepareBatchMessages env limit k (m # ms) =
     (case resolve_id env k (pmID m) of
        Inl e \<Rightarrow> Inl e
      | Inr i \<Rightarrow>
          (case marshalMetadataWithLimit env limit (pmMetadata m) of
             Inl e \<Rightarrow> Inl e
           | Inr js \<Rightarrow>
               (case prepareBatchMessages env limit (Suc k) ms of
                  Inl e \<Rightarrow> Inl e
                | Inr rest \<Rightarrow>
                    Inr ((i, (case pmPayload m of None \<Rightarrow> [] | Some p \<Rightarrow> p), js) # rest))))"

definition publishBatchResolved ::
    "Queue \<Rightarrow> env \<Rightarrow> queueMetadata \<Rightarrow> PublishMessage list \<Rightarrow> (db, uuid list) txm" where
  "publishBatchResolved pq env queueMeta messages =
     bindT (liftE (checkBatchPayloads (resolveMaxMessageSize pq queueMeta) messages 0)) (\<lambda>totalBytes.
     bindT (guardT (\<not> (maxBatchBytes (cfg pq) > 0 \<and> totalBytes > maxBatchBytes (cfg pq))) ErrBatchTooLarge) (\<lambda>_.
     bindT (liftE (prepareBatchMessages env (resolveMaxMetadataSize pq queueMeta) 0 messages)) (\<lambda>news.
     bindT (if metaQueueType queueMeta = QueueTypePubSub
            then publishBatchToPubSub pq env (metaQueueName queueMeta) (metaTableName queueMeta) news
            else publishBatchToChannel env (metaTableName queueMeta) news (resolveMaxRetries pq queueMeta))
       (\<lambda>_. returnT (map fst news)))))"

definition PublishBatch ::
    "Queue \<Rightarrow> env \<Rightarrow> string \<Rightarrow> PublishMessage list \<Rightarrow> (db, uuid list) txm" where
  "PublishBatch pq env queueName messages =
     bindT (checkClosed pq) (\<lambda>_.
       if messages = [] then returnT []
       else
         bindT (liftE (validateBatchSize (length messages))) (\<lambda>_.
         bindT (resolveQueueMetadata env queueName) (\<lambda>queueMeta.
         publishBatchResolved pq env queueMeta messages)))"

end
