(* ===== verification/Pubsub.thy ===== *)
theory Pubsub
  imports Publish Names
begin

text \<open>
  \<^verbatim>\<open>pubsub.go\<close>: subscribing, and consuming, acknowledging, extending and nacking the messages of
  a topic on behalf of one subscriber.  A topic keeps one append-only row per message and one
  subscription row per message and subscriber; the lease is held on the subscription row.
\<close>

section \<open>Row updates (the SET clauses)\<close>

definition claim_sub :: "int \<Rightarrow> uuid \<Rightarrow> timestamp \<Rightarrow> sub_row \<Rightarrow> sub_row" where
  "claim_sub n c deadline s =
     s\<lparr>s_status := MessageStatusProcessing, s_retry_count := n, s_claim_id := Some c,
       s_visibility_timeout := Some deadline\<rparr>"

definition ack_sub :: "timestamp \<Rightarrow> sub_row \<Rightarrow> sub_row" where
  "ack_sub now s = s\<lparr>s_status := MessageStatusAcked, s_acked_at := Some now\<rparr>"

definition extend_sub :: "timestamp \<Rightarrow> sub_row \<Rightarrow> sub_row" where
  "extend_sub deadline s = s\<lparr>s_visibility_timeout := Some deadline\<rparr>"

definition retry_sub :: "string \<Rightarrow> timestamp \<Rightarrow> sub_row \<Rightarrow> sub_row" where
  "retry_sub errorMsg avail s =
     s\<lparr>s_status := MessageStatusPending, s_claim_id := None, s_retry_count := s_retry_count s + 1,
       s_visibility_timeout := None, s_available_at := avail, s_error_message := Some errorMsg\<rparr>"

definition defer_sub :: "int \<Rightarrow> timestamp \<Rightarrow> sub_row \<Rightarrow> sub_row" where
  "defer_sub n avail s =
     s\<lparr>s_status := MessageStatusPending, s_claim_id := None, s_retry_count := n,
       s_visibility_timeout := None, s_available_at := avail\<rparr>"

definition live_sub :: "subRecord \<Rightarrow> uuid \<Rightarrow> sub_row \<Rightarrow> bool" where
  "live_sub k c s \<longleftrightarrow> sub_key s = k \<and> s_claim_id s = Some c \<and> s_status s = MessageStatusProcessing"

section \<open>Subscribers\<close>

definition Subscribe :: "Queue \<Rightarrow> env \<Rightarrow> string \<Rightarrow> string \<Rightarrow> (sys, unit) txm" where
  "Subscribe pq env topicName subscriberID =
     bindT (checkClosed pq) (\<lambda>_.
     bindT (liftE (validateSubscriberID subscriberID)) (\<lambda>_.
     bindT (notFoundAs ErrTopicNotFound (getQueueMetadata env QueueTypePubSub topicName)) (\<lambda>_.
     bindT (onDb (registerSubscriber env topicName subscriberID)) (\<lambda>_.
     returnT ()))))"

definition ListSubscribers :: "Queue \<Rightarrow> env \<Rightarrow> string \<Rightarrow> (sys, string list) txm" where
  "ListSubscribers pq env topicName =
     bindT (checkClosed pq) (\<lambda>_.
     bindT (notFoundAs ErrTopicNotFound (getQueueMetadata env QueueTypePubSub topicName)) (\<lambda>_.
     bindT (onDb (stmt env (\<lambda>n d.
              (sort_key subCreatedAt (sort_key (collate env \<circ> subSubscriberID)
                 (filter (active_on topicName) (pgqueue_subscribers d))), d))))
       (\<lambda>rows. returnT (map subSubscriberID rows))))"

definition Unsubscribe :: "Queue \<Rightarrow> env \<Rightarrow> string \<Rightarrow> string \<Rightarrow> (sys, unit) txm" where
  "Unsubscribe pq env topicName subscriberID =
     bindT (checkClosed pq) (\<lambda>_.
     bindT (liftE (validateSubscriberID subscriberID)) (\<lambda>_.
     bindT (notFoundAs ErrTopicNotFound (getQueueMetadata env QueueTypePubSub topicName)) (\<lambda>_.
     onDb (unregisterSubscriber env topicName subscriberID))))"

section \<open>Acknowledging\<close>

definition classifyTopicAckMiss :: "env \<Rightarrow> string \<Rightarrow> Receipt \<Rightarrow> (topic_tables, 'a) txm" where
  "classifyTopicAckMiss env subscriberID r =
     bindT (stmt env (\<lambda>n t. (find (\<lambda>s. sub_key s = (MessageID r, subscriberID)) (subs t), t)))
       (\<lambda>row. failT (classifyClaimMiss s_status s_claim_id row (ClaimID r)))"

definition fencedSubUpdate ::
    "env \<Rightarrow> string \<Rightarrow> Receipt \<Rightarrow> (sub_row \<Rightarrow> sub_row) \<Rightarrow> (topic_tables, unit) txm" where
  "fencedSubUpdate env subscriberID r f =
     bindT
       (stmt env (\<lambda>n t.
          let P = live_sub (MessageID r, subscriberID) (ClaimID r) in
          (sql_count P (subs t), t\<lparr>subs := sql_update P f (subs t)\<rparr>)))
       (\<lambda>rows. if rows = 0 then classifyTopicAckMiss env subscriberID r else returnT ())"

definition ackTopic :: "env \<Rightarrow> string \<Rightarrow> string \<Rightarrow> Receipt \<Rightarrow> (sys, unit) txm" where
  "ackTopic env topicName subscriberID r =
     bindT (liftE (validateSubscriberID subscriberID)) (\<lambda>_.
     bindT (notFoundAs ErrTopicNotFound (getQueueMetadata env QueueTypePubSub topicName)) (\<lambda>queueMeta.
     onDb (withTx env (onTopic env (metaTableName queueMeta)
       (fencedSubUpdate env subscriberID r (ack_sub (NOW env)))))))"

definition extendTopicVisibility ::
    "env \<Rightarrow> string \<Rightarrow> string \<Rightarrow> Receipt \<Rightarrow> duration \<Rightarrow> (sys, unit) txm" where
  "extendTopicVisibility env topicName subscriberID r d =
     bindT (liftE (validateSubscriberID subscriberID)) (\<lambda>_.
     bindT (notFoundAs ErrTopicNotFound (getQueueMetadata env QueueTypePubSub topicName)) (\<lambda>queueMeta.
     onDb (withTx env (onTopic env (metaTableName queueMeta)
       (fencedSubUpdate env subscriberID r (extend_sub (NOW env + make_interval env d)))))))"

section \<open>Dead-lettering and retrying\<close>

text \<open>The join of the subscription table with the message table on the message identifier.\<close>

definition joined :: "topic_tables \<Rightarrow> (sub_row \<times> topic_row) list" where
  "joined t = [(s, m). s \<leftarrow> subs t, m \<leftarrow> tmsgs t, s_message_id s = t_id m]"

definition getProcessingSubState ::
    "env \<Rightarrow> Receipt \<Rightarrow> string \<Rightarrow> (topic_tables, sub_row \<times> topic_row) txm" where
  "getProcessingSubState env r subscriberID =
     bindT (stmt env (\<lambda>n t.
              (find (\<lambda>(s, m). live_sub (MessageID r, subscriberID) (ClaimID r) s) (joined t), t)))
       (\<lambda>row. case row of
                None \<Rightarrow> classifyTopicAckMiss env subscriberID r
              | Some st \<Rightarrow> returnT st)"

definition moveSubToDLQ ::
    "env \<Rightarrow> uuid \<Rightarrow> string \<Rightarrow> string \<Rightarrow> sub_row \<times> topic_row \<Rightarrow> (topic_tables, unit) txm" where
  "moveSubToDLQ env messageID subscriberID errorMsg state =
     bindT
       (stmtE env (\<lambda>n t.
          case insert_dlq env
                 \<lparr>d_id = uuidv7 env n 0, d_original_message_id = messageID,
                  d_subscriber_id = Some subscriberID, d_payload = t_payload (snd state),
                  d_failure_reason = truncateErrorMsg errorMsg,
                  d_retry_count = s_retry_count (fst state) + 1, d_moved_at = NOW env,
                  d_metadata = t_metadata (snd state)\<rparr> (tdlq t) of
            Inl e \<Rightarrow> Inl e
          | Inr rows \<Rightarrow> Inr ((), t\<lparr>tdlq := rows\<rparr>)))
       (\<lambda>_. stmt env (\<lambda>n t.
          ((), t\<lparr>subs := sql_delete (\<lambda>s. sub_key s = (messageID, subscriberID)) (subs t)\<rparr>)))"

definition retrySubscription ::
    "env \<Rightarrow> uuid \<Rightarrow> string \<Rightarrow> string \<Rightarrow> duration \<Rightarrow> (topic_tables, unit) txm" where
  "retrySubscription env messageID subscriberID errorMsg delay =
     stmt env (\<lambda>n t.
       ((), t\<lparr>subs := sql_update (\<lambda>s. sub_key s = (messageID, subscriberID))
                       (retry_sub errorMsg (NOW env + make_interval env delay)) (subs t)\<rparr>))"

definition deferReclaimedSubscription ::
    "env \<Rightarrow> uuid \<Rightarrow> int \<Rightarrow> duration \<Rightarrow> (topic_tables, unit) txm" where
  "deferReclaimedSubscription env subID retryCount delay =
     stmt env (\<lambda>n t.
       ((), t\<lparr>subs := sql_update (\<lambda>s. s_id s = subID)
                       (defer_sub retryCount (NOW env + make_interval env delay)) (subs t)\<rparr>))"

definition nackTopicBody ::
    "Queue \<Rightarrow> env \<Rightarrow> string \<Rightarrow> Receipt \<Rightarrow> string \<Rightarrow> duration \<Rightarrow> int \<Rightarrow> (topic_tables, unit) txm" where
  "nackTopicBody pq env subscriberID r errorMsg retryDelay maxRetry =
     bindT (getProcessingSubState env r subscriberID) (\<lambda>state.
       let retryCount = s_retry_count (fst state) in
       if retryCount + 1 > maxRetry then
         moveSubToDLQ env (MessageID r) subscriberID errorMsg state
       else
         bindT (randT env) (\<lambda>rnds.
           retrySubscription env (MessageID r) subscriberID errorMsg
             (computeRetryDelay env (backoffPolicy (cfg pq)) rnds (retryCount + 1) retryDelay)))"

definition nackTopicImpl ::
    "Queue \<Rightarrow> env \<Rightarrow> string \<Rightarrow> string \<Rightarrow> Receipt \<Rightarrow> string \<Rightarrow> duration \<Rightarrow> (sys, unit) txm" where
  "nackTopicImpl pq env topicName subscriberID r errorMsg retryDelay =
     bindT (liftE (validateSubscriberID subscriberID)) (\<lambda>_.
     bindT (notFoundAs ErrTopicNotFound (getQueueMetadata env QueueTypePubSub topicName)) (\<lambda>queueMeta.
     onDb (withTx env (onTopic env (metaTableName queueMeta)
       (nackTopicBody pq env subscriberID r (truncateErrorMsg errorMsg) retryDelay
          (resolveMaxRetries pq queueMeta))))))"

section \<open>Consuming\<close>

definition pendingSub :: "env \<Rightarrow> string \<Rightarrow> duration \<Rightarrow> sub_row \<times> topic_row \<Rightarrow> bool" where
  "pendingSub env subscriberID ttl = (\<lambda>(s, m).
     s_subscriber_id s = subscriberID \<and> s_status s = MessageStatusPending \<and>
     s_available_at s \<le> NOW env \<and> ttl_clause env ttl (t_created_at m))"

definition reclaimSub :: "env \<Rightarrow> string \<Rightarrow> duration \<Rightarrow> sub_row \<times> topic_row \<Rightarrow> bool" where
  "reclaimSub env subscriberID ttl = (\<lambda>(s, m).
     s_subscriber_id s = subscriberID \<and> s_status s = MessageStatusProcessing \<and>
     expired_at (NOW env) (s_visibility_timeout s) \<and> ttl_clause env ttl (t_created_at m))"

definition pendingSubOrder :: "sub_row \<times> topic_row \<Rightarrow> timestamp \<times> uuid" where
  "pendingSubOrder = (\<lambda>(s, m). (s_available_at s, s_message_id s))"

definition reclaimSubOrder :: "sub_row \<times> topic_row \<Rightarrow> timestamp \<times> uuid" where
  "reclaimSubOrder = (\<lambda>(s, m).
     (case s_visibility_timeout s of Some v \<Rightarrow> v | None \<Rightarrow> 0, s_message_id s))"

definition probePendingSub ::
    "env \<Rightarrow> string \<Rightarrow> duration \<Rightarrow> (topic_tables, (sub_row \<times> topic_row) option) txm" where
  "probePendingSub env subscriberID ttl =
     stmt env (\<lambda>n t.
       (sql_first pendingSubOrder
          (\<lambda>c. pendingSub env subscriberID ttl c \<and> \<not> locked env (s_id (fst c))) (joined t), t))"

definition probeReclaimSub ::
    "env \<Rightarrow> string \<Rightarrow> duration \<Rightarrow> (topic_tables, (sub_row \<times> topic_row) option) txm" where
  "probeReclaimSub env subscriberID ttl =
     stmt env (\<lambda>n t.
       (sql_first reclaimSubOrder
          (\<lambda>c. reclaimSub env subscriberID ttl c \<and> \<not> locked env (s_id (fst c))) (joined t), t))"

definition reclaimTopicAttempt ::
    "Queue \<Rightarrow> env \<Rightarrow> string \<Rightarrow> sub_row \<times> topic_row \<Rightarrow> int \<Rightarrow> (topic_tables, int \<times> bool) txm" where
  "reclaimTopicAttempt pq env subscriberID row maxRetries =
     (let retryCount = s_retry_count (fst row) in
      case s_status (fst row) of
        MessageStatusProcessing \<Rightarrow>
          if retryCount + 1 > maxRetries then
            bindT (moveSubToDLQ env (s_message_id (fst row)) subscriberID errReasonVisibilityTimeout row)
              (\<lambda>_. returnT (0, True))
          else if backoffConfigured (cfg pq) then
            bindT (randT env) (\<lambda>rnds.
              bindT (deferReclaimedSubscription env (s_id (fst row)) (retryCount + 1)
                       (computeRetryDelay env (backoffPolicy (cfg pq)) rnds (retryCount + 1) 0))
                (\<lambda>_. returnT (0, True)))
          else returnT (retryCount + 1, False)
      | MessageStatusPending \<Rightarrow> returnT (retryCount, False)
      | _ \<Rightarrow> failT ErrUnexpectedMessageStatus)"

definition claimTopicSubscription ::
    "env \<Rightarrow> duration \<Rightarrow> sub_row \<times> topic_row \<Rightarrow> int \<Rightarrow> int \<Rightarrow> (topic_tables, Message \<times> timestamp) txm" where
  "claimTopicSubscription env visibilityTimeout row retryCount maxRetries =
     bindT
       (stmtE env (\<lambda>n t.
          let deadline = NOW env + make_interval env visibilityTimeout; c = uuidv7 env n 0 in
          if \<exists>s \<in> set (subs t). s_id s = s_id (fst row) then
            Inr ((deadline, c),
                 t\<lparr>subs := sql_update (\<lambda>s. s_id s = s_id (fst row)) (claim_sub retryCount c deadline) (subs t)\<rparr>)
          else Inl sql_ErrNoRows))
       (\<lambda>(visTimeout, claimID).
          returnT
            (\<lparr>msgID = s_message_id (fst row), msgClaimID = claimID, msgPayload = t_payload (snd row),
              msgCreatedAt = t_created_at (snd row), msgStatus = MessageStatusProcessing,
              msgRetryCount = retryCount, msgMaxRetries = maxRetries, msgVisibilityTimeout = None,
              msgProcessedAt = None, msgErrorMessage = s_error_message (fst row),
              msgMetadata = parseMetadataJSON env (t_metadata (snd row)), msgReceipt = None\<rparr>,
             visTimeout))"

function fetchPendingTopicMessage ::
    "Queue \<Rightarrow> env \<Rightarrow> string \<Rightarrow> duration \<Rightarrow> duration \<Rightarrow> int \<Rightarrow> nat \<Rightarrow>
     (topic_tables, (Message \<times> timestamp) option) txm" where
  "fetchPendingTopicMessage pq env subscriberID visibilityTimeout ttl maxRetries skips =
     bindT (probePendingSub env subscriberID ttl) (\<lambda>row.
       case row of
         Some row \<Rightarrow>
           bindT (claimTopicSubscription env visibilityTimeout row (s_retry_count (fst row)) maxRetries)
             (\<lambda>m. returnT (Some m))
       | None \<Rightarrow>
           bindT (probeReclaimSub env subscriberID ttl) (\<lambda>row.
             case row of
               None \<Rightarrow> returnT None
             | Some row \<Rightarrow>
                 bindT (reclaimTopicAttempt pq env subscriberID row maxRetries) (\<lambda>(retryCount, dlqd).
                   if dlqd then
                     (if skips + 1 \<ge> maxConsumeReclaimDefers then returnT None
                      else fetchPendingTopicMessage pq env subscriberID visibilityTimeout ttl maxRetries (skips + 1))
                   else
                     bindT (claimTopicSubscription env visibilityTimeout row retryCount maxRetries)
                       (\<lambda>m. returnT (Some m)))))"
  by pat_completeness auto
termination by (relation "measure (\<lambda>(_, _, _, _, _, _, skips). maxConsumeReclaimDefers - skips)") auto

declare fetchPendingTopicMessage.simps [simp del]

definition consumeTopicPreflight :: "Queue \<Rightarrow> string \<Rightarrow> duration \<Rightarrow> ('s, unit) txm" where
  "consumeTopicPreflight pq subscriberID visibilityTimeout =
     bindT (checkClosed pq) (\<lambda>_.
     bindT (liftE (validateVisibilityTimeout visibilityTimeout)) (\<lambda>_.
     liftE (validateSubscriberID subscriberID)))"

definition consumeFromTopic ::
    "Queue \<Rightarrow> env \<Rightarrow> string \<Rightarrow> string \<Rightarrow> duration \<Rightarrow> (sys, Message option) txm" where
  "consumeFromTopic pq env topicName subscriberID visibilityTimeout =
     bindT (consumeTopicPreflight pq subscriberID visibilityTimeout) (\<lambda>_.
     bindT (notFoundAs ErrTopicNotFound (getQueueMetadata env QueueTypePubSub topicName)) (\<lambda>queueMeta.
       if metaPaused queueMeta then failT ErrQueuePaused
       else
         bindT (onDb (withTx env (onTopic env (metaTableName queueMeta)
                  (fetchPendingTopicMessage pq env subscriberID visibilityTimeout
                     (getQueueTTL pq (metaConfig queueMeta)) (resolveMaxRetries pq queueMeta) 0))))
           (\<lambda>m. returnT (map_option (\<lambda>(msg, vis). msg\<lparr>msgVisibilityTimeout := Some vis\<rparr>) m))))"

section \<open>The lease discipline on subscription rows\<close>

definition sub_row_ok :: "sub_row \<Rightarrow> bool" where
  "sub_row_ok s \<longleftrightarrow>
     (s_status s = MessageStatusPending \<longrightarrow> s_claim_id s = None \<and> s_visibility_timeout s = None) \<and>
     (s_status s = MessageStatusProcessing \<longrightarrow> s_claim_id s \<noteq> None \<and> s_visibility_timeout s \<noteq> None)"

interpretation sub_lease: leased_rows sub_key s_status s_claim_id s_visibility_timeout s_retry_count
    claim_sub ack_sub retry_sub defer_sub extend_sub live_sub sub_row_ok
  by unfold_locales
    (simp_all add: claim_sub_def ack_sub_def retry_sub_def defer_sub_def extend_sub_def sub_key_def
      live_sub_def sub_row_ok_def)

interpretation topic_scan: reclaim_scan "fetchPendingTopicMessage pq env subID vt ttl maxRetries"
    "probePendingSub env subID ttl" "probeReclaimSub env subID ttl"
    "\<lambda>row. reclaimTopicAttempt pq env subID row maxRetries"
    "\<lambda>row n. claimTopicSubscription env vt row n maxRetries" "\<lambda>row. s_retry_count (fst row)"
    for pq env subID vt ttl maxRetries
  by unfold_locales (rule fetchPendingTopicMessage.simps)

end
