(* ===== verification/Replay.thy ===== *)
theory Replay
  imports Publish Pubsub
begin

text \<open>
  \<^verbatim>\<open>replay.go\<close> and \<^verbatim>\<open>dlq.go\<close>: resetting processed messages, moving dead letters back onto their
  queue, the replay log and the listing of a dead-letter queue.  The two paged loops are partial
  functions whose \<open>None\<close> is a loop that never returns.
\<close>

record ReplayOptions =
  DryRun :: bool
  replayLimit :: int
  PerformedBy :: string

definition MaxPerformedByLen :: nat where
  "MaxPerformedByLen = 256"

text \<open>
  \<^verbatim>\<open>unicode.IsControl\<close> of some rune of a UTF-8 string: a C0 control or DEL is one byte, a C1 control
  the byte C2 followed by one of 80 to 9F.
\<close>

fun has_control :: "string \<Rightarrow> bool" where
  "has_control [] = False"
| "has_control (c # cs) =
     (let b = of_char c :: nat in
      b < 32 \<or> b = 127 \<or>
      (b = 194 \<and> (case cs of [] \<Rightarrow> False | d # _ \<Rightarrow> 128 \<le> (of_char d :: nat) \<and> (of_char d :: nat) \<le> 159)) \<or>
      has_control cs)"

definition validateReplayOpts :: "ReplayOptions \<Rightarrow> err + unit" where
  "validateReplayOpts opts =
     (if replayLimit opts < 0 then Inl ErrInvalidConfig
      else if length (PerformedBy opts) > MaxPerformedByLen then Inl ErrInvalidPerformedBy
      else if has_control (PerformedBy opts) then Inl ErrInvalidPerformedBy
      else Inr ())"

definition getReplayQueueMetadata :: "env \<Rightarrow> QueueType \<Rightarrow> string \<Rightarrow> (sys, queueMetadata) txm" where
  "getReplayQueueMetadata env qt name = getQueueMetadata env qt name"

section \<open>The replay log\<close>

definition createReplayLog ::
    "env \<Rightarrow> QueueType \<Rightarrow> string \<Rightarrow> string \<Rightarrow> ReplayDetails \<Rightarrow> int \<Rightarrow> string option \<Rightarrow> (db, unit) txm" where
  "createReplayLog env qt name replayType params messageCount createdBy =
     stmt env (\<lambda>n d.
       ((), d\<lparr>pgqueue_replay_log := pgqueue_replay_log d @
         [\<lparr>rlID = uuidv7 env n 0, rlQueueType = qt, rlQueueName = name, rlReplayType = replayType,
           rlReplayParams = params, rlMessageCount = messageCount, rlCreatedAt = NOW env,
           rlCreatedBy = createdBy\<rparr>]\<rparr>))"

definition writeReplayLog ::
    "env \<Rightarrow> string \<Rightarrow> QueueType \<Rightarrow> string \<Rightarrow> int \<Rightarrow> string \<Rightarrow> ReplayDetails \<Rightarrow> (db, unit) txm" where
  "writeReplayLog env name qt operation messageCount performedBy details =
     createReplayLog env qt name operation details messageCount
       (if performedBy = '''' then None else Some performedBy)"

definition getReplayHistory :: "env \<Rightarrow> QueueType \<Rightarrow> string \<Rightarrow> int \<Rightarrow> (db, ReplayLog list) txm" where
  "getReplayHistory env qt name limit =
     autocommit env (\<lambda>n d.
       (sql_select (\<lambda>r. - rlCreatedAt r) (nat limit) (\<lambda>r. rlQueueType r = qt \<and> rlQueueName r = name)
          (pgqueue_replay_log d), d))"

definition DefaultReplayHistoryLimit :: int where
  "DefaultReplayHistoryLimit = 100"

definition ReplayHistory :: "Queue \<Rightarrow> env \<Rightarrow> string \<Rightarrow> QueueType \<Rightarrow> int \<Rightarrow> (sys, ReplayLog list) txm" where
  "ReplayHistory pq env name qt limit =
     bindT (checkClosed pq) (\<lambda>_.
       onDb (getReplayHistory env qt name (if limit \<le> 0 then DefaultReplayHistoryLimit else limit)))"

section \<open>Keyset pages\<close>

text \<open>The zero UUID is the cursor before the first row (a NULL parameter).\<close>

definition after_cursor :: "uuid \<Rightarrow> uuid \<Rightarrow> bool" where
  "after_cursor afterID i \<longleftrightarrow> afterID = 0 \<or> afterID < i"

record replayPageResult =
  replayed :: int
  lastID :: uuid
  fetched :: int

definition defaultReplayPageSize :: int where
  "defaultReplayPageSize = 100"

text \<open>The size of the next page when \<open>used\<close> of the limit is spent; \<open>None\<close> ends the loop.\<close>

definition pageLimit :: "int \<Rightarrow> int \<Rightarrow> int option" where
  "pageLimit limit used =
     (if limit > 0 then
        (let remaining = limit - used in
         if remaining \<le> 0 then None
         else if remaining < defaultReplayPageSize then Some remaining
         else Some defaultReplayPageSize)
      else Some defaultReplayPageSize)"

section \<open>Replay since a timestamp\<close>

definition replayable :: "MessageStatus \<Rightarrow> bool" where
  "replayable st \<longleftrightarrow> st \<noteq> MessageStatusPending \<and> st \<noteq> MessageStatusProcessing"

definition countReplayableMessages :: "env \<Rightarrow> string \<Rightarrow> QueueType \<Rightarrow> timestamp \<Rightarrow> (db, int) txm" where
  "countReplayableMessages env tbl qt since =
     (if qt = QueueTypePubSub then
        onTopic env tbl (autocommit env (\<lambda>n t.
          (int (sql_count (\<lambda>(s, m). t_created_at m \<ge> since \<and> replayable (s_status s)) (joined t)), t)))
      else
        onChannel env tbl (autocommit env (\<lambda>n t.
          (int (sql_count (\<lambda>r. created_at r \<ge> since \<and> replayable (status r)) (msgs t)), t))))"

definition fetchReplayCandidateIDs ::
    "env \<Rightarrow> string \<Rightarrow> QueueType \<Rightarrow> timestamp \<Rightarrow> uuid \<Rightarrow> int \<Rightarrow> (db, uuid list) txm" where
  "fetchReplayCandidateIDs env tbl qt since afterID limit =
     (if qt = QueueTypeChannel then
        onChannel env tbl (stmt env (\<lambda>n t.
          (map id (sql_select id (nat limit)
             (\<lambda>r. created_at r \<ge> since \<and> replayable (status r) \<and> after_cursor afterID (id r)) (msgs t)), t)))
      else
        onTopic env tbl (stmt env (\<lambda>n t.
          (map (\<lambda>(s, m). s_id s) (sql_select (\<lambda>(s, m). s_id s) (nat limit)
             (\<lambda>(s, m). t_created_at m \<ge> since \<and> replayable (s_status s) \<and> after_cursor afterID (s_id s))
             (joined t)), t))))"

definition replay_row :: "channel_row \<Rightarrow> channel_row" where
  "replay_row r =
     r\<lparr>status := MessageStatusPending, retry_count := 0, visibility_timeout := None, claim_id := None,
       processed_at := None, error_message := None\<rparr>"

definition replay_sub :: "sub_row \<Rightarrow> sub_row" where
  "replay_sub s =
     s\<lparr>s_status := MessageStatusPending, s_retry_count := 0, s_visibility_timeout := None, s_claim_id := None,
       s_acked_at := None, s_error_message := None\<rparr>"

definition applyReplayFrom :: "env \<Rightarrow> string \<Rightarrow> QueueType \<Rightarrow> uuid list \<Rightarrow> (db, int) txm" where
  "applyReplayFrom env tbl qt ids =
     (if qt = QueueTypeChannel then
        onChannel env tbl (stmt env (\<lambda>n t.
          let P = (\<lambda>r. id r \<in> set ids \<and> replayable (status r)) in
          (int (sql_count P (msgs t)), t\<lparr>msgs := sql_update P replay_row (msgs t)\<rparr>)))
      else
        onTopic env tbl (stmt env (\<lambda>n t.
          let P = (\<lambda>s. s_id s \<in> set ids \<and> replayable (s_status s)) in
          (int (sql_count P (subs t)), t\<lparr>subs := sql_update P replay_sub (subs t)\<rparr>))))"

definition replayFromPage ::
    "env \<Rightarrow> string \<Rightarrow> string \<Rightarrow> QueueType \<Rightarrow> timestamp \<Rightarrow> uuid \<Rightarrow> int \<Rightarrow> string \<Rightarrow> (db, replayPageResult) txm" where
  "replayFromPage env name tbl qt since afterID limit performedBy =
     withTx env
       (bindT (fetchReplayCandidateIDs env tbl qt since afterID limit) (\<lambda>ids.
        if ids = [] then returnT \<lparr>replayed = 0, lastID = afterID, fetched = 0\<rparr>
        else
          bindT (applyReplayFrom env tbl qt ids) (\<lambda>k.
          bindT (if k > 0 then writeReplayLog env name qt ''timestamp'' k performedBy (DetailsSince since)
                 else returnT ()) (\<lambda>_.
          returnT \<lparr>replayed = k, lastID = last ids, fetched = int (length ids)\<rparr>))))"

partial_function (option) executeReplayFrom ::
    "env \<Rightarrow> string \<Rightarrow> string \<Rightarrow> QueueType \<Rightarrow> timestamp \<Rightarrow> ReplayOptions \<Rightarrow> uuid \<Rightarrow> int \<Rightarrow> nat \<times> db \<Rightarrow>
     ((int \<times> err option) \<times> nat \<times> db) option" where
  "executeReplayFrom env name tbl qt since opts afterID sofar ns =
     (case pageLimit (replayLimit opts) sofar of
        None \<Rightarrow> Some ((sofar, None), ns)
      | Some limit \<Rightarrow>
          (case replayFromPage env name tbl qt since afterID limit (PerformedBy opts) ns of
             (Inl e, ns') \<Rightarrow> Some ((sofar, Some e), ns')
           | (Inr page, ns') \<Rightarrow>
               if fetched page = 0 then Some ((sofar + replayed page, None), ns')
               else executeReplayFrom env name tbl qt since opts (lastID page) (sofar + replayed page) ns'))"

declare executeReplayFrom.simps [code]

text \<open>The checks every replay call makes before it touches the queue.\<close>

definition replayPreamble :: "Queue \<Rightarrow> env \<Rightarrow> string \<Rightarrow> QueueType \<Rightarrow> ReplayOptions \<Rightarrow> (sys, queueMetadata) txm" where
  "replayPreamble pq env name qt opts =
     bindT (checkClosed pq) (\<lambda>_.
     bindT (liftE (validateReplayOpts opts)) (\<lambda>_. getReplayQueueMetadata env qt name))"

definition ReplayFrom ::
    "Queue \<Rightarrow> env \<Rightarrow> string \<Rightarrow> QueueType \<Rightarrow> timestamp \<Rightarrow> ReplayOptions \<Rightarrow> nat \<times> sys \<Rightarrow>
     ((err + int) \<times> nat \<times> sys) option" where
  "ReplayFrom pq env name qt since opts ns =
     (case replayPreamble pq env name qt opts ns of
        (Inl e, ns') \<Rightarrow> Some (Inl e, ns')
      | (Inr meta, n', s') \<Rightarrow>
          if DryRun opts then
            Some (bindT (onDb (countReplayableMessages env (metaTableName meta) qt since)) (\<lambda>count.
              returnT (if replayLimit opts > 0 \<and> count > replayLimit opts then replayLimit opts else count)) (n', s'))
          else
            (case executeReplayFrom env name (metaTableName meta) qt since opts 0 0 (n', store s') of
               None \<Rightarrow> None
             | Some ((sofar, e), n'', d) \<Rightarrow>
                 Some ((case e of None \<Rightarrow> Inr sofar | Some e \<Rightarrow> Inl e), n'', s'\<lparr>store := d\<rparr>)))"

section \<open>Replay of one message\<close>

definition status_of :: "uuid \<Rightarrow> channel_row list \<Rightarrow> MessageStatus option" where
  "status_of messageID rows = map_option status (find (\<lambda>r. id r = messageID) rows)"

definition checkMessageExists :: "env \<Rightarrow> string \<Rightarrow> uuid \<Rightarrow> (db, unit) txm" where
  "checkMessageExists env tbl messageID =
     bindT (onChannel env tbl (autocommit env (\<lambda>n t. (status_of messageID (msgs t), t)))) (\<lambda>st.
       case st of
         None \<Rightarrow> failT ErrReplayMessageNotFound
       | Some st \<Rightarrow> if st = MessageStatusProcessing then failT ErrMessageInProcessing else returnT ())"

definition replay_now :: "timestamp \<Rightarrow> channel_row \<Rightarrow> channel_row" where
  "replay_now now r =
     r\<lparr>status := MessageStatusPending, retry_count := 0, visibility_timeout := None, claim_id := None,
       available_at := now, processed_at := None, error_message := None\<rparr>"

definition executeReplayMessage ::
    "env \<Rightarrow> string \<Rightarrow> string \<Rightarrow> QueueType \<Rightarrow> uuid \<Rightarrow> ReplayOptions \<Rightarrow> (db, unit) txm" where
  "executeReplayMessage env name tbl qt messageID opts =
     withTx env
       (bindT
          (onChannel env tbl (stmt env (\<lambda>n t.
             let P = (\<lambda>r. id r = messageID \<and> status r \<noteq> MessageStatusProcessing) in
             (sql_count P (msgs t), t\<lparr>msgs := sql_update P (replay_now (NOW env)) (msgs t)\<rparr>)))) (\<lambda>rows.
        if rows = 0 then
          bindT (onChannel env tbl (stmt env (\<lambda>n t. (status_of messageID (msgs t), t)))) (\<lambda>st.
            case st of
              None \<Rightarrow> failT ErrReplayMessageNotFound
            | Some st \<Rightarrow>
                if st = MessageStatusProcessing then failT ErrMessageInProcessing
                else failT ErrMessageInProcessing)
        else writeReplayLog env name qt ''message_id'' 1 (PerformedBy opts) (DetailsMessageID messageID)))"

definition ReplayMessage ::
    "Queue \<Rightarrow> env \<Rightarrow> string \<Rightarrow> QueueType \<Rightarrow> uuid \<Rightarrow> ReplayOptions \<Rightarrow> (sys, unit) txm" where
  "ReplayMessage pq env name qt messageID opts =
     bindT (checkClosed pq) (\<lambda>_.
     if qt = QueueTypePubSub then failT ErrReplayNotSupported
     else
       bindT (liftE (validateReplayOpts opts)) (\<lambda>_.
       bindT (getReplayQueueMetadata env qt name) (\<lambda>meta.
         if DryRun opts then onDb (checkMessageExists env (metaTableName meta) messageID)
         else onDb (executeReplayMessage env name (metaTableName meta) qt messageID opts))))"

section \<open>Replay of the dead-letter queue\<close>

record ReplayDLQResult =
  Replayed :: int
  Skipped :: int

definition fetchDLQMessages :: "env \<Rightarrow> uuid \<Rightarrow> int \<Rightarrow> dlq_row list \<Rightarrow> dlq_row list" where
  "fetchDLQMessages env afterID limit rows =
     sql_select d_id (nat (if limit \<le> 0 then defaultReplayPageSize else limit))
       (\<lambda>d. after_cursor afterID (d_id d) \<and> \<not> locked env (d_id d)) rows"

fun dedupeDLQ :: "uuid list \<Rightarrow> dlq_row list \<Rightarrow> dlq_row list" where
  "dedupeDLQ seen [] = []"
| "dedupeDLQ seen (m # ms) =
     (if d_original_message_id m \<in> set seen then dedupeDLQ seen ms
      else m # dedupeDLQ (d_original_message_id m # seen) ms)"

definition dedupeDLQByMessageID :: "dlq_row list \<Rightarrow> dlq_row list" where
  "dedupeDLQByMessageID = dedupeDLQ []"

definition dlq_prepared :: "dlq_row \<Rightarrow> uuid \<times> bytes \<times> string option" where
  "dlq_prepared d = (d_original_message_id d, d_payload d, d_metadata d)"

text \<open>The result is what \<^verbatim>\<open>RETURNING id\<close> lists: the identifiers of the rows the INSERT appended.\<close>

definition insertDLQChannelMessages :: "env \<Rightarrow> int \<Rightarrow> dlq_row list \<Rightarrow> (channel_tables, uuid list) txm" where
  "insertDLQChannelMessages env maxRetries ms =
     stmtE env (\<lambda>n t.
       if maxRetries < 0 then Inl (ErrDriver (pg_error env ''23514''))
       else
         let rows = insert_all id (map (\<lambda>d. new_channel_row env maxRetries (dlq_prepared d)) ms) (msgs t) in
         Inr (map id (drop (length (msgs t)) rows), t\<lparr>msgs := rows\<rparr>))"

definition reinsertDLQChannel :: "env \<Rightarrow> int \<Rightarrow> dlq_row list \<Rightarrow> (channel_tables, int) txm" where
  "reinsertDLQChannel env maxRetries ms =
     (if ms = [] then returnT 0
      else
        let unique = dedupeDLQByMessageID ms in
        bindT (insertDLQChannelMessages env maxRetries unique) (\<lambda>insertedIDs.
          if insertedIDs = [] then returnT 0
          else
            let dlqIDs = map d_id (filter (\<lambda>m. d_original_message_id m \<in> set insertedIDs) unique) in
            bindT (stmt env (\<lambda>n t. ((), t\<lparr>dlq := sql_delete (\<lambda>d. d_id d \<in> set dlqIDs) (dlq t)\<rparr>))) (\<lambda>_.
              returnT (int (length insertedIDs)))))"

definition filterExistingMessages :: "env \<Rightarrow> dlq_row list \<Rightarrow> (topic_tables, dlq_row list) txm" where
  "filterExistingMessages env ms =
     bindT
       (stmt env (\<lambda>n t. (filter (\<lambda>i. i \<in> d_original_message_id ` set ms) (map t_id (tmsgs t)), t)))
       (\<lambda>existing. returnT (filter (\<lambda>m. d_original_message_id m \<in> set existing) ms))"

definition addRecord :: "subRecord list \<Rightarrow> subRecord \<Rightarrow> subRecord list" where
  "addRecord records rec = (if rec \<in> set records then records else records @ [rec])"

text \<open>The active subscribers are read once, at the first row without a subscriber.\<close>

fun resolveDLQLoop ::
    "Queue \<Rightarrow> env \<Rightarrow> string \<Rightarrow> dlq_row list \<Rightarrow> subscriber list option \<Rightarrow> subRecord list \<Rightarrow> uuid list \<Rightarrow>
     (db, subRecord list \<times> uuid list) txm" where
  "resolveDLQLoop pq env name [] legacy records replayedIDs = returnT (records, replayedIDs)"
| "resolveDLQLoop pq env name (m # ms) legacy records replayedIDs =
     (case d_subscriber_id m of
        Some sid \<Rightarrow>
          resolveDLQLoop pq env name ms legacy (addRecord records (d_original_message_id m, sid))
            (replayedIDs @ [d_id m])
      | None \<Rightarrow>
          bindT (case legacy of Some ss \<Rightarrow> returnT ss | None \<Rightarrow> getActiveSubscribers pq env name) (\<lambda>ss.
            if ss = [] then resolveDLQLoop pq env name ms (Some ss) records replayedIDs
            else
              resolveDLQLoop pq env name ms (Some ss)
                (foldl (\<lambda>recs s. addRecord recs (d_original_message_id m, subSubscriberID s)) records ss)
                (replayedIDs @ [d_id m])))"

definition resolvePubSubDLQRecords ::
    "Queue \<Rightarrow> env \<Rightarrow> string \<Rightarrow> dlq_row list \<Rightarrow> (db, subRecord list \<times> uuid list) txm" where
  "resolvePubSubDLQRecords pq env name ms = resolveDLQLoop pq env name ms None [] []"

definition reinsertDLQPubSub ::
    "Queue \<Rightarrow> env \<Rightarrow> string \<Rightarrow> string \<Rightarrow> dlq_row list \<Rightarrow> (db, int) txm" where
  "reinsertDLQPubSub pq env name tbl ms =
     (if ms = [] then returnT 0
      else
        bindT (onTopic env tbl (filterExistingMessages env ms)) (\<lambda>live.
        if live = [] then returnT 0
        else
          bindT (resolvePubSubDLQRecords pq env name live) (\<lambda>(records, replayedIDs).
          if replayedIDs = [] then returnT 0
          else
            bindT (onTopic env tbl (insertSubscriptionRecords env records)) (\<lambda>_.
            bindT (onTopic env tbl (stmt env (\<lambda>n t.
              ((), t\<lparr>tdlq := sql_delete (\<lambda>d. d_id d \<in> set replayedIDs) (tdlq t)\<rparr>)))) (\<lambda>_.
            returnT (int (length replayedIDs)))))))"

definition reinsertDLQMessages ::
    "Queue \<Rightarrow> env \<Rightarrow> string \<Rightarrow> string \<Rightarrow> QueueType \<Rightarrow> int \<Rightarrow> dlq_row list \<Rightarrow> (db, int) txm" where
  "reinsertDLQMessages pq env name tbl qt maxRetries ms =
     (if qt = QueueTypePubSub then reinsertDLQPubSub pq env name tbl ms
      else onChannel env tbl (reinsertDLQChannel env maxRetries ms))"

definition selectDLQ :: "env \<Rightarrow> string \<Rightarrow> QueueType \<Rightarrow> uuid \<Rightarrow> int \<Rightarrow> (db, dlq_row list) txm" where
  "selectDLQ env tbl qt afterID limit =
     (if qt = QueueTypePubSub
      then onTopic env tbl (stmt env (\<lambda>n t. (fetchDLQMessages env afterID limit (tdlq t), t)))
      else onChannel env tbl (stmt env (\<lambda>n t. (fetchDLQMessages env afterID limit (dlq t), t))))"

text \<open>
  A transaction whose body may ask for its own rollback: \<open>(True, a)\<close> is the body that has set the
  captured result to \<open>a\<close> and returns the sentinel \<^verbatim>\<open>errDryRunRollback\<close>, which the caller drops.
\<close>

definition withTxKeep :: "env \<Rightarrow> ('s, bool \<times> 'a) txm \<Rightarrow> ('s, 'a) txm" where
  "withTxKeep env fn = (\<lambda>(n, s).
     case driver env n of
       Some flt \<Rightarrow> (Inl (fault_err flt), Suc n, s)
     | None \<Rightarrow>
         (case fn (Suc n, s) of
            (Inl e, n', _) \<Rightarrow> (Inl e, Suc n', s)
          | (Inr (True, a), n', _) \<Rightarrow> (Inr a, Suc n', s)
          | (Inr (False, a), n', s') \<Rightarrow>
              (case driver env n' of
                 Some (Fault d) \<Rightarrow> (Inl (ErrDriver d), Suc n', s)
               | Some (LostReply d) \<Rightarrow> (Inl (ErrDriver d), Suc n', s')
               | None \<Rightarrow> (Inr a, Suc n', s'))))"

definition replayDLQBody ::
    "Queue \<Rightarrow> env \<Rightarrow> string \<Rightarrow> string \<Rightarrow> QueueType \<Rightarrow> uuid \<Rightarrow> int \<Rightarrow> string \<Rightarrow> int \<Rightarrow> bool \<Rightarrow>
     (db, bool \<times> replayPageResult) txm" where
  "replayDLQBody pq env name tbl qt afterID limit performedBy maxRetries dryRun =
     bindT (selectDLQ env tbl qt afterID limit) (\<lambda>ms.
     if ms = [] then returnT (False, \<lparr>replayed = 0, lastID = afterID, fetched = 0\<rparr>)
     else
       bindT (reinsertDLQMessages pq env name tbl qt maxRetries ms) (\<lambda>k.
       bindT (if k > 0 \<and> \<not> dryRun then writeReplayLog env name qt ''dlq'' k performedBy (DetailsFromDLQ k)
              else returnT ()) (\<lambda>_.
       returnT (dryRun, \<lparr>replayed = k, lastID = d_id (last ms), fetched = int (length ms)\<rparr>))))"

definition replayDLQPage ::
    "Queue \<Rightarrow> env \<Rightarrow> string \<Rightarrow> string \<Rightarrow> QueueType \<Rightarrow> uuid \<Rightarrow> int \<Rightarrow> string \<Rightarrow> int \<Rightarrow> bool \<Rightarrow>
     (db, replayPageResult) txm" where
  "replayDLQPage pq env name tbl qt afterID limit performedBy maxRetries dryRun =
     withTxKeep env (replayDLQBody pq env name tbl qt afterID limit performedBy maxRetries dryRun)"

partial_function (option) executeReplayDLQ ::
    "Queue \<Rightarrow> env \<Rightarrow> string \<Rightarrow> string \<Rightarrow> QueueType \<Rightarrow> ReplayOptions \<Rightarrow> int \<Rightarrow> uuid \<Rightarrow> ReplayDLQResult \<Rightarrow>
     nat \<times> db \<Rightarrow> ((ReplayDLQResult \<times> err option) \<times> nat \<times> db) option" where
  "executeReplayDLQ pq env name tbl qt opts maxRetries afterID res ns =
     (case pageLimit (replayLimit opts) (Replayed res + Skipped res) of
        None \<Rightarrow> Some ((res, None), ns)
      | Some limit \<Rightarrow>
          (case replayDLQPage pq env name tbl qt afterID limit (PerformedBy opts) maxRetries (DryRun opts) ns of
             (Inl e, ns') \<Rightarrow> Some ((res, Some e), ns')
           | (Inr page, ns') \<Rightarrow>
               let res' = \<lparr>Replayed = Replayed res + replayed page,
                           Skipped = Skipped res + (fetched page - replayed page)\<rparr> in
               if fetched page = 0 then Some ((res', None), ns')
               else executeReplayDLQ pq env name tbl qt opts maxRetries (lastID page) res' ns'))"

declare executeReplayDLQ.simps [code]

definition zeroDLQResult :: ReplayDLQResult where
  "zeroDLQResult = \<lparr>Replayed = 0, Skipped = 0\<rparr>"

definition ReplayDLQ ::
    "Queue \<Rightarrow> env \<Rightarrow> string \<Rightarrow> QueueType \<Rightarrow> ReplayOptions \<Rightarrow> nat \<times> sys \<Rightarrow>
     ((ReplayDLQResult \<times> err option) \<times> nat \<times> sys) option" where
  "ReplayDLQ pq env name qt opts ns =
     (case replayPreamble pq env name qt opts ns of
        (Inl e, ns') \<Rightarrow> Some ((zeroDLQResult, Some e), ns')
      | (Inr meta, n', s') \<Rightarrow>
          (case executeReplayDLQ pq env name (metaTableName meta) qt opts (resolveMaxRetries pq meta) 0
                  zeroDLQResult (n', store s') of
             None \<Rightarrow> None
           | Some ((res, e), n'', d) \<Rightarrow>
               Some ((if e \<noteq> None \<and> DryRun opts then zeroDLQResult else res, e), n'', s'\<lparr>store := d\<rparr>)))"

section \<open>Listing dead letters\<close>

record DLQPage =
  AfterID :: uuid
  pageRows :: int

record DLQMessage =
  dmID :: uuid
  dmOriginalMessageID :: uuid
  dmPayload :: bytes
  dmFailureReason :: string
  dmRetryCount :: int
  dmMovedAt :: timestamp
  dmMetadata :: "metadata option"

definition DefaultDLQPageSize :: int where
  "DefaultDLQPageSize = 100"

definition MaxDLQPageSize :: int where
  "MaxDLQPageSize = 1000"

definition resolveDLQLimit :: "int \<Rightarrow> int" where
  "resolveDLQLimit n =
     (if n \<le> 0 then DefaultDLQPageSize else if n > MaxDLQPageSize then MaxDLQPageSize else n)"

definition scanDLQMessage :: "env \<Rightarrow> dlq_row \<Rightarrow> DLQMessage" where
  "scanDLQMessage env d =
     \<lparr>dmID = d_id d, dmOriginalMessageID = d_original_message_id d, dmPayload = d_payload d,
      dmFailureReason = d_failure_reason d, dmRetryCount = d_retry_count d, dmMovedAt = d_moved_at d,
      dmMetadata = parseMetadataJSON env (d_metadata d)\<rparr>"

definition dlqSelect :: "uuid \<Rightarrow> int \<Rightarrow> dlq_row list \<Rightarrow> dlq_row list" where
  "dlqSelect afterID limit rows = sql_select d_id (nat limit) (\<lambda>d. after_cursor afterID (d_id d)) rows"

definition ListDLQMessages ::
    "Queue \<Rightarrow> env \<Rightarrow> string \<Rightarrow> QueueType \<Rightarrow> DLQPage \<Rightarrow> (sys, DLQMessage list \<times> DLQPage) txm" where
  "ListDLQMessages pq env name qt page =
     bindT (checkClosed pq) (\<lambda>_.
     let limit = resolveDLQLimit (pageRows page) in
     bindT (cachedTableName env qt name) (\<lambda>tbl.
     bindT
       (onDb (if qt = QueueTypePubSub
              then onTopic env tbl (autocommit env (\<lambda>n t. (dlqSelect (AfterID page) limit (tdlq t), t)))
              else onChannel env tbl (autocommit env (\<lambda>n t. (dlqSelect (AfterID page) limit (dlq t), t)))))
       (\<lambda>rows.
          let messages = map (scanDLQMessage env) rows in
          returnT (messages,
            \<lparr>AfterID = (if messages = [] then AfterID page else dmID (last messages)), pageRows = limit\<rparr>))))"

end
