(* ===== verification/Admin.thy ===== *)
theory Admin
  imports Pubsub
begin

text \<open>
  Queue administration (\<^verbatim>\<open>pgqueue.go\<close>, with the metadata statements of \<^verbatim>\<open>queries.go\<close>): creating,
  deleting, pausing and listing queues.  A \<^verbatim>\<open>CREATE TABLE\<close> adds empty tables to the database; an
  index or an advisory lock is a round trip that changes no row.
\<close>

section \<open>Options\<close>

datatype QueueOption =
    WithQueueMaxMessageSize int
  | WithQueueMaxMetadataSize int
  | WithQueueTTL duration
  | WithQueueMaxRetries int

fun apply_queue_option :: "QueueOption \<Rightarrow> queueOptions \<Rightarrow> queueOptions" where
  "apply_queue_option (WithQueueMaxMessageSize n) o' = o'\<lparr>optMaxMessageSize := n\<rparr>"
| "apply_queue_option (WithQueueMaxMetadataSize n) o' = o'\<lparr>optMaxMetadataSize := n\<rparr>"
| "apply_queue_option (WithQueueTTL d) o' = o'\<lparr>optTTL := d, optTTLSet := True\<rparr>"
| "apply_queue_option (WithQueueMaxRetries n) o' = o'\<lparr>optMaxRetries := n, optMaxRetriesSet := True\<rparr>"

definition applyQueueOptions :: "QueueOption list \<Rightarrow> queueOptions" where
  "applyQueueOptions opts =
     fold apply_queue_option opts
       \<lparr>optMaxMessageSize = 0, optMaxMetadataSize = 0, optTTL = 0, optTTLSet = False,
        optMaxRetries = 0, optMaxRetriesSet = False\<rparr>"

section \<open>Creating\<close>

definition noop :: "env \<Rightarrow> (db, unit) txm" where
  "noop env = stmt env (\<lambda>n d. ((), d))"

definition checkQueueNotExists :: "env \<Rightarrow> QueueType \<Rightarrow> string \<Rightarrow> (sys, unit) txm" where
  "checkQueueNotExists env qt name = (\<lambda>ns.
     case getQueueMetadata env qt name ns of
       (Inr _, ns') \<Rightarrow> (Inl ErrQueueAlreadyExists, ns')
     | (Inl e, ns') \<Rightarrow> if errors_Is e ErrQueueNotFound then (Inr (), ns') else (Inl e, ns'))"

definition checkTableNameNotExists :: "env \<Rightarrow> string \<Rightarrow> (db, unit) txm" where
  "checkTableNameNotExists env tbl =
     bindT (stmt env (\<lambda>n d. (find (\<lambda>m. metaTableName m = tbl) (pgqueue_metadata d), d)))
       (\<lambda>row. guardT (row = None) ErrQueueAlreadyExists)"

definition countQueues :: "env \<Rightarrow> (db, int) txm" where
  "countQueues env = stmt env (\<lambda>n d. (int (length (pgqueue_metadata d)), d))"

definition enforceMaxQueues :: "Queue \<Rightarrow> env \<Rightarrow> (db, unit) txm" where
  "enforceMaxQueues pq env =
     (if maxQueues (cfg pq) \<le> 0 then returnT ()
      else bindT (noop env) (\<lambda>_.
           bindT (countQueues env) (\<lambda>count.
           guardT (\<not> count \<ge> maxQueues (cfg pq)) ErrMaxQueuesReached)))"

text \<open>
  The INSERT under the constraints of the metadata table: the primary key, the type and name, and
  the table name are unique; the server's error is translated by \<^verbatim>\<open>isUniqueViolation\<close>.
\<close>

definition insertQueueMetadata ::
    "env \<Rightarrow> QueueType \<Rightarrow> string \<Rightarrow> string \<Rightarrow> config_json \<Rightarrow> (db, queueMetadata) txm" where
  "insertQueueMetadata env qt name tbl config =
     stmtE env (\<lambda>n d.
       let meta = \<lparr>metaID = uuidv7 env n 0, metaQueueType = qt, metaQueueName = name, metaTableName = tbl,
                   metaConfig = config, metaPaused = False, metaCreatedAt = NOW env, metaUpdatedAt = NOW env\<rparr>
       in if \<exists>m \<in> set (pgqueue_metadata d). metaID m = metaID meta \<or> is_queue qt name m \<or> metaTableName m = tbl
          then Inl (ErrDriver (pg_error env pgUniqueViolation))
          else Inr (meta, d\<lparr>pgqueue_metadata := pgqueue_metadata d @ [meta]\<rparr>))"

definition createQueueMetadata ::
    "env \<Rightarrow> QueueType \<Rightarrow> string \<Rightarrow> string \<Rightarrow> config_json \<Rightarrow> (db, queueMetadata) txm" where
  "createQueueMetadata env qt name tbl config =
     mapErrT (\<lambda>e. if isUniqueViolation e then ErrQueueAlreadyExists else e)
       (insertQueueMetadata env qt name tbl config)"

fun statements :: "env \<Rightarrow> nat \<Rightarrow> (db, unit) txm" where
  "statements env 0 = returnT ()"
| "statements env (Suc k) = bindT (noop env) (\<lambda>_. statements env k)"

definition createTable :: "env \<Rightarrow> (db \<Rightarrow> db) \<Rightarrow> string \<Rightarrow> (db, unit) txm" where
  "createTable env create tbl =
     stmt env (\<lambda>n d. ((), if channels d tbl = None \<and> topics d tbl = None then create d else d))"

definition createChannelTables :: "env \<Rightarrow> string \<Rightarrow> (db, unit) txm" where
  "createChannelTables env tbl =
     bindT (createTable env (\<lambda>d. d\<lparr>channels := (channels d)(tbl \<mapsto> \<lparr>msgs = [], dlq = []\<rparr>)\<rparr>) tbl) (\<lambda>_.
     statements env (1 + length (channelIndexes tbl)))"

definition createPubSubTables :: "env \<Rightarrow> string \<Rightarrow> (db, unit) txm" where
  "createPubSubTables env tbl =
     bindT (createTable env (\<lambda>d. d\<lparr>topics := (topics d)(tbl \<mapsto> \<lparr>tmsgs = [], subs = [], tdlq = []\<rparr>)\<rparr>) tbl) (\<lambda>_.
     statements env (2 + length (pubSubIndexes tbl)))"

definition createQueueTables :: "env \<Rightarrow> QueueType \<Rightarrow> string \<Rightarrow> (db, unit) txm" where
  "createQueueTables env qt tbl =
     (if qt = QueueTypePubSub then createPubSubTables env tbl else createChannelTables env tbl)"

definition createQueueInTx ::
    "Queue \<Rightarrow> env \<Rightarrow> QueueType \<Rightarrow> string \<Rightarrow> string \<Rightarrow> config_json \<Rightarrow> (db, unit) txm" where
  "createQueueInTx pq env qt name tbl config =
     bindT (noop env) (\<lambda>_.
     bindT (enforceMaxQueues pq env) (\<lambda>_.
     bindT (createQueueMetadata env qt name tbl config) (\<lambda>_.
     createQueueTables env qt tbl)))"

definition createQueue :: "Queue \<Rightarrow> env \<Rightarrow> QueueType \<Rightarrow> string \<Rightarrow> queueOptions \<Rightarrow> (sys, unit) txm" where
  "createQueue pq env qt name opts =
     bindT (liftE (validateQueueName name)) (\<lambda>_.
     bindT (checkQueueNotExists env qt name) (\<lambda>_.
     bindT (onDb (checkTableNameNotExists env (sanitizeTableName name))) (\<lambda>_.
     onDb (withTx env (createQueueInTx pq env qt name (sanitizeTableName name) (GoodConfig opts))))))"

definition create_checked :: "Queue \<Rightarrow> env \<Rightarrow> QueueType \<Rightarrow> string \<Rightarrow> QueueOption list \<Rightarrow> (sys, unit) txm" where
  "create_checked pq env qt name opts =
     (let o' = applyQueueOptions opts in
      bindT (checkClosed pq) (\<lambda>_.
      bindT (liftE (validateMaxMessageSize (optMaxMessageSize o'))) (\<lambda>_.
      bindT (liftE (validateMaxMetadataSize (optMaxMetadataSize o'))) (\<lambda>_.
      bindT (liftE (validateMaxRetries (optMaxRetries o'))) (\<lambda>_.
      createQueue pq env qt name o')))))"

definition CreateChannel :: "Queue \<Rightarrow> env \<Rightarrow> string \<Rightarrow> QueueOption list \<Rightarrow> (sys, unit) txm" where
  "CreateChannel pq env name opts = create_checked pq env QueueTypeChannel name opts"

definition CreateTopic :: "Queue \<Rightarrow> env \<Rightarrow> string \<Rightarrow> QueueOption list \<Rightarrow> (sys, unit) txm" where
  "CreateTopic pq env name opts = create_checked pq env QueueTypePubSub name opts"

section \<open>Deleting\<close>

definition dropTables :: "env \<Rightarrow> QueueType \<Rightarrow> string \<Rightarrow> (db, unit) txm" where
  "dropTables env qt tbl =
     bindT (if qt = QueueTypePubSub then noop env else returnT ()) (\<lambda>_.
     bindT (noop env) (\<lambda>_.
     stmt env (\<lambda>n d. ((), d\<lparr>channels := (channels d)(tbl := None), topics := (topics d)(tbl := None)\<rparr>))))"

definition deleteQueueMetadata :: "env \<Rightarrow> QueueType \<Rightarrow> string \<Rightarrow> (db, unit) txm" where
  "deleteQueueMetadata env qt name =
     bindT (stmt env (\<lambda>n d. ((), d\<lparr>pgqueue_replay_log :=
              sql_delete (\<lambda>l. rlQueueType l = qt \<and> rlQueueName l = name) (pgqueue_replay_log d)\<rparr>))) (\<lambda>_.
     bindT (if qt = QueueTypePubSub
            then stmt env (\<lambda>n d. ((), d\<lparr>pgqueue_subscribers :=
                   sql_delete (\<lambda>s. subTopicName s = name) (pgqueue_subscribers d)\<rparr>))
            else returnT ()) (\<lambda>_.
     stmt env (\<lambda>n d. ((), d\<lparr>pgqueue_metadata := sql_delete (is_queue qt name) (pgqueue_metadata d)\<rparr>))))"

definition executeDelete :: "env \<Rightarrow> QueueType \<Rightarrow> string \<Rightarrow> string \<Rightarrow> (db, unit) txm" where
  "executeDelete env qt name tbl =
     bindT (noop env) (\<lambda>_.
     bindT (dropTables env qt tbl) (\<lambda>_.
     deleteQueueMetadata env qt name))"

definition invalidateQueueCaches :: "QueueType \<Rightarrow> string \<Rightarrow> (sys, unit) txm" where
  "invalidateQueueCaches qt name = onCache (\<lambda>mc. ((), cache_invalidate qt name mc))"

text \<open>
  The invalidation inside the transaction acts on the process, not on the database, and is not
  undone by a rollback; it runs only after the statements succeeded.
\<close>

definition deleteTx :: "env \<Rightarrow> QueueType \<Rightarrow> string \<Rightarrow> string \<Rightarrow> (sys, unit) txm" where
  "deleteTx env qt name tbl = (\<lambda>(n, s).
     case onDb (withTx env (executeDelete env qt name tbl)) (n, s) of
       (r, n', s') \<Rightarrow>
         if isl (fst (executeDelete env qt name tbl (Suc n, store s))) \<or> driver env n \<noteq> None then (r, n', s')
         else (r, n', s'\<lparr>mdcache := cache_invalidate qt name (mdcache s')\<rparr>))"

definition deleteQueue :: "env \<Rightarrow> QueueType \<Rightarrow> string \<Rightarrow> (sys, unit) txm" where
  "deleteQueue env qt name =
     bindT (liftE (validateQueueName name)) (\<lambda>_.
     bindT (getQueueMetadata env qt name) (\<lambda>meta.
     bindT (deleteTx env qt name (metaTableName meta)) (\<lambda>_.
     invalidateQueueCaches qt name)))"

definition DeleteTopic :: "env \<Rightarrow> string \<Rightarrow> (sys, unit) txm" where
  "DeleteTopic env name = deleteQueue env QueueTypePubSub name"

definition DeleteChannel :: "env \<Rightarrow> string \<Rightarrow> (sys, unit) txm" where
  "DeleteChannel env name = deleteQueue env QueueTypeChannel name"

section \<open>Pausing\<close>

definition setQueuePaused :: "env \<Rightarrow> string \<Rightarrow> QueueType \<Rightarrow> bool \<Rightarrow> (db, unit) txm" where
  "setQueuePaused env name qt paused =
     bindT
       (autocommit env (\<lambda>n d.
          (sql_count (is_queue qt name) (pgqueue_metadata d),
           d\<lparr>pgqueue_metadata :=
               sql_update (is_queue qt name) (\<lambda>m. m\<lparr>metaPaused := paused, metaUpdatedAt := NOW env\<rparr>)
                 (pgqueue_metadata d)\<rparr>)))
       (\<lambda>rows. guardT (rows \<noteq> 0) ErrQueueNotFound)"

definition set_paused :: "QueueType \<Rightarrow> bool \<Rightarrow> Queue \<Rightarrow> env \<Rightarrow> string \<Rightarrow> (sys, unit) txm" where
  "set_paused qt paused pq env name =
     bindT (checkClosed pq) (\<lambda>_. onDb (setQueuePaused env name qt paused))"

definition PauseChannel :: "Queue \<Rightarrow> env \<Rightarrow> string \<Rightarrow> (sys, unit) txm" where
  "PauseChannel = set_paused QueueTypeChannel True"

definition ResumeChannel :: "Queue \<Rightarrow> env \<Rightarrow> string \<Rightarrow> (sys, unit) txm" where
  "ResumeChannel = set_paused QueueTypeChannel False"

definition PauseTopic :: "Queue \<Rightarrow> env \<Rightarrow> string \<Rightarrow> (sys, unit) txm" where
  "PauseTopic = set_paused QueueTypePubSub True"

definition ResumeTopic :: "Queue \<Rightarrow> env \<Rightarrow> string \<Rightarrow> (sys, unit) txm" where
  "ResumeTopic = set_paused QueueTypePubSub False"

definition IsQueuePaused :: "Queue \<Rightarrow> env \<Rightarrow> string \<Rightarrow> QueueType \<Rightarrow> (sys, bool) txm" where
  "IsQueuePaused pq env name qt =
     bindT (checkClosed pq) (\<lambda>_.
     bindT (getQueueMetadata env qt name) (\<lambda>meta. returnT (metaPaused meta)))"

section \<open>Listing\<close>

definition listQueuesPageSize :: nat where
  "listQueuesPageSize = 1000"

definition after_key :: "uuid option \<Rightarrow> uuid \<Rightarrow> bool" where
  "after_key a i = (case a of None \<Rightarrow> True | Some x \<Rightarrow> x < i)"

definition queue_page :: "QueueType \<Rightarrow> uuid option \<Rightarrow> queueMetadata list \<Rightarrow> queueMetadata list" where
  "queue_page qt afterID rows =
     sql_select metaID listQueuesPageSize (\<lambda>m. metaQueueType m = qt \<and> after_key afterID (metaID m)) rows"

definition fetchQueueMetadataPage ::
    "env \<Rightarrow> QueueType \<Rightarrow> uuid option \<Rightarrow> (db, queueMetadata list) txm" where
  "fetchQueueMetadataPage env qt afterID =
     stmt env (\<lambda>n d. (queue_page qt afterID (pgqueue_metadata d), d))"

lemma queue_page_advances:
  assumes "length (queue_page qt a rows) \<ge> listQueuesPageSize"
  shows "length (filter (\<lambda>m. metaQueueType m = qt \<and> after_key (Some (metaID (last (queue_page qt a rows)))) (metaID m)) rows) <
         length (filter (\<lambda>m. metaQueueType m = qt \<and> after_key a (metaID m)) rows)"
proof -
  have "queue_page qt a rows \<noteq> []" using assms by (auto simp: listQueuesPageSize_def)
  then have l: "last (queue_page qt a rows) \<in> set (queue_page qt a rows)" by simp
  then have m: "last (queue_page qt a rows) \<in> set rows" "metaQueueType (last (queue_page qt a rows)) = qt"
      "after_key a (metaID (last (queue_page qt a rows)))"
    unfolding queue_page_def by (auto dest: sql_select_mem)
  let ?l = "last (queue_page qt a rows)"
  have eq: "filter (\<lambda>m. metaQueueType m = qt \<and> after_key (Some (metaID ?l)) (metaID m)) rows =
      filter (\<lambda>m. after_key (Some (metaID ?l)) (metaID m)) (filter (\<lambda>m. metaQueueType m = qt \<and> after_key a (metaID m)) rows)"
    using m(3) by (auto simp: after_key_def split: option.splits intro!: filter_cong)
  show ?thesis unfolding eq
    by (rule length_filter_less [of ?l]) (use m in \<open>simp_all add: after_key_def\<close>)
qed

text \<open>The loop of \<^verbatim>\<open>listQueuesRaw\<close> on the tables it started with, which its statements leave alone.\<close>

function list_pages ::
    "env \<Rightarrow> QueueType \<Rightarrow> uuid option \<Rightarrow> queueMetadata list \<Rightarrow> nat \<times> db \<Rightarrow>
     (err + queueMetadata list) \<times> nat \<times> db" where
  "list_pages env qt afterID items (n, d) =
     (case driver env n of
        Some flt \<Rightarrow> (Inl (fault_err flt), Suc n, d)
      | None \<Rightarrow>
          let page = queue_page qt afterID (pgqueue_metadata d); items' = items @ page in
          if length page < listQueuesPageSize then (Inr items', Suc n, d)
          else list_pages env qt (Some (metaID (last page))) items' (Suc n, d))"
  by pat_completeness auto
termination
  by (relation "measure (\<lambda>(env, qt, a, items, (n, d)).
        length (filter (\<lambda>m. metaQueueType m = qt \<and> after_key a (metaID m)) (pgqueue_metadata d)))")
    (auto intro!: queue_page_advances)

declare list_pages.simps [simp del]

definition listQueuesRaw :: "env \<Rightarrow> QueueType \<Rightarrow> (db, queueMetadata list) txm" where
  "listQueuesRaw env qt = list_pages env qt None []"

definition list_names :: "QueueType \<Rightarrow> Queue \<Rightarrow> env \<Rightarrow> (sys, string list) txm" where
  "list_names qt pq env =
     bindT (checkClosed pq) (\<lambda>_.
     bindT (onDb (listQueuesRaw env qt)) (\<lambda>rows. returnT (map metaQueueName rows)))"

definition ListTopics :: "Queue \<Rightarrow> env \<Rightarrow> (sys, string list) txm" where
  "ListTopics = list_names QueueTypePubSub"

definition ListChannels :: "Queue \<Rightarrow> env \<Rightarrow> (sys, string list) txm" where
  "ListChannels = list_names QueueTypeChannel"

end
