(* ===== verification/ChannelInv.thy ===== *)
theory ChannelInv
  imports Channel
begin

text \<open>
  The invariant of a channel's tables and the conservation of its messages, for every
  operation of \<^verbatim>\<open>channel.go\<close>: primary keys are distinct, a row's status agrees with its claim
  and deadline, the retry count of an undelivered or in-flight message never exceeds its limit,
  and stored error texts fit their column.
\<close>

definition storable :: "string \<Rightarrow> bool" where
  "storable s \<longleftrightarrow> utf8_ValidString s \<and> length s \<le> maxErrorMessageLength"

definition effective_max :: "Queue \<Rightarrow> channel_row \<Rightarrow> int" where
  "effective_max pq r = channelMaxRetries (defaultMaxRetries (cfg pq)) (max_retries r)"

definition row_good :: "Queue \<Rightarrow> channel_row \<Rightarrow> bool" where
  "row_good pq r \<longleftrightarrow>
     channel_row_ok r \<and> 0 \<le> retry_count r \<and> 0 \<le> effective_max pq r \<and>
     status r \<in> {MessageStatusPending, MessageStatusProcessing, MessageStatusCompleted} \<and>
     (status r \<noteq> MessageStatusCompleted \<longrightarrow> retry_count r \<le> effective_max pq r) \<and>
     (case error_message r of None \<Rightarrow> True | Some e \<Rightarrow> storable e)"

definition dlq_good :: "dlq_row \<Rightarrow> bool" where
  "dlq_good d \<longleftrightarrow> storable (d_failure_reason d) \<and> 0 \<le> d_retry_count d"

definition channel_inv :: "Queue \<Rightarrow> channel_tables \<Rightarrow> bool" where
  "channel_inv pq t \<longleftrightarrow>
     distinct (map id (msgs t)) \<and> distinct (map d_id (dlq t)) \<and>
     (\<forall>r \<in> set (msgs t). row_good pq r) \<and> (\<forall>d \<in> set (dlq t). dlq_good d)"

text \<open>What a channel holds: identifier, payload and metadata of every message, queued or dead.\<close>

definition contents :: "channel_tables \<Rightarrow> (uuid \<times> bytes \<times> string option) set" where
  "contents t =
     (\<lambda>r. (id r, payload r, metadata r)) ` set (msgs t) \<union>
     (\<lambda>d. (d_original_message_id d, d_payload d, d_metadata d)) ` set (dlq t)"

definition good_with :: "Queue \<Rightarrow> (uuid \<times> bytes \<times> string option) set \<Rightarrow> channel_tables \<Rightarrow> bool" where
  "good_with pq S t \<longleftrightarrow> channel_inv pq t \<and> contents t = S"

lemma storable_truncate [simp]: "storable (truncateErrorMsg s)"
  by (simp add: storable_def truncateErrorMsg_valid truncateErrorMsg_length)

section \<open>Row updates\<close>

lemmas row_update_defs =
  claim_row_def ack_row_def retry_row_def defer_row_def extend_row_def

definition keeps_content :: "(channel_row \<Rightarrow> channel_row) \<Rightarrow> bool" where
  "keeps_content f \<longleftrightarrow> (\<forall>r. id (f r) = id r \<and> payload (f r) = payload r \<and> metadata (f r) = metadata r)"

lemma keeps_content [simp]:
  "keeps_content (claim_row n c d)" "keeps_content (ack_row t)" "keeps_content (retry_row e t)"
  "keeps_content (defer_row n t)" "keeps_content (extend_row d)"
  by (simp_all add: keeps_content_def row_update_defs)

lemma effective_max_updates [simp]:
  "effective_max pq (claim_row n c d r) = effective_max pq r"
  "effective_max pq (ack_row t r) = effective_max pq r"
  "effective_max pq (retry_row e t r) = effective_max pq r"
  "effective_max pq (defer_row n t r) = effective_max pq r"
  "effective_max pq (extend_row d r) = effective_max pq r"
  by (simp_all add: effective_max_def row_update_defs)

lemma row_good_claim:
  "row_good pq r \<Longrightarrow> 0 \<le> n \<Longrightarrow> n \<le> effective_max pq r \<Longrightarrow> row_good pq (claim_row n c d r)"
  using channel_lease.row_ok_claim [of n c d r]
  by (simp add: row_good_def) (simp add: claim_row_def)

lemma row_good_ack: "row_good pq r \<Longrightarrow> row_good pq (ack_row now r)"
  using channel_lease.row_ok_ack [of now r]
  by (simp add: row_good_def) (simp add: ack_row_def)

lemma row_good_retry:
  "row_good pq r \<Longrightarrow> retry_count r + 1 \<le> effective_max pq r \<Longrightarrow> storable e \<Longrightarrow>
   row_good pq (retry_row e t r)"
  using channel_lease.row_ok_retry [of e t r]
  by (simp add: row_good_def) (simp add: retry_row_def)

lemma row_good_defer:
  "row_good pq r \<Longrightarrow> 0 \<le> n \<Longrightarrow> n \<le> effective_max pq r \<Longrightarrow> row_good pq (defer_row n t r)"
  using channel_lease.row_ok_defer [of n t r]
  by (simp add: row_good_def) (simp add: defer_row_def)

lemma row_good_extend: "row_good pq r \<Longrightarrow> live_row i c r \<Longrightarrow> row_good pq (extend_row d r)"
  using channel_lease.row_ok_extend [of i c r d]
  by (simp add: row_good_def live_row_def) (simp add: extend_row_def)

text \<open>Updating the rows a statement selects keeps the invariant when each new row is good.\<close>

lemma good_with_update:
  assumes "good_with pq S t" and "keeps_content f"
    and "\<And>r. r \<in> set (msgs t) \<Longrightarrow> P r \<Longrightarrow> row_good pq r \<Longrightarrow> row_good pq (f r)"
  shows "good_with pq S (t\<lparr>msgs := sql_update P f (msgs t)\<rparr>)"
proof -
  have "map g (sql_update P f (msgs t)) = map g (msgs t)" if "\<And>r. g (f r) = g r" for g :: "_ \<Rightarrow> 'b"
    using that by (simp add: map_sql_update)
  then have ids: "map id (sql_update P f (msgs t)) = map id (msgs t)"
    and "map (\<lambda>r. (id r, payload r, metadata r)) (sql_update P f (msgs t)) =
         map (\<lambda>r. (id r, payload r, metadata r)) (msgs t)"
    using assms(2) by (auto simp: keeps_content_def map_sql_update)
  then have "contents (t\<lparr>msgs := sql_update P f (msgs t)\<rparr>) = contents t"
    unfolding contents_def by (metis (no_types, lifting) channel_tables.select_convs(1,2)
      channel_tables.update_convs(1) channel_tables.surjective image_set)
  with assms ids show ?thesis
    by (auto simp: good_with_def channel_inv_def set_sql_update)
qed

lemma good_same_id:
  "good_with pq S t \<Longrightarrow> row \<in> set (msgs t) \<Longrightarrow> r \<in> set (msgs t) \<Longrightarrow> id r = id row \<Longrightarrow> r = row"
  by (auto simp: good_with_def channel_inv_def dest: distinct_map_unique)

lemma good_row: "good_with pq S t \<Longrightarrow> r \<in> set (msgs t) \<Longrightarrow> row_good pq r"
  by (simp add: good_with_def channel_inv_def)

lemma good_with_update_id:
  assumes "good_with pq S t" and "row \<in> set (msgs t)" and "keeps_content f"
    and "row_good pq row \<Longrightarrow> row_good pq (f row)"
  shows "good_with pq S (t\<lparr>msgs := sql_update (\<lambda>r. id r = id row) f (msgs t)\<rparr>)"
  using assms good_same_id by (intro good_with_update) blast+

section \<open>Statements\<close>

lemma hoare_classify [hoare_intro]: "hoare P (classifyChannelAckMiss env r) Q"
  unfolding classifyChannelAckMiss_def
  by (rule hoare_bind [where Q = "\<lambda>_ _. True"]) (auto intro: hoare_stmt hoare_fail)

lemma hoare_fenced:
  assumes "keeps_content f"
    and "\<And>row. row_good pq row \<Longrightarrow> live_row (MessageID r) (ClaimID r) row \<Longrightarrow> row_good pq (f row)"
  shows "hoare (good_with pq S) (fencedUpdate env r f) (\<lambda>_. good_with pq S)"
  unfolding fencedUpdate_def
proof (rule hoare_bind)
  show "hoare (good_with pq S)
     (stmt env (\<lambda>n t. let P = live_row (MessageID r) (ClaimID r) in
        (sql_count P (msgs t), t\<lparr>msgs := sql_update P f (msgs t)\<rparr>))) (\<lambda>_. good_with pq S)"
    using assms by (intro hoare_stmt) (auto simp: Let_def intro!: good_with_update)
  show "hoare (good_with pq S) (if rows = 0 then classifyChannelAckMiss env r else returnT ())
          (\<lambda>_. good_with pq S)" for rows :: nat
    by (intro hoare_if hoare_classify hoare_return)
qed

lemma good_with_delete:
  assumes "good_with pq S t" and "row \<in> set (msgs t)"
    and "(id row, payload row, metadata row) \<in>
           (\<lambda>d. (d_original_message_id d, d_payload d, d_metadata d)) ` set (dlq t)"
  shows "good_with pq S (t\<lparr>msgs := sql_delete (\<lambda>r. id r = id row) (msgs t)\<rparr>)"
proof -
  have "r = row" if "r \<in> set (msgs t)" "id r = id row" for r
    using assms that good_same_id by blast
  then have "contents (t\<lparr>msgs := sql_delete (\<lambda>r. id r = id row) (msgs t)\<rparr>) = contents t"
    using assms(3) unfolding contents_def by fastforce
  with assms show ?thesis by (auto simp: good_with_def channel_inv_def)
qed

lemma hoare_moveToDLQ:
  "hoare (\<lambda>t. good_with pq S t \<and> row \<in> set (msgs t) \<and> 0 \<le> n)
     (moveToDLQ env (id row) e (payload row) n (metadata row)) (\<lambda>_. good_with pq S)"
  unfolding moveToDLQ_def
proof (rule hoare_bind)
  let ?dead = "\<lambda>t. (\<lambda>d. (d_original_message_id d, d_payload d, d_metadata d)) ` set (dlq t)"
  show "hoare (\<lambda>t. good_with pq S t \<and> row \<in> set (msgs t) \<and> 0 \<le> n)
     (stmtE env (\<lambda>k t.
          case insert_dlq env
                 \<lparr>d_id = uuidv7 env k 0, d_original_message_id = id row, d_subscriber_id = None,
                  d_payload = payload row, d_failure_reason = truncateErrorMsg e,
                  d_retry_count = n, d_moved_at = NOW env, d_metadata = metadata row\<rparr>
                 (dlq t) of
            Inl e \<Rightarrow> Inl e
          | Inr rows \<Rightarrow> Inr ((), t\<lparr>dlq := rows\<rparr>)))
     (\<lambda>_ t. good_with pq S t \<and> row \<in> set (msgs t) \<and> (id row, payload row, metadata row) \<in> ?dead t)"
    by (rule hoare_stmtE)
      (auto simp: dlq_good_def good_with_def channel_inv_def contents_def insert_dlq_def
        split: sum.splits if_splits)
  show "hoare (\<lambda>t. good_with pq S t \<and> row \<in> set (msgs t) \<and> (id row, payload row, metadata row) \<in> ?dead t)
          (stmt env (\<lambda>k t. ((), t\<lparr>msgs := sql_delete (\<lambda>r. id r = id row) (msgs t)\<rparr>)))
          (\<lambda>_. good_with pq S)"
    by (rule hoare_stmt) (auto intro!: good_with_delete)
qed

lemma hoare_retryMessage:
  "storable e \<Longrightarrow>
   hoare (\<lambda>t. good_with pq S t \<and> row \<in> set (msgs t) \<and> retry_count row + 1 \<le> effective_max pq row)
     (retryMessage env (id row) e delay) (\<lambda>_. good_with pq S)"
  unfolding retryMessage_def
  by (rule hoare_stmt) (auto intro!: good_with_update_id row_good_retry)

lemma hoare_defer:
  "hoare (\<lambda>t. good_with pq S t \<and> row \<in> set (msgs t) \<and> 0 \<le> n \<and> n \<le> effective_max pq row)
     (deferReclaimedChannelMessage env (id row) n delay) (\<lambda>_. good_with pq S)"
  unfolding deferReclaimedChannelMessage_def
  by (rule hoare_stmt) (auto intro!: good_with_update_id row_good_defer)

lemma hoare_claim:
  "hoare (\<lambda>t. good_with pq S t \<and> row \<in> set (msgs t) \<and> 0 \<le> n \<and> n \<le> effective_max pq row)
     (claimChannelMessage pq env vt row n)
     (\<lambda>(m, _) t. good_with pq S t \<and> msgID m = id row \<and> msgRetryCount m = n \<and>
        msgMaxRetries m = effective_max pq row \<and>
        (\<exists>r \<in> set (msgs t). live_row (msgID m) (msgClaimID m) r))"
  unfolding claimChannelMessage_def
proof (rule hoare_bind)
  show "hoare (\<lambda>t. good_with pq S t \<and> row \<in> set (msgs t) \<and> 0 \<le> n \<and> n \<le> effective_max pq row)
     (stmtE env (\<lambda>k t.
          let deadline = NOW env + make_interval env vt; c = uuidv7 env k 0 in
          if \<exists>r \<in> set (msgs t). id r = id row then
            Inr ((deadline, c),
                 t\<lparr>msgs := sql_update (\<lambda>r. id r = id row) (claim_row n c deadline) (msgs t)\<rparr>)
          else Inl sql_ErrNoRows))
     (\<lambda>(d, c) t. good_with pq S t \<and> (\<exists>r \<in> set (msgs t). live_row (id row) c r))"
  proof (rule hoare_stmtE, clarsimp simp: Let_def split: if_splits, intro conjI)
    fix k t r
    assume t: "good_with pq S t" "row \<in> set (msgs t)" "0 \<le> n" "n \<le> effective_max pq row"
    let ?c = "claim_row n (uuidv7 env k 0) (NOW env + make_interval env vt)"
    show "good_with pq S (t\<lparr>msgs := sql_update (\<lambda>r. id r = id row) ?c (msgs t)\<rparr>)"
      using t by (intro good_with_update_id row_good_claim) auto
    have "?c row \<in> set (sql_update (\<lambda>r. id r = id row) ?c (msgs t))"
      using t(2) by (force simp: set_sql_update)
    then show "\<exists>r \<in> set (sql_update (\<lambda>r. id r = id row) ?c (msgs t)). live_row (id row) (uuidv7 env k 0) r"
      using channel_lease.live_claim by blast
  qed
qed (auto simp: effective_max_def intro!: hoare_return)

section \<open>Operations\<close>

lemma hoare_getProcessingMessageState:
  "hoare (good_with pq S) (getProcessingMessageState env r)
     (\<lambda>row t. good_with pq S t \<and> row \<in> set (msgs t) \<and> live_row (MessageID r) (ClaimID r) row)"
  unfolding getProcessingMessageState_def
proof (rule hoare_bind)
  show "hoare (good_with pq S)
     (stmt env (\<lambda>n t. (find (live_row (MessageID r) (ClaimID r)) (msgs t), t)))
     (\<lambda>row t. good_with pq S t \<and>
        (\<forall>x. row = Some x \<longrightarrow> x \<in> set (msgs t) \<and> live_row (MessageID r) (ClaimID r) x))"
    by (rule hoare_stmt) (auto simp: find_Some_iff)
qed (auto split: option.split intro!: hoare_classify hoare_return)

lemma hoare_handleNack:
  assumes "storable e"
  shows "hoare (\<lambda>t. good_with pq S t \<and> row \<in> set (msgs t))
           (handleNack pq env (id row) e row delay) (\<lambda>_. good_with pq S)"
  unfolding handleNack_def Let_def effective_max_def [symmetric]
proof (rule hoare_if)
  show "hoare (\<lambda>t. good_with pq S t \<and> row \<in> set (msgs t))
     (moveToDLQ env (id row) e (payload row) (retry_count row + 1) (metadata row)) (\<lambda>_. good_with pq S)"
    by (rule hoare_pre [OF hoare_moveToDLQ])
      (auto simp: row_good_def dest: good_row)
next
  assume "\<not> effective_max pq row < retry_count row + 1"
  then show "hoare (\<lambda>t. good_with pq S t \<and> row \<in> set (msgs t))
     (bindT (randT env) (\<lambda>rnds. retryMessage env (id row) e
        (computeRetryDelay env (backoffPolicy (cfg pq)) rnds (retry_count row + 1) delay)))
     (\<lambda>_. good_with pq S)"
    using assms
    by (intro hoare_bind [OF hoare_rand] hoare_pre [OF hoare_retryMessage]) auto
qed

lemma hoare_nackChannelBody:
  assumes "storable e"
  shows "hoare (good_with pq S) (nackChannelBody pq env r e delay) (\<lambda>_. good_with pq S)"
  unfolding nackChannelBody_def
proof (rule hoare_bind [OF hoare_getProcessingMessageState])
  fix row
  show "hoare (\<lambda>t. good_with pq S t \<and> row \<in> set (msgs t) \<and> live_row (MessageID r) (ClaimID r) row)
          (handleNack pq env (MessageID r) e row delay) (\<lambda>_. good_with pq S)"
  proof (cases "id row = MessageID r")
    case True
    then show ?thesis using hoare_handleNack [OF assms, of pq S row env delay]
      by (auto elim: hoare_pre)
  next
    case False
    then show ?thesis by (auto simp: hoare_def live_row_def)
  qed
qed

lemma hoare_reclaim:
  "hoare (\<lambda>t. good_with pq S t \<and> row \<in> set (msgs t)) (reclaimChannelAttempt pq env row)
     (\<lambda>(n, deferred) t. good_with pq S t \<and>
        (\<not> deferred \<longrightarrow> row \<in> set (msgs t) \<and> 0 \<le> n \<and> n \<le> effective_max pq row))"
proof (cases "status row")
  case MessageStatusPending
  then show ?thesis
    by (auto simp: reclaimChannelAttempt_def row_good_def intro!: hoare_return dest: good_row)
next
  case MessageStatusProcessing
  have ok: "0 \<le> retry_count row + 1" if "good_with pq S t" "row \<in> set (msgs t)" for t
    using good_row [OF that] by (simp add: row_good_def)
  show ?thesis
    unfolding reclaimChannelAttempt_def MessageStatusProcessing MessageStatus.case Let_def
      effective_max_def [symmetric]
    by (intro hoare_if hoare_bind [OF hoare_pre [OF hoare_moveToDLQ]] hoare_bind [OF hoare_rand]
        hoare_bind [OF hoare_pre [OF hoare_defer]] hoare_return) (auto simp: ok)
qed (auto simp: reclaimChannelAttempt_def intro: hoare_fail)

lemma hoare_probes:
  "hoare (good_with pq S) (probePending env ttl)
     (\<lambda>row t. good_with pq S t \<and>
        (\<forall>r. row = Some r \<longrightarrow> r \<in> set (msgs t) \<and> pendingQuery env ttl r))"
  "hoare (good_with pq S) (probeReclaim env ttl)
     (\<lambda>row t. good_with pq S t \<and>
        (\<forall>r. row = Some r \<longrightarrow> r \<in> set (msgs t) \<and> reclaimQuery env ttl r))"
  unfolding probePending_def probeReclaim_def
  by (rule hoare_stmt; auto dest: sql_first_Some)+

definition delivered :: "Queue \<Rightarrow> (Message \<times> timestamp) option \<Rightarrow> channel_tables \<Rightarrow> bool" where
  "delivered pq m t \<longleftrightarrow>
     (case m of
        None \<Rightarrow> True
      | Some (m, _) \<Rightarrow>
          0 \<le> msgRetryCount m \<and> msgRetryCount m \<le> msgMaxRetries m \<and>
          (\<exists>r \<in> set (msgs t). live_row (msgID m) (msgClaimID m) r))"

lemma hoare_claim_delivered:
  "hoare (\<lambda>t. good_with pq S t \<and> row \<in> set (msgs t) \<and> 0 \<le> n \<and> n \<le> effective_max pq row)
     (claimChannelMessage pq env vt row n) (\<lambda>m t. good_with pq S t \<and> delivered pq (Some m) t)"
proof (cases "0 \<le> n \<and> n \<le> effective_max pq row")
  case True
  then show ?thesis by (intro hoare_post [OF hoare_claim]) (auto simp: delivered_def)
qed (auto simp: hoare_def)

lemma hoare_fetch:
  assumes "defers < maxConsumeReclaimDefers"
  shows "hoare (good_with pq S) (fetchPendingChannelMessage pq env vt ttl defers)
     (\<lambda>m t. good_with pq S t \<and> delivered pq m t)"
proof (rule channel_scan.scan_hoare [where I = "\<lambda>_. good_with pq S"
      and CL = "\<lambda>row n t. row \<in> set (msgs t) \<and> 0 \<le> n \<and> n \<le> effective_max pq row",
      OF hoare_probes(1) hoare_probes(2) _ _ _ _ assms])
  show "hoare (\<lambda>t. good_with pq S t \<and> r \<in> set (msgs t) \<and> pendingQuery env ttl r)
     (claimChannelMessage pq env vt r (retry_count r)) (\<lambda>m t. good_with pq S t \<and> delivered pq (Some m) t)" for r
    by (rule hoare_pre [OF hoare_claim_delivered]) (auto simp: row_good_def pendingQuery_def dest: good_row)
  show "hoare (\<lambda>t. good_with pq S t \<and> r \<in> set (msgs t) \<and> reclaimQuery env ttl r)
     (reclaimChannelAttempt pq env r)
     (\<lambda>(n, deferred) t. if deferred then good_with pq S t
        else good_with pq S t \<and> r \<in> set (msgs t) \<and> 0 \<le> n \<and> n \<le> effective_max pq r)" for r
    by (rule hoare_post [OF hoare_pre [OF hoare_reclaim]]) (auto split: if_splits)
qed (rule hoare_claim_delivered, simp add: delivered_def)

lemma hoare_ack: "hoare (good_with pq S) (fencedUpdate env r (ack_row now)) (\<lambda>_. good_with pq S)"
  by (rule hoare_fenced) (auto intro: row_good_ack)

lemma hoare_extend: "hoare (good_with pq S) (fencedUpdate env r (extend_row d)) (\<lambda>_. good_with pq S)"
  by (rule hoare_fenced) (auto intro: row_good_extend)

end
