(* ===== verification/ChannelSpec.thy ===== *)
theory ChannelSpec
  imports ChannelInv Sample
begin

text \<open>
  What the channel operations compute when the database answers every call: the functional
  behaviour of acknowledging, extending, nacking and consuming, branch by branch, stated for
  the public operations on a process state.
\<close>

text \<open>The tables of the channel that the metadata table has under a name.\<close>

definition channel_of :: "sys \<Rightarrow> string \<Rightarrow> channel_tables option" where
  "channel_of s name =
     (case find (is_queue QueueTypeChannel name) (pgqueue_metadata (store s)) of
        None \<Rightarrow> None
      | Some meta \<Rightarrow> channels (store s) (metaTableName meta))"

definition put_channel :: "string \<Rightarrow> channel_tables \<Rightarrow> db \<Rightarrow> db" where
  "put_channel tbl t d = d\<lparr>channels := (channels d)(tbl \<mapsto> t)\<rparr>"

section \<open>Running a transaction on a channel\<close>

lemma withTx_onChannel:
  assumes "no_faults env" and "channels d tbl = Some t"
  shows "withTx env (onChannel env tbl m) (n, d) =
           (case m (Suc n, t) of
              (Inl e, n', _) \<Rightarrow> (Inl e, Suc n', d)
            | (Inr a, n', t') \<Rightarrow> (Inr a, Suc n', put_channel tbl t' d))"
  using assms by (simp add: withTx_ok onChannel_def put_channel_def split: prod.split sum.split)

lemma put_channel_same: "channels d tbl = Some t \<Longrightarrow> put_channel tbl t d = d"
  by (simp add: put_channel_def fun_upd_idem)

lemma channel_ofE:
  assumes "channel_of s name = Some t"
  obtains meta where "find (is_queue QueueTypeChannel name) (pgqueue_metadata (store s)) = Some meta"
    and "channels (store s) (metaTableName meta) = Some t"
  using assms by (auto simp: channel_of_def split: option.splits)

lemma channel_of_put:
  assumes "find (is_queue QueueTypeChannel name) (pgqueue_metadata (store s)) = Some meta"
    and "store s' = put_channel (metaTableName meta) t (store s)"
  shows "channel_of s' name = Some t"
  using assms by (simp add: channel_of_def put_channel_def)

lemma channel_of_store: "store s' = store s \<Longrightarrow> channel_of s' name = channel_of s name"
  by (simp add: channel_of_def split: option.split)

text \<open>An operation that looks the table name up in the cache and runs one transaction.\<close>

lemma cached_operation:
  assumes "coherent s" and "no_faults env" and "channel_of s name = Some t"
  shows "\<exists>k. (case bindT (notFoundAs ErrChannelNotFound (cachedTableName env QueueTypeChannel name))
                 (\<lambda>tbl. onDb (withTx env (onChannel env tbl m))) (n, s) of
           (r, _, s') \<Rightarrow>
             r = fst (m (k, t)) \<and>
             channel_of s' name = Some (case m (k, t) of (Inl _, _, _) \<Rightarrow> t | (Inr _, _, t') \<Rightarrow> t'))"
proof -
  obtain meta where meta: "find (is_queue QueueTypeChannel name) (pgqueue_metadata (store s)) = Some meta"
      "channels (store s) (metaTableName meta) = Some t"
    using assms(3) by (rule channel_ofE)
  obtain n' s' where c: "cachedTableName env QueueTypeChannel name (n, s) = (Inr (metaTableName meta), n', s')"
    using cachedTableName_coherent [OF assms(1,2) meta(1)] by blast
  then have st: "store s' = store s" by (rule cachedTableName_store)
  let ?run = "m (Suc n', t)"
  have "withTx env (onChannel env (metaTableName meta) m) (n', store s') =
          (case ?run of (Inl e, n'', _) \<Rightarrow> (Inl e, Suc n'', store s)
           | (Inr a, n'', t') \<Rightarrow> (Inr a, Suc n'', put_channel (metaTableName meta) t' (store s)))"
    unfolding st by (rule withTx_onChannel [OF assms(2) meta(2)])
  then show ?thesis
    using meta st assms(3)
    by (intro exI [of _ "Suc n'"])
      (auto simp: notFoundAs_def tx_simps c channel_of_def put_channel_def split: prod.splits sum.splits)
qed

text \<open>An operation that reads the metadata first.\<close>

lemma metadata_operation:
  assumes "no_faults env" and "channel_of s name = Some t"
    and "find (is_queue QueueTypeChannel name) (pgqueue_metadata (store s)) = Some meta"
  shows "\<exists>k s'. store s' = store s \<and>
           bindT (notFoundAs ErrChannelNotFound (getQueueMetadata env QueueTypeChannel name)) f (n, s) =
             f meta (k, s')"
  using assms
  by (intro exI [of _ "Suc n"] exI [of _ "s\<lparr>mdcache := cache_set (time_Now env) QueueTypeChannel name
        (metaTableName meta) (mdcache s)\<rparr>"])
    (simp add: notFoundAs_def tx_simps getQueueMetadata_ok)

section \<open>Acknowledging and extending\<close>

definition claimed :: "Receipt \<Rightarrow> channel_tables \<Rightarrow> bool" where
  "claimed r t \<longleftrightarrow> (\<exists>row \<in> set (msgs t). live_row (MessageID r) (ClaimID r) row)"

definition miss_reason :: "Receipt \<Rightarrow> channel_tables \<Rightarrow> err" where
  "miss_reason r t =
     classifyClaimMiss status claim_id (find (\<lambda>row. id row = MessageID r) (msgs t)) (ClaimID r)"

lemma classify_run:
  "no_faults env \<Longrightarrow> classifyChannelAckMiss env r (n, t) = (Inl (miss_reason r t), Suc n, t)"
  by (simp add: classifyChannelAckMiss_def miss_reason_def tx_simps)

lemma fenced_run:
  assumes "no_faults env"
  shows "fencedUpdate env r f (n, t) =
           (if claimed r t
            then (Inr (), Suc n, t\<lparr>msgs := sql_update (live_row (MessageID r) (ClaimID r)) f (msgs t)\<rparr>)
            else (Inl (miss_reason r t), Suc (Suc n), t))"
proof (cases "claimed r t")
  case True
  then have "sql_count (live_row (MessageID r) (ClaimID r)) (msgs t) \<noteq> 0"
    by (simp add: claimed_def sql_count_0)
  with True assms show ?thesis by (simp add: fencedUpdate_def tx_simps Let_def)
next
  case False
  then have none: "\<forall>row \<in> set (msgs t). \<not> live_row (MessageID r) (ClaimID r) row"
    by (simp add: claimed_def)
  then have "sql_count (live_row (MessageID r) (ClaimID r)) (msgs t) = 0"
    by (simp add: sql_count_0)
  with none False assms show ?thesis
    by (simp add: fencedUpdate_def tx_simps Let_def sql_update_none classify_run)
qed

section \<open>Nacking\<close>

definition exhausted :: "Queue \<Rightarrow> channel_row \<Rightarrow> bool" where
  "exhausted pq row \<longleftrightarrow> retry_count row + 1 > effective_max pq row"

definition dead_letter :: "env \<Rightarrow> nat \<Rightarrow> string \<Rightarrow> channel_row \<Rightarrow> dlq_row" where
  "dead_letter env n e row =
     \<lparr>d_id = uuidv7 env n 0, d_original_message_id = id row, d_subscriber_id = None,
      d_payload = payload row, d_failure_reason = truncateErrorMsg e,
      d_retry_count = retry_count row + 1, d_moved_at = NOW env, d_metadata = metadata row\<rparr>"

lemma moveToDLQ_run:
  assumes "no_faults env" and "uuidv7 env n 0 \<notin> d_id ` set (dlq t)"
  shows "moveToDLQ env (id row) e (payload row) (retry_count row + 1) (metadata row) (n, t) =
           (Inr (), Suc (Suc n),
            t\<lparr>dlq := dlq t @ [dead_letter env n e row], msgs := sql_delete (\<lambda>r. id r = id row) (msgs t)\<rparr>)"
  using assms by (simp add: moveToDLQ_def tx_simps insert_dlq_def dead_letter_def)

lemma find_live:
  assumes "distinct (map id (msgs t))" and "row \<in> set (msgs t)" and "live_row i c row"
  shows "find (live_row i c) (msgs t) = Some row"
proof -
  obtain x where x: "find (live_row i c) (msgs t) = Some x"
    using assms by (metis find_None_iff not_None_eq)
  then have "x \<in> set (msgs t)" "live_row i c x" by (auto simp: find_Some_iff)
  then have "x = row" using assms by (auto simp: live_row_def dest: distinct_map_unique)
  with x show ?thesis by simp
qed

lemma nack_stale:
  assumes "no_faults env" and "\<not> claimed r t"
  shows "nackChannelBody pq env r e delay (n, t) = (Inl (miss_reason r t), Suc (Suc n), t)"
proof -
  have "find (live_row (MessageID r) (ClaimID r)) (msgs t) = None"
    using assms(2) by (simp add: find_None_iff claimed_def)
  with assms(1) show ?thesis
    by (simp add: nackChannelBody_def getProcessingMessageState_def tx_simps classify_run)
qed

lemma nack_retry:
  assumes "no_faults env" and "distinct (map id (msgs t))" and "row \<in> set (msgs t)"
    and "live_row (MessageID r) (ClaimID r) row" and "\<not> exhausted pq row"
  shows "nackChannelBody pq env r e delay (n, t) =
           (Inr (), Suc (Suc n),
            t\<lparr>msgs := sql_update (\<lambda>x. id x = MessageID r)
                        (retry_row e (NOW env + make_interval env
                           (computeRetryDelay env (backoffPolicy (cfg pq)) (rand_Float64 env (Suc n))
                              (retry_count row + 1) delay))) (msgs t)\<rparr>)"
  using assms find_live [OF assms(2-4)]
  by (simp add: nackChannelBody_def getProcessingMessageState_def tx_simps handleNack_def Let_def
      retryMessage_def exhausted_def effective_max_def)

lemma nack_dead:
  assumes "no_faults env" and "distinct (map id (msgs t))" and "row \<in> set (msgs t)"
    and "live_row (MessageID r) (ClaimID r) row" and "exhausted pq row"
    and "uuidv7 env (Suc n) 0 \<notin> d_id ` set (dlq t)"
  shows "nackChannelBody pq env r e delay (n, t) =
           (Inr (), Suc (Suc (Suc n)),
            t\<lparr>dlq := dlq t @ [dead_letter env (Suc n) e row],
              msgs := sql_delete (\<lambda>x. id x = MessageID r) (msgs t)\<rparr>)"
proof -
  have i: "MessageID r = id row" using assms(4) by (simp add: live_row_def)
  show ?thesis
    using assms find_live [OF assms(2-4)] moveToDLQ_run [OF assms(1), of "Suc n" t row e]
    by (simp add: nackChannelBody_def getProcessingMessageState_def tx_simps handleNack_def Let_def
        exhausted_def effective_max_def i)
qed

section \<open>Consuming\<close>

definition message_of :: "Queue \<Rightarrow> env \<Rightarrow> channel_row \<Rightarrow> int \<Rightarrow> uuid \<Rightarrow> Message" where
  "message_of pq env row n c =
     \<lparr>msgID = id row, msgClaimID = c, msgPayload = payload row, msgCreatedAt = created_at row,
      msgStatus = MessageStatusProcessing, msgRetryCount = n, msgMaxRetries = effective_max pq row,
      msgVisibilityTimeout = None, msgProcessedAt = processed_at row,
      msgErrorMessage = error_message row, msgMetadata = parseMetadataJSON env (metadata row),
      msgReceipt = None\<rparr>"

definition next_pending :: "env \<Rightarrow> duration \<Rightarrow> channel_tables \<Rightarrow> channel_row option" where
  "next_pending env ttl t =
     sql_first pendingOrder (\<lambda>r. pendingQuery env ttl r \<and> \<not> locked env (id r)) (msgs t)"

definition next_reclaim :: "env \<Rightarrow> duration \<Rightarrow> channel_tables \<Rightarrow> channel_row option" where
  "next_reclaim env ttl t =
     sql_first reclaimOrder (\<lambda>r. reclaimQuery env ttl r \<and> \<not> locked env (id r)) (msgs t)"

text \<open>What the two probes are meant to find, said without the queries: a message that is due, a
  delivery that has timed out, and the first row of a table in an order.\<close>

definition due :: "env \<Rightarrow> duration \<Rightarrow> channel_row \<Rightarrow> bool" where
  "due env ttl r \<longleftrightarrow>
     status r = MessageStatusPending \<and> available_at r \<le> NOW env \<and> \<not> locked env (id r) \<and>
     (ttl > 0 \<longrightarrow> created_at r > NOW env - make_interval env ttl)"

definition lapsed :: "env \<Rightarrow> duration \<Rightarrow> channel_row \<Rightarrow> bool" where
  "lapsed env ttl r \<longleftrightarrow>
     status r = MessageStatusProcessing \<and> \<not> locked env (id r) \<and>
     (\<exists>v. visibility_timeout r = Some v \<and> v < NOW env) \<and>
     (ttl > 0 \<longrightarrow> created_at r > NOW env - make_interval env ttl)"

definition first_by :: "('r \<Rightarrow> 'k::linorder) \<Rightarrow> ('r \<Rightarrow> bool) \<Rightarrow> 'r list \<Rightarrow> 'r \<Rightarrow> bool" where
  "first_by key P rows r \<longleftrightarrow> r \<in> set rows \<and> P r \<and> (\<forall>r' \<in> set rows. P r' \<longrightarrow> key r \<le> key r')"

lemma due_iff: "due env ttl r \<longleftrightarrow> pendingQuery env ttl r \<and> \<not> locked env (id r)"
  by (auto simp: due_def pendingQuery_def ttl_clause_def)

lemma lapsed_iff: "lapsed env ttl r \<longleftrightarrow> reclaimQuery env ttl r \<and> \<not> locked env (id r)"
  by (auto simp: lapsed_def reclaimQuery_def ttl_clause_def expired_at_def split: option.splits)

lemma next_pending_first:
  assumes "next_pending env ttl t = Some row"
  shows "first_by (\<lambda>r. (available_at r, id r)) (due env ttl) (msgs t) row"
  using sql_first_Some [OF assms [unfolded next_pending_def]]
  by (simp add: first_by_def due_iff pendingOrder_def)

lemma next_pending_none: "next_pending env ttl t = None \<Longrightarrow> \<not> (\<exists>r \<in> set (msgs t). due env ttl r)"
  by (simp add: next_pending_def sql_first_None due_iff)

lemma next_reclaim_first:
  assumes "next_reclaim env ttl t = Some row"
  shows "first_by (\<lambda>r. (the (visibility_timeout r), id r)) (lapsed env ttl) (msgs t) row"
proof -
  have "reclaimOrder r = (the (visibility_timeout r), id r)" if "lapsed env ttl r" for r
    using that by (auto simp: lapsed_def reclaimOrder_def)
  then show ?thesis
    using sql_first_Some [OF assms [unfolded next_reclaim_def]] by (simp add: first_by_def lapsed_iff)
qed

lemma next_reclaim_none: "next_reclaim env ttl t = None \<Longrightarrow> \<not> (\<exists>r \<in> set (msgs t). lapsed env ttl r)"
  by (simp add: next_reclaim_def sql_first_None lapsed_iff)

lemmas next_probes = next_pending_first next_pending_none next_reclaim_first next_reclaim_none

lemma claim_run:
  assumes "no_faults env" and "row \<in> set (msgs t)"
  shows "claimChannelMessage pq env vt row k (n, t) =
           (Inr (message_of pq env row k (uuidv7 env n 0), NOW env + make_interval env vt), Suc n,
            t\<lparr>msgs := sql_update (\<lambda>r. id r = id row)
                        (claim_row k (uuidv7 env n 0) (NOW env + make_interval env vt)) (msgs t)\<rparr>)"
  using assms by (auto simp: claimChannelMessage_def tx_simps Let_def message_of_def effective_max_def)

lemma fetch_pending:
  assumes "no_faults env" and "next_pending env ttl t = Some row"
  shows "fetchPendingChannelMessage pq env vt ttl defers (n, t) =
           (Inr (Some (message_of pq env row (retry_count row) (uuidv7 env (Suc n) 0),
                       NOW env + make_interval env vt)), Suc (Suc n),
            t\<lparr>msgs := sql_update (\<lambda>r. id r = id row)
                        (claim_row (retry_count row) (uuidv7 env (Suc n) 0)
                           (NOW env + make_interval env vt)) (msgs t)\<rparr>)"
proof -
  have "row \<in> set (msgs t)" using assms(2) by (auto simp: next_pending_def dest: sql_first_Some)
  with assms show ?thesis
    by (subst fetchPendingChannelMessage.simps)
      (simp add: bindT_app probePending_def stmt_ok next_pending_def claim_run)
qed

lemma fetch_empty:
  assumes "no_faults env" and "next_pending env ttl t = None" and "next_reclaim env ttl t = None"
  shows "fetchPendingChannelMessage pq env vt ttl defers (n, t) = (Inr None, Suc (Suc n), t)"
  using assms
  by (subst fetchPendingChannelMessage.simps)
    (simp add: bindT_app probePending_def probeReclaim_def stmt_ok next_pending_def next_reclaim_def)

lemma fetch_reclaim:
  assumes "no_faults env" and "next_pending env ttl t = None" and "next_reclaim env ttl t = Some row"
    and "\<not> exhausted pq row" and "\<not> backoffConfigured (cfg pq)"
  shows "fetchPendingChannelMessage pq env vt ttl defers (n, t) =
           (Inr (Some (message_of pq env row (retry_count row + 1) (uuidv7 env (Suc (Suc n)) 0),
                       NOW env + make_interval env vt)), Suc (Suc (Suc n)),
            t\<lparr>msgs := sql_update (\<lambda>r. id r = id row)
                        (claim_row (retry_count row + 1) (uuidv7 env (Suc (Suc n)) 0)
                           (NOW env + make_interval env vt)) (msgs t)\<rparr>)"
proof -
  have "row \<in> set (msgs t)" "reclaimQuery env ttl row"
    using assms(3) by (auto simp: next_reclaim_def dest: sql_first_Some)
  with assms show ?thesis
    by (subst fetchPendingChannelMessage.simps)
      (simp add: bindT_app probePending_def probeReclaim_def stmt_ok next_pending_def next_reclaim_def
        claim_run reclaimChannelAttempt_def reclaimQuery_def exhausted_def effective_max_def Let_def)
qed

text \<open>A timed-out message without retries left is dead-lettered and the scan goes on.\<close>

lemma fetch_dead:
  assumes "no_faults env" and "next_pending env ttl t = None" and "next_reclaim env ttl t = Some row"
    and "exhausted pq row" and "uuidv7 env (Suc (Suc n)) 0 \<notin> d_id ` set (dlq t)"
  shows "fetchPendingChannelMessage pq env vt ttl defers (n, t) =
           (let t' = t\<lparr>dlq := dlq t @ [dead_letter env (Suc (Suc n)) errReasonVisibilityTimeout row],
                       msgs := sql_delete (\<lambda>r. id r = id row) (msgs t)\<rparr>;
                n' = Suc (Suc (Suc (Suc n)))
            in if defers + 1 \<ge> maxConsumeReclaimDefers then (Inr None, n', t')
               else fetchPendingChannelMessage pq env vt ttl (defers + 1) (n', t'))"
proof -
  have "row \<in> set (msgs t)" "reclaimQuery env ttl row"
    using assms(3) by (auto simp: next_reclaim_def dest: sql_first_Some)
  with assms show ?thesis
    by (subst fetchPendingChannelMessage.simps)
      (simp add: bindT_app probePending_def probeReclaim_def stmt_ok next_pending_def next_reclaim_def
        moveToDLQ_run reclaimChannelAttempt_def reclaimQuery_def exhausted_def effective_max_def Let_def)
qed

text \<open>With a back-off policy a timed-out message goes back to the queue, delayed, and the scan goes on.\<close>

lemma fetch_defer:
  assumes "no_faults env" and "next_pending env ttl t = None" and "next_reclaim env ttl t = Some row"
    and "\<not> exhausted pq row" and "backoffConfigured (cfg pq)"
  shows "fetchPendingChannelMessage pq env vt ttl defers (n, t) =
           (let t' = t\<lparr>msgs := sql_update (\<lambda>r. id r = id row)
                        (defer_row (retry_count row + 1) (NOW env + make_interval env
                           (computeRetryDelay env (backoffPolicy (cfg pq)) (rand_Float64 env (Suc (Suc n)))
                              (retry_count row + 1) 0))) (msgs t)\<rparr>;
                n' = Suc (Suc (Suc n))
            in if defers + 1 \<ge> maxConsumeReclaimDefers then (Inr None, n', t')
               else fetchPendingChannelMessage pq env vt ttl (defers + 1) (n', t'))"
proof -
  have "row \<in> set (msgs t)" "reclaimQuery env ttl row"
    using assms(3) by (auto simp: next_reclaim_def dest: sql_first_Some)
  with assms show ?thesis
    by (subst fetchPendingChannelMessage.simps)
      (simp add: bindT_app probePending_def probeReclaim_def stmt_ok next_pending_def next_reclaim_def
        deferReclaimedChannelMessage_def reclaimChannelAttempt_def reclaimQuery_def exhausted_def
        effective_max_def Let_def)
qed

text \<open>
  The server draws UUIDs it has not used: those of the round trips \<open>n\<close> to \<open>m\<close> differ from each
  other and from the identifiers in the dead-letter table.
\<close>

definition fresh_uuids :: "env \<Rightarrow> nat \<Rightarrow> nat \<Rightarrow> channel_tables \<Rightarrow> bool" where
  "fresh_uuids env n m t \<longleftrightarrow>
     (\<forall>k \<in> {n..<m}. uuidv7 env k 0 \<notin> d_id ` set (dlq t)) \<and> inj_on (\<lambda>k. uuidv7 env k 0) {n..<m}"

lemma fresh_later:
  "fresh_uuids env n m t \<Longrightarrow> n \<le> n' \<Longrightarrow> m' \<le> m \<Longrightarrow> fresh_uuids env n' m' (t\<lparr>msgs := rows\<rparr>)"
  by (auto simp: fresh_uuids_def intro: inj_on_subset)

lemma fresh_dead:
  assumes "fresh_uuids env n m t" and "d_id d = uuidv7 env j 0" and "n \<le> j" and "j < n'" and "j < m"
    and "m' \<le> m"
  shows "fresh_uuids env n' m' (t\<lparr>dlq := dlq t @ [d], msgs := rows\<rparr>)"
proof -
  have "uuidv7 env k 0 \<noteq> uuidv7 env j 0" if "k \<in> {n'..<m'}" for k
    using assms that unfolding fresh_uuids_def inj_on_def by (metis atLeastLessThan_iff le_less_trans
      less_le_trans not_less order_less_imp_le)
  moreover have "inj_on (\<lambda>k. uuidv7 env k 0) {n'..<m'}"
    using assms unfolding fresh_uuids_def by (auto intro: inj_on_subset)
  ultimately show ?thesis using assms by (auto simp: fresh_uuids_def)
qed

text \<open>The round trips a scan may still make after \<open>defers\<close> skipped rows: four a row.\<close>

definition scan_trips :: "nat \<Rightarrow> nat" where
  "scan_trips defers = 4 * Suc (maxConsumeReclaimDefers - defers)"

lemma total_reclaim:
  assumes "no_faults env" and "d < maxConsumeReclaimDefers"
  shows "total (\<lambda>n t. fresh_uuids env n (n + scan_trips d - 2) t \<and> row \<in> set (msgs t) \<and>
              status row = MessageStatusProcessing)
     (reclaimChannelAttempt pq env row)
     (\<lambda>(k, deferred) n t. if deferred then fresh_uuids env n (n + scan_trips (Suc d)) t
        else row \<in> set (msgs t))"
proof (rule totalI, elim conjE)
  fix n t assume fresh: "fresh_uuids env n (n + scan_trips d - 2) t" and row: "row \<in> set (msgs t)"
    and st: "status row = MessageStatusProcessing"
  have trips: "k + scan_trips (Suc d) \<le> n + scan_trips d - 2" if "k \<le> n + 2" for k
    using that assms(2) by (simp add: scan_trips_def)
  have u: "uuidv7 env n 0 \<notin> d_id ` set (dlq t)"
    using fresh by (simp add: fresh_uuids_def scan_trips_def)
  note run = moveToDLQ_run [OF assms(1) u, of row errReasonVisibilityTimeout]
  have dead: "fresh_uuids env (Suc (Suc n)) (Suc (Suc n) + scan_trips (Suc d))
      (t\<lparr>dlq := dlq t @ [dead_letter env n e row], msgs := rows\<rparr>)" for e rows
    by (rule fresh_dead [OF fresh, of _ n]) (use trips [of "Suc (Suc n)"] in \<open>auto simp: dead_letter_def scan_trips_def\<close>)
  have later: "fresh_uuids env (Suc n) (Suc n + scan_trips (Suc d)) (t\<lparr>msgs := rows\<rparr>)" for rows
    by (rule fresh_later [OF fresh]) (use trips [of "Suc n"] in auto)
  show "\<exists>a n' t'. reclaimChannelAttempt pq env row (n, t) = (Inr a, n', t') \<and>
          (case a of (k, deferred) \<Rightarrow> \<lambda>n t. if deferred then fresh_uuids env n (n + scan_trips (Suc d)) t
             else row \<in> set (msgs t)) n' t'"
    using row st dead later assms(1)
    by (auto simp: reclaimChannelAttempt_def Let_def bindT_app run deferReclaimedChannelMessage_def stmt_ok)
qed

lemma fetch_total:
  assumes "no_faults env" and "fresh_uuids env n (n + scan_trips 0) t"
  shows "\<exists>m n' t'. fetchPendingChannelMessage pq env vt ttl 0 (n, t) = (Inr m, n', t')"
proof -
  have claim: "total (\<lambda>n t. row \<in> set (msgs t)) (claimChannelMessage pq env vt row k) (\<lambda>_ _ _. True)" for row k
    by (rule totalI) (auto simp: claim_run [OF assms(1)])
  have "total (\<lambda>n. fresh_uuids env n (n + scan_trips 0)) (fetchPendingChannelMessage pq env vt ttl 0) (\<lambda>_ _ _. True)"
  proof (rule channel_scan.scan_total [where I = "\<lambda>d n. fresh_uuids env n (n + scan_trips d)"
        and J = "\<lambda>d n. fresh_uuids env n (n + scan_trips d - 1)"
        and K = "\<lambda>d n. fresh_uuids env n (n + scan_trips d - 2)"
        and CR = "\<lambda>row t. row \<in> set (msgs t) \<and> status row = MessageStatusProcessing",
        OF _ _ claim total_reclaim [OF assms(1)] claim])
    have keep: "fresh_uuids env (Suc n) m t" if "fresh_uuids env n m t" for n m t
      using fresh_later [OF that, of "Suc n" m "msgs t"] by simp
    show "total (\<lambda>n. fresh_uuids env n (n + scan_trips d)) (probePending env ttl)
        (\<lambda>row n t. fresh_uuids env n (n + scan_trips d - 1) t \<and> (\<forall>c. row = Some c \<longrightarrow> c \<in> set (msgs t)))" for d
      unfolding probePending_def by (rule total_stmt [OF assms(1)]) (auto dest: keep sql_first_Some(1))
    show "total (\<lambda>n. fresh_uuids env n (n + scan_trips d - 1)) (probeReclaim env ttl)
        (\<lambda>row n t. fresh_uuids env n (n + scan_trips d - 2) t \<and>
           (\<forall>c. row = Some c \<longrightarrow> c \<in> set (msgs t) \<and> status c = MessageStatusProcessing))" for d
      unfolding probeReclaim_def
      by (rule total_stmt [OF assms(1)])
        (auto simp: reclaimQuery_def scan_trips_def dest: keep sql_first_Some(1,2))
  qed (auto simp: maxConsumeReclaimDefers_def)
  from totalD [OF this assms(2)] show ?thesis by blast
qed

section \<open>Which message a consume may deliver\<close>

definition eligible :: "env \<Rightarrow> duration \<Rightarrow> channel_row \<Rightarrow> bool" where
  "eligible env ttl r \<longleftrightarrow> (pendingQuery env ttl r \<or> reclaimQuery env ttl r) \<and> \<not> locked env (id r)"

definition same_message :: "channel_row \<Rightarrow> channel_row \<Rightarrow> bool" where
  "same_message r r0 \<longleftrightarrow>
     id r = id r0 \<and> payload r = payload r0 \<and> created_at r = created_at r0 \<and> metadata r = metadata r0"

text \<open>During a scan every row is the original one or a deferred eligible one.\<close>

definition scan_from :: "env \<Rightarrow> duration \<Rightarrow> channel_row list \<Rightarrow> channel_tables \<Rightarrow> bool" where
  "scan_from env ttl rows0 t \<longleftrightarrow>
     distinct (map id (msgs t)) \<and>
     (\<forall>r \<in> set (msgs t). \<exists>r0 \<in> set rows0. same_message r r0 \<and> (r = r0 \<or> eligible env ttl r0))"

definition delivers_from :: "env \<Rightarrow> duration \<Rightarrow> channel_row list \<Rightarrow> (Message \<times> timestamp) option \<Rightarrow> bool" where
  "delivers_from env ttl rows0 m \<longleftrightarrow>
     (\<forall>x vis. m = Some (x, vis) \<longrightarrow>
        (\<exists>r \<in> set rows0. msgID x = id r \<and> msgPayload x = payload r \<and> msgCreatedAt x = created_at r \<and>
           eligible env ttl r))"

lemma scan_row:
  "scan_from env ttl rows0 t \<Longrightarrow> row \<in> set (msgs t) \<Longrightarrow> eligible env ttl row \<Longrightarrow>
   \<exists>r0 \<in> set rows0. same_message row r0 \<and> eligible env ttl r0"
  by (auto simp: scan_from_def)

lemma scan_defer:
  assumes "scan_from env ttl rows0 t" and "row \<in> set (msgs t)" and "eligible env ttl row"
  shows "scan_from env ttl rows0 (t\<lparr>msgs := sql_update (\<lambda>r. id r = id row) (defer_row k a) (msgs t)\<rparr>)"
proof -
  have d: "distinct (map id (sql_update (\<lambda>r. id r = id row) (defer_row k a) (msgs t)))"
    using assms(1) by (simp add: scan_from_def map_sql_update defer_row_def)
  have "x = row" if "x \<in> set (msgs t)" "id x = id row" for x
    using assms that by (auto simp: scan_from_def dest: distinct_map_unique)
  moreover have "\<exists>r0 \<in> set rows0. same_message (defer_row k a row) r0 \<and> eligible env ttl r0"
    using scan_row [OF assms] by (auto simp: same_message_def defer_row_def)
  ultimately show ?thesis
    using assms(1) d by (auto simp: scan_from_def set_sql_update split: if_splits)
qed

lemma hoare_scan_moveToDLQ:
  "hoare (scan_from env ttl rows0) (moveToDLQ env i e p n md) (\<lambda>_. scan_from env ttl rows0)"
  unfolding moveToDLQ_def
proof (rule hoare_bind [where Q = "\<lambda>_. scan_from env ttl rows0"])
  show "hoare (scan_from env ttl rows0)
     (stmtE env (\<lambda>k t.
          case insert_dlq env
                 \<lparr>d_id = uuidv7 env k 0, d_original_message_id = i, d_subscriber_id = None,
                  d_payload = p, d_failure_reason = truncateErrorMsg e,
                  d_retry_count = n, d_moved_at = NOW env, d_metadata = md\<rparr> (dlq t) of
            Inl e \<Rightarrow> Inl e
          | Inr rows \<Rightarrow> Inr ((), t\<lparr>dlq := rows\<rparr>))) (\<lambda>_. scan_from env ttl rows0)"
    by (rule hoare_stmtE) (auto simp: scan_from_def split: sum.splits)
  show "hoare (scan_from env ttl rows0)
     (stmt env (\<lambda>k t. ((), t\<lparr>msgs := sql_delete (\<lambda>r. id r = i) (msgs t)\<rparr>)))
     (\<lambda>_. scan_from env ttl rows0)"
    by (rule hoare_stmt) (auto simp: scan_from_def)
qed

lemma hoare_scan_reclaim:
  "hoare (\<lambda>t. scan_from env ttl rows0 t \<and> row \<in> set (msgs t) \<and> eligible env ttl row)
     (reclaimChannelAttempt pq env row)
     (\<lambda>(_, deferred) t. scan_from env ttl rows0 t \<and> (\<not> deferred \<longrightarrow> row \<in> set (msgs t) \<and> eligible env ttl row))"
proof -
  let ?pre = "\<lambda>t. scan_from env ttl rows0 t \<and> row \<in> set (msgs t) \<and> eligible env ttl row"
  have def_: "hoare ?pre (deferReclaimedChannelMessage env (id row) k delay)
      (\<lambda>_. scan_from env ttl rows0)" for k delay
    unfolding deferReclaimedChannelMessage_def by (rule hoare_stmt) (auto intro: scan_defer)
  have mov: "hoare ?pre (moveToDLQ env i e p n md) (\<lambda>_. scan_from env ttl rows0)" for i e p n md
    by (rule hoare_pre [OF hoare_scan_moveToDLQ]) simp
  show ?thesis
    unfolding reclaimChannelAttempt_def Let_def
    by (auto split: MessageStatus.split
        intro!: hoare_return hoare_fail hoare_bind [OF hoare_rand_keep] hoare_bind [OF def_] hoare_bind [OF mov])
qed

lemma hoare_scan_claim:
  "hoare (\<lambda>t. scan_from env ttl rows0 t \<and> row \<in> set (msgs t) \<and> eligible env ttl row)
     (claimChannelMessage pq env vt row n) (\<lambda>m _. delivers_from env ttl rows0 (Some m))"
proof (cases "\<exists>r0 \<in> set rows0. same_message row r0 \<and> eligible env ttl r0")
  case True
  have "hoare (\<lambda>_. True) (claimChannelMessage pq env vt row n)
      (\<lambda>(m, _) _. msgID m = id row \<and> msgPayload m = payload row \<and> msgCreatedAt m = created_at row)"
    unfolding claimChannelMessage_def
    by (rule hoare_bind [where Q = "\<lambda>_ _. True"]) (auto intro!: hoare_stmtE hoare_return)
  then show ?thesis
    by (rule hoare_post [OF hoare_pre]) (use True in \<open>auto simp: delivers_from_def same_message_def\<close>)
next
  case False
  then show ?thesis unfolding hoare_def using scan_row by blast
qed

lemma hoare_scan_probes:
  "hoare (scan_from env ttl rows0) (probePending env ttl)
     (\<lambda>row t. scan_from env ttl rows0 t \<and> (\<forall>r. row = Some r \<longrightarrow> r \<in> set (msgs t) \<and> eligible env ttl r))"
  "hoare (scan_from env ttl rows0) (probeReclaim env ttl)
     (\<lambda>row t. scan_from env ttl rows0 t \<and> (\<forall>r. row = Some r \<longrightarrow> r \<in> set (msgs t) \<and> eligible env ttl r))"
  unfolding probePending_def probeReclaim_def
  by (rule hoare_stmt; auto simp: eligible_def dest: sql_first_Some)+

lemma hoare_scan_fetch:
  assumes "defers < maxConsumeReclaimDefers"
  shows "hoare (scan_from env ttl rows0) (fetchPendingChannelMessage pq env vt ttl defers)
     (\<lambda>m _. delivers_from env ttl rows0 m)"
proof (rule channel_scan.scan_hoare [where I = "\<lambda>_. scan_from env ttl rows0"
      and CL = "\<lambda>row n t. row \<in> set (msgs t) \<and> eligible env ttl row",
      OF hoare_scan_probes(1) hoare_scan_probes(2) hoare_scan_claim _ hoare_scan_claim _ assms])
  show "hoare (\<lambda>t. scan_from env ttl rows0 t \<and> r \<in> set (msgs t) \<and> eligible env ttl r)
     (reclaimChannelAttempt pq env r)
     (\<lambda>(n, deferred) t. if deferred then scan_from env ttl rows0 t
        else scan_from env ttl rows0 t \<and> r \<in> set (msgs t) \<and> eligible env ttl r)" for r
    by (rule hoare_post [OF hoare_scan_reclaim]) (auto split: if_splits)
qed (simp add: delivers_from_def)

section \<open>A transaction that may meet faults\<close>

lemma channel_tx_cases:
  assumes "onDb (withTx env (onChannel env tbl m)) (n, s) = (r, n', s')"
  obtains (unchanged) e where "r = Inl e" "s' = s"
    | (ran) t a t' k k' where "channels (store s) tbl = Some t" "m (k, t) = (Inr a, k', t')"
        "s' = s\<lparr>store := put_channel tbl t' (store s)\<rparr>" "r = Inr a \<or> (\<exists>d. r = Inl (ErrDriver d))"
proof -
  obtain d' where run: "withTx env (onChannel env tbl m) (n, store s) = (r, n', d')"
      and s': "s' = s\<lparr>store := d'\<rparr>"
    using assms by (auto simp: onDb_app split: prod.splits)
  have inner: "\<exists>t t'. channels (store s) tbl = Some t \<and> m (k, t) = (Inr a, k', t') \<and>
                 d' = put_channel tbl t' (store s)"
    if "onChannel env tbl m (k, store s) = (Inr a, k', d')" for k a k'
    using that by (auto simp: onChannel_def put_channel_def split: option.splits prod.splits)
  from run show thesis
  proof (cases rule: withTx_cases)
    case unchanged
    then show thesis using s' that(1) by simp
  next
    case (lost a k d)
    then show thesis using inner [OF lost(1)] s' that(2) by blast
  next
    case (committed a k)
    then show thesis using inner [OF committed(1)] s' that(2) by blast
  qed
qed

definition ttl_of :: "Queue \<Rightarrow> sys \<Rightarrow> string \<Rightarrow> duration" where
  "ttl_of pq s name =
     (case find (is_queue QueueTypeChannel name) (pgqueue_metadata (store s)) of
        None \<Rightarrow> 0
      | Some meta \<Rightarrow> getQueueTTL pq (metaConfig meta))"

lemma notFoundAs_getQueueMetadata:
  assumes "notFoundAs e (getQueueMetadata env qt name) (n, s) = (r, n', s')"
  shows "store s' = store s"
    and "\<And>meta. r = Inr meta \<Longrightarrow> find (is_queue qt name) (pgqueue_metadata (store s)) = Some meta"
proof -
  obtain r0 where r0: "getQueueMetadata env qt name (n, s) = (r0, n', s')"
      and rr: "r = Inr meta \<Longrightarrow> r0 = Inr meta" for meta
    using assms by (auto simp: notFoundAs_def tx_simps split: prod.splits sum.splits)
  then show "store s' = store s" by (blast dest: getQueueMetadata_store)
  fix meta assume "r = Inr meta"
  then show "find (is_queue qt name) (pgqueue_metadata (store s)) = Some meta"
    using r0 rr [of meta]
    by (auto simp: getQueueMetadata_def selectQueueMetadata_def tx_simps stmt_def
        split: option.splits sum.splits prod.splits)
qed

text \<open>
  An operation that reads the metadata, may reject it, and runs one transaction: it did
  nothing, or completed one run of the transaction's body.
\<close>

lemma metadata_tx_cases:
  assumes "bindT (notFoundAs e0 (getQueueMetadata env QueueTypeChannel name))
      (\<lambda>meta. if P meta then failT e1
              else bindT (onDb (withTx env (onChannel env (metaTableName meta) (body meta))))
                     (\<lambda>a. returnT (h a))) (n, s) = (r, n', s')"
  obtains (unchanged) e where "r = Inl e" "store s' = store s"
    | (ran) meta t a t' k k'
      where "find (is_queue QueueTypeChannel name) (pgqueue_metadata (store s)) = Some meta"
        "\<not> P meta" "channel_of s name = Some t" "body meta (k, t) = (Inr a, k', t')"
        "channel_of s' name = Some t'" "r = Inr (h a) \<or> (\<exists>d. r = Inl (ErrDriver d))"
proof -
  obtain r1 n1 s1 where get:
      "notFoundAs e0 (getQueueMetadata env QueueTypeChannel name) (n, s) = (r1, n1, s1)"
    by (metis prod_cases3)
  note st = notFoundAs_getQueueMetadata [OF get]
  consider e where "r1 = Inl e" | meta where "r1 = Inr meta" "P meta" | meta where "r1 = Inr meta" "\<not> P meta"
    by (cases r1) auto
  then show thesis
  proof cases
    case (1 e)
    then show thesis using assms get st(1) unchanged [of e] by (simp add: bindT_app)
  next
    case (2 meta)
    then show thesis using assms get st(1) unchanged [of e1] by (simp add: bindT_app)
  next
    case (3 meta)
    note meta = st(2) [OF 3(1)]
    obtain r2 where tx: "onDb (withTx env (onChannel env (metaTableName meta) (body meta))) (n1, s1) =
          (r2, n', s')"
        and r: "r = (case r2 of Inl e \<Rightarrow> Inl e | Inr a \<Rightarrow> Inr (h a))"
      using assms get 3 by (auto simp: bindT_app split: prod.splits sum.splits)
    from tx show thesis
    proof (cases rule: channel_tx_cases)
      case (unchanged e)
      then show thesis using r st(1) that(1) by simp
    next
      case (ran t a t' k k')
      then have "channel_of s name = Some t" "channel_of s' name = Some t'"
        using meta st(1) by (simp_all add: channel_of_def put_channel_def)
      with ran r meta 3 that(2) show thesis by auto
    qed
  qed
qed

lemma consume_cases:
  assumes "consumeFromChannel pq env name vt (n, s) = (r, n', s')"
  obtains (unchanged) e where "r = Inl e" "store s' = store s"
    | (ran) t m t' k k' where "channel_of s name = Some t"
        "fetchPendingChannelMessage pq env vt (ttl_of pq s name) 0 (k, t) = (Inr m, k', t')"
        "channel_of s' name = Some t'"
        "r = Inr (map_option (\<lambda>(msg, vis). msg\<lparr>msgVisibilityTimeout := Some vis\<rparr>) m) \<or>
         (\<exists>d. r = Inl (ErrDriver d))"
proof (cases "closed pq \<or> validateVisibilityTimeout vt \<noteq> Inr ()")
  case True
  then have "\<exists>e. r = Inl e \<and> s' = s"
    using assms
    by (cases "validateVisibilityTimeout vt")
      (auto simp: consumeFromChannel_def checkClosed_def guardT_def tx_simps split: if_splits)
  then show thesis using that(1) by blast
next
  case False
  then have "bindT (notFoundAs ErrChannelNotFound (getQueueMetadata env QueueTypeChannel name))
       (\<lambda>queueMeta.
          if metaPaused queueMeta then failT ErrQueuePaused
          else
            bindT (onDb (withTx env (onChannel env (metaTableName queueMeta)
                     (fetchPendingChannelMessage pq env vt (getQueueTTL pq (metaConfig queueMeta)) 0))))
              (\<lambda>m. returnT (map_option (\<lambda>(msg, vis). msg\<lparr>msgVisibilityTimeout := Some vis\<rparr>) m)))
       (n, s) = (r, n', s')"
    using assms by (simp add: consumeFromChannel_def checkClosed_def)
  then show thesis
    by (cases rule: metadata_tx_cases) (auto simp: ttl_of_def intro: that)
qed

end
