(* ===== verification/ChannelProps.thy ===== *)
theory ChannelProps
  imports ChannelSpec
begin

text \<open>
  The properties of the channel operations, each stated of the public operation on a process
  state, with a witness on the concrete tables of \<^theory_text>\<open>Sample\<close>.
\<close>

definition pending_tables :: channel_tables where
  "pending_tables = \<lparr>msgs = [row0], dlq = []\<rparr>"

definition claimed_tables :: channel_tables where
  "claimed_tables = \<lparr>msgs = [row1], dlq = []\<rparr>"

definition spent_tables :: channel_tables where
  "spent_tables = \<lparr>msgs = [row1\<lparr>retry_count := 3\<rparr>], dlq = []\<rparr>"

definition thirty :: duration where
  "thirty = 30 * time_Second"

definition delivers_some :: "err + 'a option \<Rightarrow> bool" where
  "delivers_some r = (case r of Inr (Some _) \<Rightarrow> True | _ \<Rightarrow> False)"

lemma delivers_someE: "delivers_some (fst x) \<Longrightarrow> \<exists>m n s. x = (Inr (Some m), n, s)"
  by (cases x) (auto simp: delivers_some_def split: sum.splits option.splits)

section \<open>Acknowledgement\<close>



text \<open>
  \<^verbatim>\<open>ExtendVisibility\<close> on a channel moves only the deadline of the claimed message, to the
  requested time from now; a stale receipt changes nothing and is classified like an ack.
\<close>

theorem extendChannelVisibility_fenced:
  assumes "coherent s" and "no_faults env" and "channel_of s name = Some t"
  shows "case extendChannelVisibility env name r d (n, s) of (res, _, s') \<Rightarrow>
           res = (if claimed r t then Inr () else Inl (miss_reason r t)) \<and>
           channel_of s' name =
             Some (if claimed r t
                   then t\<lparr>msgs := sql_update (live_row (MessageID r) (ClaimID r))
                                  (visibility_timeout_update (\<lambda>_. Some (NOW env + make_interval env d))) (msgs t)\<rparr>
                   else t)"
proof -
  have "extend_row (NOW env + make_interval env d) =
          visibility_timeout_update (\<lambda>_. Some (NOW env + make_interval env d))"
    by (rule ext) (simp add: extend_row_def)
  then show ?thesis
    using cached_operation [OF assms,
        where m = "fencedUpdate env r (extend_row (NOW env + make_interval env d))" and n = n]
    unfolding extendChannelVisibility_def [symmetric]
    by (auto simp: fenced_run [OF assms(2)] split: prod.splits)
qed

theorem extendChannelVisibility_fenced_witness:
  "case extendChannelVisibility env0 ''orders'' (receipt0\<lparr>ClaimID := 43\<rparr>) thirty (0, sys_with claimed_tables) of
     (res, _, s') \<Rightarrow>
       res = Inl ErrClaimExpired \<and> channel_of s' ''orders'' = Some claimed_tables"
proof -
  have "channel_of (sys_with claimed_tables) ''orders'' = Some claimed_tables"
    "\<not> claimed (receipt0\<lparr>ClaimID := 43\<rparr>) claimed_tables"
    "miss_reason (receipt0\<lparr>ClaimID := 43\<rparr>) claimed_tables = ErrClaimExpired"
    by code_simp+
  then show ?thesis
    using extendChannelVisibility_fenced [OF coherent_sys_with no_faults_env0,
        of claimed_tables "''orders''" claimed_tables "receipt0\<lparr>ClaimID := 43\<rparr>" thirty 0]
    by (auto split: prod.splits)
qed

section \<open>Nack\<close>

text \<open>
  C5.  \<^verbatim>\<open>Nack\<close> on a channel returns the claimed message to the queue with one more retry and a
  cleared claim while retries are left, and otherwise moves it to the dead-letter queue with
  its payload, its metadata and the retry count reached; a stale receipt changes nothing.
\<close>

theorem nackChannelImpl_spec:
  assumes "no_faults env" and "channel_of s name = Some t" and "channel_inv pq t"
    and "\<And>k. uuidv7 env k 0 \<notin> d_id ` set (dlq t)"
  shows "\<exists>k rnds. case nackChannelImpl pq env name r e delay (n, s) of (res, _, s') \<Rightarrow>
           (case find (live_row (MessageID r) (ClaimID r)) (msgs t) of
              None \<Rightarrow> res = Inl (miss_reason r t) \<and> channel_of s' name = Some t
            | Some row \<Rightarrow>
                res = Inr () \<and>
                channel_of s' name =
                  Some (if retry_count row + 1 > effective_max pq row
                        then \<lparr>msgs = sql_delete (\<lambda>x. id x = id row) (msgs t),
                              dlq = dlq t @ [dead_letter env k e row]\<rparr>
                        else t\<lparr>msgs := sql_update (\<lambda>x. id x = id row)
                               (retry_row (truncateErrorMsg e) (NOW env + make_interval env
                                  (computeRetryDelay env (backoffPolicy (cfg pq)) rnds (retry_count row + 1) delay)))
                               (msgs t)\<rparr>))"
proof -
  obtain meta where meta: "find (is_queue QueueTypeChannel name) (pgqueue_metadata (store s)) = Some meta"
      "channels (store s) (metaTableName meta) = Some t"
    using assms(2) by (rule channel_ofE)
  let ?body = "nackChannelBody pq env r (truncateErrorMsg e) delay"
  obtain k s1 where s1: "store s1 = store s"
      and run: "nackChannelImpl pq env name r e delay (n, s) =
        onDb (withTx env (onChannel env (metaTableName meta) ?body)) (k, s1)"
    using metadata_operation [OF assms(1,2) meta(1)] unfolding nackChannelImpl_def by blast
  have tx: "withTx env (onChannel env (metaTableName meta) ?body) (k, store s) =
      (case ?body (Suc k, t) of (Inl e, n', _) \<Rightarrow> (Inl e, Suc n', store s)
       | (Inr a, n', t') \<Rightarrow> (Inr a, Suc n', put_channel (metaTableName meta) t' (store s)))"
    by (rule withTx_onChannel [OF assms(1) meta(2)])
  have dist: "distinct (map id (msgs t))" using assms(3) by (simp add: channel_inv_def)
  show ?thesis
  proof (cases "find (live_row (MessageID r) (ClaimID r)) (msgs t)")
    case None
    then have "\<not> claimed r t" by (simp add: claimed_def find_None_iff)
    with None show ?thesis using nack_stale [OF assms(1)] s1 meta
      by (simp add: run onDb_app tx channel_of_def)
  next
    case (Some row)
    then have row: "row \<in> set (msgs t)" "live_row (MessageID r) (ClaimID r) row"
      by (auto simp: find_Some_iff)
    then have i: "MessageID r = id row" by (simp add: live_row_def)
    have "exhausted pq row \<longleftrightarrow> retry_count row + 1 > effective_max pq row"
      by (simp add: exhausted_def)
    with Some row i show ?thesis
      using nack_retry [OF assms(1) dist row, of pq "truncateErrorMsg e" delay "Suc k"]
        nack_dead [OF assms(1) dist row, of pq "Suc k" "truncateErrorMsg e" delay] assms(4) s1 meta
      by (intro exI [of _ "Suc (Suc k)"] exI [of _ "rand_Float64 env (Suc (Suc k))"])
        (cases "exhausted pq row"; simp add: run onDb_app tx channel_of_def put_channel_def dead_letter_def)
  qed
qed

theorem nackChannelImpl_spec_witness:
  "\<exists>k. case nackChannelImpl pq0 env0 ''orders'' receipt0 ''boom'' 0 (0, sys_with spent_tables) of (res, _, s') \<Rightarrow>
     res = Inr () \<and>
     channel_of s' ''orders'' =
       Some \<lparr>msgs = [], dlq = [dead_letter env0 k ''boom'' (row1\<lparr>retry_count := 3\<rparr>)]\<rparr>"
proof -
  have pre: "channel_of (sys_with spent_tables) ''orders'' = Some spent_tables"
    "channel_inv pq0 spent_tables"
    "find (live_row (MessageID receipt0) (ClaimID receipt0)) (msgs spent_tables) = Some (row1\<lparr>retry_count := 3\<rparr>)"
    "effective_max pq0 (row1\<lparr>retry_count := 3\<rparr>) = 3"
    "sql_delete (\<lambda>x. id x = 7) (msgs spent_tables) = []" "dlq spent_tables = []"
    by code_simp+
  show ?thesis
    using nackChannelImpl_spec [OF no_faults_env0 pre(1,2), of receipt0 "''boom''" 0 0] pre
    by (auto simp: row1_def row0_def split: prod.splits)
qed

section \<open>Consume\<close>

definition can_consume :: "Queue \<Rightarrow> sys \<Rightarrow> string \<Rightarrow> duration \<Rightarrow> bool" where
  "can_consume pq s name vt \<longleftrightarrow>
     \<not> closed pq \<and> validateVisibilityTimeout vt = Inr () \<and>
     (case find (is_queue QueueTypeChannel name) (pgqueue_metadata (store s)) of
        None \<Rightarrow> False
      | Some meta \<Rightarrow> \<not> metaPaused meta)"



lemma consume_run:
  assumes "no_faults env" and "can_consume pq s name vt" and "channel_of s name = Some t"
    and "fetchPendingChannelMessage pq env vt (ttl_of pq s name) 0 (Suc (Suc n), t) = (Inr m, n', t')"
  shows "case consumeFromChannel pq env name vt (n, s) of (res, _, s') \<Rightarrow>
           res = Inr (map_option (\<lambda>(msg, vis). msg\<lparr>msgVisibilityTimeout := Some vis\<rparr>) m) \<and>
           channel_of s' name = Some t'"
proof -
  obtain meta where meta: "find (is_queue QueueTypeChannel name) (pgqueue_metadata (store s)) = Some meta"
      "channels (store s) (metaTableName meta) = Some t"
    using assms(3) by (rule channel_ofE)
  with assms show ?thesis
    by (simp add: consumeFromChannel_def checkClosed_def can_consume_def bindT_app notFoundAs_def
        mapErrT_app getQueueMetadata_ok onDb_app withTx_onChannel ttl_of_def channel_of_def put_channel_def)
qed



text \<open>
  Whatever the driver does, a delivered message was in the channel, due or timed out,
  within its TTL and not locked by another consumer, and carries its payload unchanged.
\<close>

theorem consume_only_eligible:
  assumes "channel_of s name = Some t" and "channel_inv pq t"
    and "consumeFromChannel pq env name vt (n, s) = (Inr (Some m), n', s')"
  shows "\<exists>row \<in> set (msgs t). msgID m = id row \<and> msgPayload m = payload row \<and>
           msgCreatedAt m = created_at row \<and> eligible env (ttl_of pq s name) row"
proof -
  have scan: "scan_from env (ttl_of pq s name) (msgs t) t"
    using assms(2) by (auto simp: scan_from_def channel_inv_def same_message_def)
  from assms(3) show ?thesis
  proof (cases rule: consume_cases)
    case unchanged
    then show ?thesis by simp
  next
    case (ran u m0 t' k k')
    with assms(1) have "u = t" by simp
    with ran(2) have "delivers_from env (ttl_of pq s name) (msgs t) m0"
      using hoareD [OF hoare_scan_fetch scan, of 0] by (simp add: maxConsumeReclaimDefers_def)
    with ran(4) show ?thesis by (cases m0) (auto simp: delivers_from_def)
  qed
qed

theorem consume_only_eligible_witness:
  "\<exists>m n' s'. consumeFromChannel pq0 env0 ''orders'' thirty (0, sys_with pending_tables) = (Inr (Some m), n', s') \<and>
     msgID m = 7 \<and> eligible env0 0 row0"
proof -
  have pre: "channel_of (sys_with pending_tables) ''orders'' = Some pending_tables"
    "channel_inv pq0 pending_tables" "ttl_of pq0 (sys_with pending_tables) ''orders'' = 0"
    "id row0 = 7" "msgs pending_tables = [row0]"
    and "delivers_some (fst (consumeFromChannel pq0 env0 ''orders'' thirty (0, sys_with pending_tables)))"
    by code_simp+
  then obtain m n' s' where run:
      "consumeFromChannel pq0 env0 ''orders'' thirty (0, sys_with pending_tables) = (Inr (Some m), n', s')"
    using delivers_someE by blast
  have "msgID m = 7 \<and> eligible env0 0 row0"
    using consume_only_eligible [OF pre(1,2) run] by (simp add: pre(3-5))
  with run show ?thesis by blast
qed



section \<open>The cap on skipped messages\<close>

lemma hoare_moveToDLQ_length:
  "hoare (\<lambda>t. length (dlq t) \<le> L) (moveToDLQ env i e p n md) (\<lambda>_ t. length (dlq t) \<le> Suc L)"
  unfolding moveToDLQ_def
  by (rule hoare_bind [where Q = "\<lambda>_ t. length (dlq t) \<le> Suc L"])
    (auto simp: insert_dlq_def intro!: hoare_stmtE hoare_stmt split: sum.splits if_splits)

lemma hoare_reclaim_length:
  "hoare (\<lambda>t. length (dlq t) \<le> L) (reclaimChannelAttempt pq env row)
     (\<lambda>(_, deferred) t. length (dlq t) \<le> (if deferred then Suc L else L))"
proof -
  have def_: "hoare (\<lambda>t. length (dlq t) \<le> L) (deferReclaimedChannelMessage env i k delay)
      (\<lambda>_ t. length (dlq t) \<le> Suc L)" for i k delay
    unfolding deferReclaimedChannelMessage_def by (rule hoare_stmt) auto
  show ?thesis
    unfolding reclaimChannelAttempt_def Let_def
    by (auto split: MessageStatus.split intro!: hoare_return hoare_fail hoare_bind [OF hoare_rand_keep]
        hoare_bind [OF def_] hoare_bind [OF hoare_moveToDLQ_length])
qed

lemma hoare_claim_length:
  "hoare (\<lambda>t. length (dlq t) \<le> L) (claimChannelMessage pq env vt row n) (\<lambda>_ t. length (dlq t) \<le> L)"
  unfolding claimChannelMessage_def
  by (rule hoare_bind [where Q = "\<lambda>_ t. length (dlq t) \<le> L"])
    (auto simp: Let_def intro!: hoare_stmtE hoare_return split: if_splits)

lemma hoare_fetch_length:
  "hoare (\<lambda>t. length (dlq t) \<le> L) (fetchPendingChannelMessage pq env vt ttl 0)
     (\<lambda>_ t. length (dlq t) \<le> L + maxConsumeReclaimDefers)"
proof -
  let ?I = "\<lambda>d t. d \<le> maxConsumeReclaimDefers \<and> length (dlq t) \<le> L + d"
  have claim: "hoare (\<lambda>t. ?I d t \<and> True) (claimChannelMessage pq env vt c k)
      (\<lambda>_ t. length (dlq t) \<le> L + maxConsumeReclaimDefers)" for d c k
  proof (cases "d \<le> maxConsumeReclaimDefers")
    case True
    then show ?thesis by (intro hoare_post [OF hoare_pre [OF hoare_claim_length [of "L + d"]]]) auto
  qed (simp add: hoare_def)
  have "hoare (?I 0) (fetchPendingChannelMessage pq env vt ttl 0)
      (\<lambda>_ t. length (dlq t) \<le> L + maxConsumeReclaimDefers)"
  proof (rule channel_scan.scan_hoare [where I = ?I
        and CP = "\<lambda>_ _. True" and CR = "\<lambda>_ _. True" and CL = "\<lambda>_ _ _. True", OF _ _ claim _ claim])
    show "hoare (\<lambda>t. ?I d t \<and> True) (reclaimChannelAttempt pq env c)
        (\<lambda>(n, deferred) t. if deferred then ?I (Suc d) t else ?I d t \<and> True)"
      if "d < maxConsumeReclaimDefers" for d c
      by (rule hoare_post [OF hoare_pre [OF hoare_reclaim_length [of "L + d"]]])
        (use that in \<open>auto split: if_splits\<close>)
  qed (auto simp: probePending_def probeReclaim_def maxConsumeReclaimDefers_def intro!: hoare_stmt)
  then show ?thesis by (rule hoare_pre) simp
qed

text \<open>
  One consume call dead-letters at most \<^verbatim>\<open>maxConsumeReclaimDefers\<close> messages, however large the
  backlog of timed-out deliveries.
\<close>

theorem consume_skip_bound:
  assumes "channel_of s name = Some t"
    and "consumeFromChannel pq env name vt (n, s) = (r, n', s')"
  shows "\<exists>t'. channel_of s' name = Some t' \<and> length (dlq t') \<le> length (dlq t) + maxConsumeReclaimDefers"
  using assms(2)
proof (cases rule: consume_cases)
  case unchanged
  then show ?thesis using assms channel_of_store [of s' s name] by (intro exI [of _ t]) simp
next
  case (ran u m t' k k')
  with assms(1) have "u = t" by simp
  then have "length (dlq t') \<le> length (dlq t) + maxConsumeReclaimDefers"
    using ran(2) hoareD [OF hoare_fetch_length [of "length (dlq t)"], of t]
    by (auto simp: maxConsumeReclaimDefers_def)
  with ran show ?thesis by blast
qed

theorem consume_skip_bound_witness:
  "\<exists>r n' s' t'. consumeFromChannel pq0 env0 ''orders'' thirty (0, sys_with spent_tables) = (r, n', s') \<and>
     channel_of s' ''orders'' = Some t' \<and> length (dlq t') \<le> 64"
proof -
  have pre: "channel_of (sys_with spent_tables) ''orders'' = Some spent_tables" "dlq spent_tables = []"
    by code_simp+
  obtain r n' s' where "consumeFromChannel pq0 env0 ''orders'' thirty (0, sys_with spent_tables) = (r, n', s')"
    by (metis prod_cases3)
  with consume_skip_bound [OF pre(1) this] pre(2) show ?thesis
    by (auto simp: maxConsumeReclaimDefers_def)
qed

section \<open>Rejections and termination\<close>

text \<open>
  A consume call on a closed queue, with a visibility timeout outside 1ms to 24h, on an
  unknown channel or on a paused one is refused with its own error, in that order, and changes
  nothing in the database.
\<close>

theorem consume_rejects:
  assumes "no_faults env" and "\<not> can_consume pq s name vt"
  shows "case consumeFromChannel pq env name vt (n, s) of (res, _, s') \<Rightarrow>
           store s' = store s \<and>
           res = Inl (if closed pq then ErrQueueClosed
                      else if vt < 1000000 \<or> vt > 86400000000000 then ErrInvalidVisibilityTimeout
                      else if find (is_queue QueueTypeChannel name) (pgqueue_metadata (store s)) = None
                      then ErrChannelNotFound
                      else ErrQueuePaused)"
proof (cases "closed pq \<or> vt < 1000000 \<or> vt > 86400000000000")
  case True
  then show ?thesis
    by (auto simp: consumeFromChannel_def checkClosed_def validateVisibilityTimeout_def
        minVisibilityTimeout_def maxVisibilityTimeout_def)
next
  case False
  then show ?thesis using assms
    by (cases "find (is_queue QueueTypeChannel name) (pgqueue_metadata (store s))")
      (auto simp: consumeFromChannel_def checkClosed_def validateVisibilityTimeout_def
        minVisibilityTimeout_def maxVisibilityTimeout_def can_consume_def bindT_app notFoundAs_def
        mapErrT_app getQueueMetadata_ok getQueueMetadata_missing)
qed

theorem consume_rejects_witness:
  "case consumeFromChannel pq0 env0 ''bills'' thirty (0, sys_with pending_tables) of (res, _, s') \<Rightarrow>
     store s' = store (sys_with pending_tables) \<and> res = Inl ErrChannelNotFound"
proof -
  have pre: "\<not> can_consume pq0 (sys_with pending_tables) ''bills'' thirty"
    "find (is_queue QueueTypeChannel ''bills'') (pgqueue_metadata (store (sys_with pending_tables))) = None"
    by code_simp+
  show ?thesis
    using consume_rejects [OF no_faults_env0 pre(1), of 0] pre(2) by (simp add: thirty_def)
qed

text \<open>
  A consume call returns: as long as the database answers and draws fresh UUIDs, it ends
  with a message or with none, never with an error, whatever the backlog.
\<close>

theorem consume_returns:
  assumes "no_faults env" and "can_consume pq s name vt" and "channel_of s name = Some t"
    and "fresh_uuids env n (n + 2 + scan_trips 0) t"
  shows "\<exists>m n' s'. consumeFromChannel pq env name vt (n, s) = (Inr m, n', s')"
proof -
  have "fresh_uuids env (Suc (Suc n)) (Suc (Suc n) + scan_trips 0) t"
    using assms(4) by (auto simp: fresh_uuids_def intro: inj_on_subset)
  then obtain m n' t' where
      "fetchPendingChannelMessage pq env vt (ttl_of pq s name) 0 (Suc (Suc n), t) = (Inr m, n', t')"
    using fetch_total [OF assms(1)] by blast
  from consume_run [OF assms(1-3) this] show ?thesis by (auto split: prod.splits)
qed

theorem consume_returns_witness:
  "\<exists>m n' s'. consumeFromChannel pq0 env0 ''orders'' thirty (0, sys_with spent_tables) = (Inr m, n', s')"
proof -
  have pre: "can_consume pq0 (sys_with spent_tables) ''orders'' thirty"
    "channel_of (sys_with spent_tables) ''orders'' = Some spent_tables" "dlq spent_tables = []"
    "scan_trips 0 = 260"
    by code_simp+
  have "inj_on (\<lambda>k. uuidv7 env0 k 0) {0..<262}"
    by (rule inj_onI) (simp add: env0_uuid_inj del: env0_simps)
  then have "fresh_uuids env0 0 (0 + 2 + scan_trips 0) spent_tables"
    by (simp add: fresh_uuids_def pre(3,4) del: env0_simps)
  from consume_returns [OF no_faults_env0 pre(1,2) this] show ?thesis .
qed

end
