(* ===== verification/AdminProps.thy ===== *)
theory AdminProps
  imports Admin ChannelProps
begin

text \<open>
  The catalogue: which tables exist and which metadata rows name them, kept by creation and
  deletion under any driver behaviour; the cap on queues; and the pages of a listing.
\<close>

section \<open>The catalogue invariant\<close>

definition tables_of :: "QueueType \<Rightarrow> queueMetadata list \<Rightarrow> string set" where
  "tables_of qt rows = metaTableName ` {m \<in> set rows. metaQueueType m = qt}"

definition catalogue :: "db \<Rightarrow> bool" where
  "catalogue d \<longleftrightarrow>
     distinct (map metaID (pgqueue_metadata d)) \<and>
     distinct (map metaTableName (pgqueue_metadata d)) \<and>
     distinct (map (\<lambda>m. (metaQueueType m, metaQueueName m)) (pgqueue_metadata d)) \<and>
     dom (channels d) = tables_of QueueTypeChannel (pgqueue_metadata d) \<and>
     dom (topics d) = tables_of QueueTypePubSub (pgqueue_metadata d)"

text \<open>The database between the metadata INSERT and the CREATE TABLE.\<close>

definition half_created :: "Queue \<Rightarrow> QueueType \<Rightarrow> string \<Rightarrow> string \<Rightarrow> nat \<Rightarrow> db \<Rightarrow> bool" where
  "half_created pq qt name tbl k d \<longleftrightarrow>
     (\<exists>d0 meta. catalogue d0 \<and> length (pgqueue_metadata d0) = k \<and>
        (0 < maxQueues (cfg pq) \<longrightarrow> int k < maxQueues (cfg pq)) \<and>
        d = d0\<lparr>pgqueue_metadata := pgqueue_metadata d0 @ [meta]\<rparr> \<and> is_queue qt name meta \<and> metaTableName meta = tbl \<and>
        (\<forall>m \<in> set (pgqueue_metadata d0). metaID m \<noteq> metaID meta \<and> \<not> is_queue qt name m \<and> metaTableName m \<noteq> tbl))"

definition created :: "Queue \<Rightarrow> QueueType \<Rightarrow> string \<Rightarrow> string \<Rightarrow> nat \<Rightarrow> db \<Rightarrow> bool" where
  "created pq qt name tbl k d \<longleftrightarrow>
     catalogue d \<and> length (pgqueue_metadata d) = Suc k \<and> (0 < maxQueues (cfg pq) \<longrightarrow> int k < maxQueues (cfg pq)) \<and>
     (\<exists>m \<in> set (pgqueue_metadata d). is_queue qt name m \<and> metaTableName m = tbl)"

lemma hoare_noop: "hoare P (noop env) (\<lambda>_. P)"
  unfolding noop_def by (rule hoare_stmt) auto

lemma hoare_statements: "hoare P (statements env k) (\<lambda>_. P)"
  by (induction k) (auto intro!: hoare_return hoare_bind [OF hoare_noop])

lemma hoare_enforce:
  "hoare (\<lambda>d. catalogue d \<and> length (pgqueue_metadata d) = k) (enforceMaxQueues pq env)
     (\<lambda>_ d. catalogue d \<and> length (pgqueue_metadata d) = k \<and> (0 < maxQueues (cfg pq) \<longrightarrow> int k < maxQueues (cfg pq)))"
  unfolding enforceMaxQueues_def
proof (rule hoare_if)
  assume "\<not> maxQueues (cfg pq) \<le> 0"
  have "hoare (\<lambda>d. catalogue d \<and> length (pgqueue_metadata d) = k) (countQueues env)
      (\<lambda>c d. catalogue d \<and> length (pgqueue_metadata d) = k \<and> c = int k)"
    unfolding countQueues_def by (rule hoare_stmt) auto
  then show "hoare (\<lambda>d. catalogue d \<and> length (pgqueue_metadata d) = k)
     (bindT (noop env) (\<lambda>_. bindT (countQueues env) (\<lambda>count. guardT (\<not> count \<ge> maxQueues (cfg pq)) ErrMaxQueuesReached)))
     (\<lambda>_ d. catalogue d \<and> length (pgqueue_metadata d) = k \<and> (0 < maxQueues (cfg pq) \<longrightarrow> int k < maxQueues (cfg pq)))"
    by (intro hoare_bind [OF hoare_noop] hoare_bind) (auto intro!: hoare_guard)
qed (auto intro!: hoare_return)

lemma half_createdI:
  assumes "catalogue d0" and "length (pgqueue_metadata d0) = k"
    and "0 < maxQueues (cfg pq) \<longrightarrow> int k < maxQueues (cfg pq)"
    and "is_queue qt name meta" and "metaTableName meta = tbl"
    and "\<forall>m \<in> set (pgqueue_metadata d0). metaID m \<noteq> metaID meta \<and> \<not> is_queue qt name m \<and> metaTableName m \<noteq> tbl"
  shows "half_created pq qt name tbl k (d0\<lparr>pgqueue_metadata := pgqueue_metadata d0 @ [meta]\<rparr>)"
  using assms unfolding half_created_def by blast

lemma hoare_metadata:
  "hoare (\<lambda>d. catalogue d \<and> length (pgqueue_metadata d) = k \<and> (0 < maxQueues (cfg pq) \<longrightarrow> int k < maxQueues (cfg pq)))
     (createQueueMetadata env qt name tbl config) (\<lambda>_. half_created pq qt name tbl k)"
  unfolding createQueueMetadata_def insertQueueMetadata_def Let_def
  by (rule hoare_mapErr, rule hoare_stmtE)
    (auto simp: is_queue_def split: if_splits intro!: half_createdI)

lemma half_created_free:
  "half_created pq qt name tbl k d \<Longrightarrow> channels d tbl = None \<and> topics d tbl = None"
proof -
  assume "half_created pq qt name tbl k d"
  then obtain d0 where "catalogue d0" "channels d = channels d0" "topics d = topics d0"
      "\<forall>m \<in> set (pgqueue_metadata d0). metaTableName m \<noteq> tbl"
    by (auto simp: half_created_def)
  then have "tbl \<notin> dom (channels d)" "tbl \<notin> dom (topics d)" by (auto simp: catalogue_def tables_of_def)
  then show ?thesis by (simp add: domIff)
qed

lemma tables_of_snoc:
  "tables_of qt (rows @ [m]) = (if metaQueueType m = qt then insert (metaTableName m) (tables_of qt rows) else tables_of qt rows)"
  by (auto simp: tables_of_def)

lemma half_createdE:
  assumes "half_created pq qt name tbl k d"
  obtains d0 meta where "catalogue d0" "d = d0\<lparr>pgqueue_metadata := pgqueue_metadata d0 @ [meta]\<rparr>"
    "length (pgqueue_metadata d0) = k" "0 < maxQueues (cfg pq) \<longrightarrow> int k < maxQueues (cfg pq)"
    "metaQueueType meta = qt" "metaQueueName meta = name" "metaTableName meta = tbl"
    "metaID meta \<notin> metaID ` set (pgqueue_metadata d0)" "tbl \<notin> metaTableName ` set (pgqueue_metadata d0)"
    "(qt, name) \<notin> (\<lambda>m. (metaQueueType m, metaQueueName m)) ` set (pgqueue_metadata d0)"
proof -
  obtain d0 meta where "catalogue d0" "d = d0\<lparr>pgqueue_metadata := pgqueue_metadata d0 @ [meta]\<rparr>"
    "length (pgqueue_metadata d0) = k" "0 < maxQueues (cfg pq) \<longrightarrow> int k < maxQueues (cfg pq)"
    "metaQueueType meta = qt" "metaQueueName meta = name" "metaTableName meta = tbl"
    "\<forall>m \<in> set (pgqueue_metadata d0). metaID m \<noteq> metaID meta \<and> \<not> is_queue qt name m \<and> metaTableName m \<noteq> tbl"
    using assms unfolding half_created_def is_queue_def by blast
  then show thesis by (intro that [of d0 meta]) (auto simp: is_queue_def)
qed

lemma half_created_channel:
  assumes "half_created pq QueueTypeChannel name tbl k d"
  shows "created pq QueueTypeChannel name tbl k (d\<lparr>channels := (channels d)(tbl \<mapsto> t)\<rparr>)"
  using assms by (rule half_createdE) (simp add: created_def catalogue_def tables_of_snoc is_queue_def)

lemma half_created_topic:
  assumes "half_created pq QueueTypePubSub name tbl k d"
  shows "created pq QueueTypePubSub name tbl k (d\<lparr>topics := (topics d)(tbl \<mapsto> t)\<rparr>)"
  using assms by (rule half_createdE) (simp add: created_def catalogue_def tables_of_snoc is_queue_def)

lemma hoare_createTable:
  assumes "\<And>d. half_created pq qt name tbl k d \<Longrightarrow> created pq qt name tbl k (create d)"
  shows "hoare (half_created pq qt name tbl k) (createTable env create tbl) (\<lambda>_. created pq qt name tbl k)"
  unfolding createTable_def
proof (rule hoare_stmt)
  fix n d a d'
  assume "half_created pq qt name tbl k d"
    and "((), if channels d tbl = None \<and> topics d tbl = None then create d else d) = (a, d')"
  with half_created_free have "d' = create d" by simp
  with assms show "created pq qt name tbl k d'" using \<open>half_created pq qt name tbl k d\<close> by simp
qed

lemma hoare_tables:
  "hoare (half_created pq QueueTypeChannel name tbl k) (createChannelTables env tbl)
     (\<lambda>_. created pq QueueTypeChannel name tbl k)"
  "hoare (half_created pq QueueTypePubSub name tbl k) (createPubSubTables env tbl)
     (\<lambda>_. created pq QueueTypePubSub name tbl k)"
  unfolding createChannelTables_def createPubSubTables_def
  by (rule hoare_bind [OF hoare_createTable hoare_statements], erule half_created_channel)
    (rule hoare_bind [OF hoare_createTable hoare_statements], erule half_created_topic)

lemma hoare_createInTx:
  assumes "qt = QueueTypeChannel \<or> qt = QueueTypePubSub"
  shows "hoare (\<lambda>d. catalogue d \<and> length (pgqueue_metadata d) = k) (createQueueInTx pq env qt name tbl config)
           (\<lambda>_. created pq qt name tbl k)"
proof -
  have "hoare (half_created pq qt name tbl k) (createQueueTables env qt tbl) (\<lambda>_. created pq qt name tbl k)"
    using assms hoare_tables by (auto simp: createQueueTables_def)
  then show ?thesis
    unfolding createQueueInTx_def
    by (intro hoare_bind [OF hoare_noop] hoare_bind [OF hoare_enforce] hoare_bind [OF hoare_metadata])
qed

lemma createQueue_cases:
  assumes "createQueue pq env qt name opts (n, s) = (r, n', s')"
  obtains (unchanged) e where "r = Inl e" "store s' = store s"
    | (ran) k where "withTx env (createQueueInTx pq env qt name (sanitizeTableName name) (GoodConfig opts)) (k, store s) =
        (r, n', store s')"
proof -
  obtain r1 n1 s1 where get: "getQueueMetadata env qt name (n, s) = (r1, n1, s1)" by (metis prod_cases3)
  then have s1: "store s1 = store s" by (rule getQueueMetadata_store)
  obtain r2 n2 d2 where chk: "checkTableNameNotExists env (sanitizeTableName name) (n1, store s1) = (r2, n2, d2)"
    by (metis prod_cases3)
  then have "d2 = store s1"
    by (auto simp: checkTableNameNotExists_def bindT_def stmt_def guardT_def split: option.splits if_splits)
  note run = assms [unfolded createQueue_def]
  show thesis
  proof (cases "validateQueueName name")
    case (Inl e)
    with run show thesis by (intro unchanged [of e]) auto
  next
    case (Inr u)
    with run have "bindT (checkQueueNotExists env qt name) (\<lambda>_.
        bindT (onDb (checkTableNameNotExists env (sanitizeTableName name))) (\<lambda>_.
        onDb (withTx env (createQueueInTx pq env qt name (sanitizeTableName name) (GoodConfig opts))))) (n, s) =
        (r, n', s')"
      by simp
    with get chk \<open>d2 = store s1\<close> s1 have "(\<exists>e. r = Inl e \<and> store s' = store s) \<or>
        (\<exists>k. withTx env (createQueueInTx pq env qt name (sanitizeTableName name) (GoodConfig opts)) (k, store s) =
           (r, n', store s'))"
      by (cases r1; cases r2) (auto simp: bindT_app onDb_app checkQueueNotExists_def
          split: prod.splits if_splits)
    with unchanged ran show thesis by blast
  qed
qed

text \<open>
  C14.  Creating a queue, whatever the driver does, keeps the catalogue: identifiers, table names and
  the pairs of type and name stay unique, and exactly the tables the metadata names exist.  A cap on
  the number of queues is never passed, and a successful call leaves the queue registered under its
  sanitized table name.
\<close>

theorem createQueue_catalogue:
  assumes "catalogue (store s)" and "qt = QueueTypeChannel \<or> qt = QueueTypePubSub"
    and "createQueue pq env qt name opts (n, s) = (r, n', s')"
  shows "catalogue (store s') \<and>
         (0 < maxQueues (cfg pq) \<longrightarrow>
            int (length (pgqueue_metadata (store s'))) \<le>
              max (int (length (pgqueue_metadata (store s)))) (maxQueues (cfg pq))) \<and>
         (r = Inr () \<longrightarrow>
            (\<exists>m \<in> set (pgqueue_metadata (store s')). is_queue qt name m \<and> metaTableName m = sanitizeTableName name))"
  using assms(3)
proof (cases rule: createQueue_cases)
  case unchanged
  then show ?thesis using assms(1) by simp
next
  case (ran k)
  let ?k = "length (pgqueue_metadata (store s))"
  have fin: "created pq qt name (sanitizeTableName name) ?k (store s')"
    if "createQueueInTx pq env qt name (sanitizeTableName name) (GoodConfig opts) (Suc k, store s) = (Inr a, m, store s')" for a m
    using hoareD [OF hoare_createInTx [OF assms(2)], of "store s" ?k] assms(1) that by blast
  from ran show ?thesis
  proof (cases rule: withTx_cases)
    case unchanged
    then show ?thesis using assms(1) by simp
  next
    case (lost a m d)
    then show ?thesis using fin by (auto simp: created_def)
  next
    case (committed a m)
    then show ?thesis using fin by (auto simp: created_def)
  qed
qed

theorem createQueue_catalogue_witness:
  "\<exists>r n' s'. createQueue pq0 env0 QueueTypePubSub ''news'' (applyQueueOptions []) (0, sys_with pending_tables) =
     (r, n', s') \<and> catalogue (store s')"
proof -
  have "tables_of QueueTypeChannel [meta0] = {''orders''}" "tables_of QueueTypePubSub [meta0] = {}"
    by code_simp+
  then have cat: "catalogue (store (sys_with pending_tables))"
    by (simp add: catalogue_def sys_with_def)
  obtain r n' s' where run: "createQueue pq0 env0 QueueTypePubSub ''news'' (applyQueueOptions [])
      (0, sys_with pending_tables) = (r, n', s')"
    by (rule prod_cases3)
  from createQueue_catalogue [OF cat _ run] have "catalogue (store s')" by blast
  with run show ?thesis by blast
qed

section \<open>Listing\<close>

text \<open>A page taken off a list sorted by a unique key: what is after its last key is the rest.\<close>

lemma sorted_page:
  assumes "sorted (map key (page @ rest))" and "distinct (map key (page @ rest))" and "page \<noteq> []"
    and "x \<in> set (page @ rest)"
  shows "x \<in> set rest \<longleftrightarrow> key (last page) < key x"
proof
  assume "x \<in> set rest"
  moreover have "last page \<in> set page" using assms(3) by simp
  ultimately show "key (last page) < key x" using assms(1,2) by (force simp: sorted_append less_le)
next
  assume lt: "key (last page) < key x"
  have "key y \<le> key (last page)" if "y \<in> set page" for y
  proof -
    have "page = butlast page @ [last page]" using assms(3) by simp
    then have "sorted (map key (butlast page @ [last page]))" using assms(1) by (simp add: sorted_append)
    moreover have "y \<in> set (butlast page @ [last page])" using that assms(3) by simp
    ultimately show ?thesis by (auto simp: sorted_append)
  qed
  with lt assms(4) show "x \<in> set rest" by fastforce
qed

lemma sort_key_rest:
  assumes "distinct (map key xs)" and "sort_key key (filter P xs) = page @ rest" and "page \<noteq> []"
    and "\<And>x. x \<in> set xs \<Longrightarrow> Q x \<longleftrightarrow> P x \<and> key (last page) < key x"
  shows "sort_key key (filter Q xs) = rest"
proof (rule map_sorted_distinct_set_unique [where f = key])
  have inj: "inj_on key (set xs)" using assms(1) by (simp add: distinct_map)
  have all: "set (page @ rest) = {x \<in> set xs. P x}" using assms(2) by (metis set_filter set_sort)
  have s: "sorted (map key (page @ rest))" by (metis assms(2) sorted_sort_key)
  have d: "distinct (map key (page @ rest))"
  proof -
    have "distinct (page @ rest)" using assms(1) by (metis assms(2) distinct_filter distinct_map distinct_sort)
    moreover have "inj_on key (set (page @ rest))" by (rule inj_on_subset [OF inj]) (use all in auto)
    ultimately show ?thesis by (simp only: distinct_map)
  qed
  have "x \<in> set rest \<longleftrightarrow> x \<in> set xs \<and> Q x" for x
    using sorted_page [OF s d assms(3), of x] all assms(4) by auto
  then show "set (sort_key key (filter Q xs)) = set rest" by auto
  then show "inj_on key (set (sort_key key (filter Q xs)) \<union> set rest)"
    using inj by (auto intro: inj_on_subset)
  show "sorted (map key rest)" "distinct (map key rest)" using s d by (auto simp: sorted_append)
  show "distinct (map key (sort_key key (filter Q xs)))"
    using assms(1) by (auto simp: distinct_map intro: inj_on_subset)
qed simp

lemma list_pages_all:
  assumes "no_faults env" and "distinct (map metaID (pgqueue_metadata d))"
  shows "\<exists>n'. list_pages env qt a items (n, d) =
           (Inr (items @ sort_key metaID (filter (\<lambda>m. metaQueueType m = qt \<and> after_key a (metaID m)) (pgqueue_metadata d))), n', d)"
  using assms
proof (induction env qt a items "(n, d)" arbitrary: n rule: list_pages.induct)
  case (1 env qt a items n)
  let ?M = "pgqueue_metadata d" and ?P = "\<lambda>m. metaQueueType m = qt \<and> after_key a (metaID m)"
  let ?xs = "sort_key metaID (filter ?P ?M)"
  let ?page = "queue_page qt a ?M"
  have page: "?page = take listQueuesPageSize ?xs" by (simp add: queue_page_def sql_select_def)
  show ?case
  proof (cases "length ?page < listQueuesPageSize")
    case True
    then have "?page = ?xs" by (auto simp: page min_def split: if_splits)
    with True "1.prems"(1) show ?thesis by (subst list_pages.simps) (simp add: Let_def)
  next
    case False
    then have ne: "?page \<noteq> []" by (auto simp: listQueuesPageSize_def)
    let ?l = "metaID (last ?page)"
    have "last ?page \<in> set ?page" using ne by simp
    then have l: "after_key a ?l" unfolding queue_page_def by (auto dest: sql_select_mem)
    have "sort_key metaID (filter (\<lambda>m. metaQueueType m = qt \<and> after_key (Some ?l) (metaID m)) ?M) =
        drop listQueuesPageSize ?xs"
    proof (rule sort_key_rest [OF "1.prems"(2) _ ne])
      show "?xs = ?page @ drop listQueuesPageSize ?xs" by (simp add: page)
      show "(metaQueueType m = qt \<and> after_key (Some ?l) (metaID m)) = (?P m \<and> ?l < metaID m)" for m
        using l by (auto simp: after_key_def split: option.splits)
    qed
    moreover have "list_pages env qt a items (n, d) = list_pages env qt (Some ?l) (items @ ?page) (Suc n, d)"
      using False "1.prems"(1) by (subst list_pages.simps) (simp add: Let_def)
    moreover have "\<exists>n'. list_pages env qt (Some ?l) (items @ ?page) (Suc n, d) =
        (Inr ((items @ ?page) @ sort_key metaID (filter (\<lambda>m. metaQueueType m = qt \<and> after_key (Some ?l) (metaID m)) ?M)), n', d)"
      using "1.hyps" [OF _ refl refl False] "1.prems" by simp
    ultimately show ?thesis by (simp add: page)
  qed
qed

text \<open>
  Listing the queues of a type page by page gives the same list as one unbounded query: every
  queue of that type once, in the order of its identifier, however many pages it takes.
\<close>

theorem listQueuesRaw_complete:
  assumes "no_faults env" and "distinct (map metaID (pgqueue_metadata d))"
  shows "\<exists>n'. listQueuesRaw env qt (n, d) =
           (Inr (sort_key metaID (filter (\<lambda>m. metaQueueType m = qt) (pgqueue_metadata d))), n', d)"
  using list_pages_all [OF assms, of qt None "[]" n] by (simp add: listQueuesRaw_def after_key_def)

theorem listQueuesRaw_complete_witness:
  "\<exists>n'. listQueuesRaw env0 QueueTypeChannel (0, store (sys_with pending_tables)) =
     (Inr [meta0], n', store (sys_with pending_tables))"
proof -
  have "distinct (map metaID (pgqueue_metadata (store (sys_with pending_tables))))"
    "sort_key metaID (filter (\<lambda>m. metaQueueType m = QueueTypeChannel) (pgqueue_metadata (store (sys_with pending_tables)))) = [meta0]"
    by code_simp+
  with listQueuesRaw_complete [OF no_faults_env0, of "store (sys_with pending_tables)" QueueTypeChannel 0]
  show ?thesis by simp
qed

end
