(* ===== verification/PubsubInv.thy ===== *)
theory PubsubInv
  imports Pubsub ChannelInv
begin

text \<open>
  The invariant of a topic's tables and the conservation of its deliveries, for every operation
  of \<^verbatim>\<open>pubsub.go\<close>.  A delivery is owed for every message and subscriber pair: by a subscription
  row or by a dead letter of that subscriber.
\<close>

definition sub_good :: "int \<Rightarrow> sub_row \<Rightarrow> bool" where
  "sub_good maxRetries s \<longleftrightarrow>
     sub_row_ok s \<and> 0 \<le> s_retry_count s \<and>
     s_status s \<in> {MessageStatusPending, MessageStatusProcessing, MessageStatusAcked} \<and>
     (s_status s \<noteq> MessageStatusAcked \<longrightarrow> s_retry_count s \<le> maxRetries) \<and>
     (case s_error_message s of None \<Rightarrow> True | Some e \<Rightarrow> storable e)"

definition topic_inv :: "int \<Rightarrow> topic_tables \<Rightarrow> bool" where
  "topic_inv maxRetries t \<longleftrightarrow>
     distinct (map t_id (tmsgs t)) \<and> distinct (map s_id (subs t)) \<and> distinct (map sub_key (subs t)) \<and>
     distinct (map d_id (tdlq t)) \<and>
     (\<forall>s \<in> set (subs t). s_message_id s \<in> t_id ` set (tmsgs t)) \<and>
     (\<forall>s \<in> set (subs t). sub_good maxRetries s) \<and>
     (\<forall>d \<in> set (tdlq t). dlq_good d)"

definition dead_owed :: "topic_tables \<Rightarrow> (subRecord \<times> bytes \<times> string option) set" where
  "dead_owed t =
     {((d_original_message_id d, s), d_payload d, d_metadata d) | d s.
        d \<in> set (tdlq t) \<and> d_subscriber_id d = Some s}"

definition owed :: "topic_tables \<Rightarrow> (subRecord \<times> bytes \<times> string option) set" where
  "owed t = (\<lambda>(s, m). (sub_key s, t_payload m, t_metadata m)) ` set (joined t) \<union> dead_owed t"

definition topic_with ::
    "int \<Rightarrow> topic_row list \<Rightarrow> (subRecord \<times> bytes \<times> string option) set \<Rightarrow> topic_tables \<Rightarrow> bool" where
  "topic_with maxRetries M S t \<longleftrightarrow> topic_inv maxRetries t \<and> tmsgs t = M \<and> owed t = S"

lemma set_joined: "set (joined t) = {(s, m). s \<in> set (subs t) \<and> m \<in> set (tmsgs t) \<and> s_message_id s = t_id m}"
  by (auto simp: joined_def)

section \<open>Row updates\<close>

lemmas sub_update_defs =
  claim_sub_def ack_sub_def retry_sub_def defer_sub_def extend_sub_def

definition keeps_sub :: "(sub_row \<Rightarrow> sub_row) \<Rightarrow> bool" where
  "keeps_sub f \<longleftrightarrow>
     (\<forall>s. s_id (f s) = s_id s \<and> s_message_id (f s) = s_message_id s \<and> s_subscriber_id (f s) = s_subscriber_id s)"

lemma keeps_sub [simp]:
  "keeps_sub (claim_sub n c d)" "keeps_sub (ack_sub t)" "keeps_sub (retry_sub e t)"
  "keeps_sub (defer_sub n t)" "keeps_sub (extend_sub d)"
  by (simp_all add: keeps_sub_def sub_update_defs)

lemma keeps_sub_key: "keeps_sub f \<Longrightarrow> sub_key (f s) = sub_key s"
  by (simp add: keeps_sub_def sub_key_def)

lemma sub_good_claim:
  "sub_good mr s \<Longrightarrow> 0 \<le> n \<Longrightarrow> n \<le> mr \<Longrightarrow> sub_good mr (claim_sub n c d s)"
  using sub_lease.row_ok_claim [of n c d s] by (simp add: sub_good_def) (simp add: claim_sub_def)

lemma sub_good_ack: "sub_good mr s \<Longrightarrow> sub_good mr (ack_sub now s)"
  using sub_lease.row_ok_ack [of now s] by (simp add: sub_good_def) (simp add: ack_sub_def)

lemma sub_good_retry:
  "sub_good mr s \<Longrightarrow> s_retry_count s + 1 \<le> mr \<Longrightarrow> storable e \<Longrightarrow> sub_good mr (retry_sub e t s)"
  using sub_lease.row_ok_retry [of e t s] by (simp add: sub_good_def) (simp add: retry_sub_def)

lemma sub_good_defer:
  "sub_good mr s \<Longrightarrow> 0 \<le> n \<Longrightarrow> n \<le> mr \<Longrightarrow> sub_good mr (defer_sub n t s)"
  using sub_lease.row_ok_defer [of n t s] by (simp add: sub_good_def) (simp add: defer_sub_def)

lemma sub_good_extend: "sub_good mr s \<Longrightarrow> live_sub k c s \<Longrightarrow> sub_good mr (extend_sub d s)"
  using sub_lease.row_ok_extend [of k c s d]
  by (simp add: sub_good_def live_sub_def) (simp add: extend_sub_def)

lemma owed_update:
  assumes "keeps_sub f"
  shows "owed (t\<lparr>subs := sql_update P f (subs t)\<rparr>) = owed t"
proof -
  let ?f = "\<lambda>s. if P s then f s else s"
  have k: "s_message_id (?f s) = s_message_id s" "sub_key (?f s) = sub_key s" for s
    using assms by (simp_all add: keeps_sub_def sub_key_def)
  have "set (joined (t\<lparr>subs := sql_update P f (subs t)\<rparr>)) = (\<lambda>(s, m). (?f s, m)) ` set (joined t)"
  proof (intro set_eqI iffI)
    fix x assume "x \<in> set (joined (t\<lparr>subs := sql_update P f (subs t)\<rparr>))"
    then obtain s m where "s \<in> set (subs t)" "m \<in> set (tmsgs t)" "x = (?f s, m)" "s_message_id (?f s) = t_id m"
      by (auto simp: set_joined set_sql_update)
    then have "(s, m) \<in> set (joined t)" "x = (\<lambda>(s, m). (?f s, m)) (s, m)" using k(1) [of s] by (simp_all add: set_joined)
    then show "x \<in> (\<lambda>(s, m). (?f s, m)) ` set (joined t)" by (rule rev_image_eqI)
  next
    fix x assume "x \<in> (\<lambda>(s, m). (?f s, m)) ` set (joined t)"
    then obtain s m where "(s, m) \<in> set (joined t)" "x = (?f s, m)" by auto
    then show "x \<in> set (joined (t\<lparr>subs := sql_update P f (subs t)\<rparr>))"
      using k(1) [of s] by (auto simp: set_joined set_sql_update)
  qed
  moreover have "dead_owed (t\<lparr>subs := sql_update P f (subs t)\<rparr>) = dead_owed t"
    by (simp add: dead_owed_def)
  ultimately show ?thesis using k(2) by (simp add: owed_def image_image case_prod_beta)
qed

lemma topic_with_update:
  assumes "topic_with mr M S t" and "keeps_sub f"
    and "\<And>s. s \<in> set (subs t) \<Longrightarrow> P s \<Longrightarrow> sub_good mr s \<Longrightarrow> sub_good mr (f s)"
  shows "topic_with mr M S (t\<lparr>subs := sql_update P f (subs t)\<rparr>)"
proof -
  have "map s_id (sql_update P f (subs t)) = map s_id (subs t)"
    "map sub_key (sql_update P f (subs t)) = map sub_key (subs t)"
    using assms(2) by (auto intro!: map_sql_update simp: keeps_sub_def sub_key_def)
  moreover have "s_message_id (f s) = s_message_id s" for s using assms(2) by (simp add: keeps_sub_def)
  ultimately show ?thesis
    using assms owed_update [OF assms(2)]
    by (auto simp: topic_with_def topic_inv_def set_sql_update)
qed

lemma topic_same_id:
  "topic_with mr M S t \<Longrightarrow> x \<in> set (subs t) \<Longrightarrow> y \<in> set (subs t) \<Longrightarrow> s_id x = s_id y \<Longrightarrow> x = y"
  by (auto simp: topic_with_def topic_inv_def dest: distinct_map_unique)

lemma topic_same_key:
  "topic_with mr M S t \<Longrightarrow> x \<in> set (subs t) \<Longrightarrow> y \<in> set (subs t) \<Longrightarrow> sub_key x = sub_key y \<Longrightarrow> x = y"
  by (auto simp: topic_with_def topic_inv_def dest: distinct_map_unique)

lemma topic_sub: "topic_with mr M S t \<Longrightarrow> s \<in> set (subs t) \<Longrightarrow> sub_good mr s"
  by (simp add: topic_with_def topic_inv_def)

lemma topic_with_update_id:
  assumes "topic_with mr M S t" and "s0 \<in> set (subs t)" and "keeps_sub f"
    and "sub_good mr s0 \<Longrightarrow> sub_good mr (f s0)"
  shows "topic_with mr M S (t\<lparr>subs := sql_update (\<lambda>s. s_id s = s_id s0) f (subs t)\<rparr>)"
  using assms topic_same_id by (intro topic_with_update) blast+

lemma topic_with_update_key:
  assumes "topic_with mr M S t" and "s0 \<in> set (subs t)" and "keeps_sub f"
    and "sub_good mr s0 \<Longrightarrow> sub_good mr (f s0)"
  shows "topic_with mr M S (t\<lparr>subs := sql_update (\<lambda>s. sub_key s = sub_key s0) f (subs t)\<rparr>)"
  using assms topic_same_key by (intro topic_with_update) blast+

section \<open>Statements\<close>

lemma hoare_classify_topic [hoare_intro]: "hoare P (classifyTopicAckMiss env sid r) Q"
  unfolding classifyTopicAckMiss_def
  by (rule hoare_bind [where Q = "\<lambda>_ _. True"]) (auto intro: hoare_stmt hoare_fail)

lemma hoare_fencedSub:
  assumes "keeps_sub f"
    and "\<And>s. sub_good mr s \<Longrightarrow> live_sub (MessageID r, sid) (ClaimID r) s \<Longrightarrow> sub_good mr (f s)"
  shows "hoare (topic_with mr M S) (fencedSubUpdate env sid r f) (\<lambda>_. topic_with mr M S)"
  unfolding fencedSubUpdate_def
proof (rule hoare_bind)
  show "hoare (topic_with mr M S)
     (stmt env (\<lambda>n t. let P = live_sub (MessageID r, sid) (ClaimID r) in
        (sql_count P (subs t), t\<lparr>subs := sql_update P f (subs t)\<rparr>))) (\<lambda>_. topic_with mr M S)"
    using assms by (intro hoare_stmt) (auto simp: Let_def intro!: topic_with_update)
  show "hoare (topic_with mr M S) (if rows = 0 then classifyTopicAckMiss env sid r else returnT ())
          (\<lambda>_. topic_with mr M S)" for rows :: nat
    by (intro hoare_if hoare_classify_topic hoare_return)
qed

lemma topic_with_delete:
  assumes t: "topic_with mr M S t" and j: "(s0, m0) \<in> set (joined t)"
    and dead: "(sub_key s0, t_payload m0, t_metadata m0) \<in> dead_owed t"
  shows "topic_with mr M S (t\<lparr>subs := sql_delete (\<lambda>s. sub_key s = sub_key s0) (subs t)\<rparr>)"
proof -
  let ?t = "t\<lparr>subs := sql_delete (\<lambda>s. sub_key s = sub_key s0) (subs t)\<rparr>"
  have s0: "s0 \<in> set (subs t)" "m0 \<in> set (tmsgs t)" "s_message_id s0 = t_id m0"
    using j by (auto simp: set_joined)
  have gone: "(sub_key s, t_payload m, t_metadata m) \<in> dead_owed t"
    if "(s, m) \<in> set (joined t)" "sub_key s = sub_key s0" for s m
  proof -
    have "s = s0" using that s0 t by (auto simp: set_joined dest: topic_same_key)
    moreover have "distinct (map t_id (tmsgs t))" using t unfolding topic_with_def topic_inv_def by blast
    ultimately have "m = m0" using that s0 distinct_map_unique [of t_id "tmsgs t" m m0]
      by (auto simp: set_joined)
    with dead \<open>s = s0\<close> show ?thesis by simp
  qed
  have "set (joined ?t) = {x \<in> set (joined t). sub_key (fst x) \<noteq> sub_key s0}"
    by (auto simp: set_joined)
  moreover have "dead_owed ?t = dead_owed t" by (simp add: dead_owed_def)
  ultimately have "owed ?t = owed t" unfolding owed_def using gone by (auto intro!: image_Un_cover)
  with t show ?thesis unfolding topic_with_def topic_inv_def by auto
qed

lemma dead_owed_append:
  assumes "d_subscriber_id d = Some s"
  shows "dead_owed (t\<lparr>tdlq := tdlq t @ [d]\<rparr>) =
           insert ((d_original_message_id d, s), d_payload d, d_metadata d) (dead_owed t)"
  using assms by (auto simp: dead_owed_def)

lemma hoare_moveSubToDLQ:
  "hoare (\<lambda>t. topic_with mr M S t \<and> (s, m) \<in> set (joined t))
     (moveSubToDLQ env (s_message_id s) (s_subscriber_id s) e (s, m)) (\<lambda>_. topic_with mr M S)"
  unfolding moveSubToDLQ_def
proof (rule hoare_bind)
  let ?row = "\<lambda>n. \<lparr>d_id = uuidv7 env n 0, d_original_message_id = s_message_id s,
       d_subscriber_id = Some (s_subscriber_id s), d_payload = t_payload (snd (s, m)),
       d_failure_reason = truncateErrorMsg e, d_retry_count = s_retry_count (fst (s, m)) + 1,
       d_moved_at = NOW env, d_metadata = t_metadata (snd (s, m))\<rparr>"
  let ?k = "(sub_key s, t_payload m, t_metadata m)"
  show "hoare (\<lambda>t. topic_with mr M S t \<and> (s, m) \<in> set (joined t))
     (stmtE env (\<lambda>n t. case insert_dlq env (?row n) (tdlq t) of Inl e \<Rightarrow> Inl e
        | Inr rows \<Rightarrow> Inr ((), t\<lparr>tdlq := rows\<rparr>)))
     (\<lambda>_ t. topic_with mr M S t \<and> (s, m) \<in> set (joined t) \<and> ?k \<in> dead_owed t)"
  proof (rule hoare_stmtE, elim conjE)
    fix n t a t'
    assume t: "topic_with mr M S t" "(s, m) \<in> set (joined t)"
      and run: "(case insert_dlq env (?row n) (tdlq t) of Inl e \<Rightarrow> Inl e
        | Inr rows \<Rightarrow> Inr ((), t\<lparr>tdlq := rows\<rparr>)) = Inr (a, t')"
    then have t': "t' = t\<lparr>tdlq := tdlq t @ [?row n]\<rparr>" and fresh: "uuidv7 env n 0 \<notin> d_id ` set (tdlq t)"
      by (auto simp: insert_dlq_def split: if_splits)
    have j: "joined t' = joined t" by (simp add: t' joined_def)
    have k: "?k \<in> owed t" using t(2) by (force simp: owed_def)
    have "0 \<le> s_retry_count s" using t topic_sub by (fastforce simp: set_joined sub_good_def)
    then have "topic_inv mr t'" using t(1) fresh unfolding topic_with_def topic_inv_def t'
      by (auto simp: dlq_good_def)
    moreover have d: "dead_owed t' = insert ?k (dead_owed t)"
      unfolding t' by (subst dead_owed_append) (simp_all add: sub_key_def)
    moreover have "owed t' = insert ?k (owed t)"
      unfolding owed_def j d by simp
    moreover have "?k \<in> dead_owed t'" unfolding d by simp
    ultimately show "topic_with mr M S t' \<and> (s, m) \<in> set (joined t') \<and> ?k \<in> dead_owed t'"
      using t k unfolding topic_with_def j by (simp add: t' insert_absorb)
  qed
  show "hoare (\<lambda>t. topic_with mr M S t \<and> (s, m) \<in> set (joined t) \<and> ?k \<in> dead_owed t)
     (stmt env (\<lambda>n t. ((), t\<lparr>subs := sql_delete
        (\<lambda>x. sub_key x = (s_message_id s, s_subscriber_id s)) (subs t)\<rparr>))) (\<lambda>_. topic_with mr M S)"
    unfolding sub_key_def [of s, symmetric]
    by (rule hoare_stmt) (auto intro!: topic_with_delete)
qed

lemma hoare_retrySub:
  "storable e \<Longrightarrow>
   hoare (\<lambda>t. topic_with mr M S t \<and> s \<in> set (subs t) \<and> s_retry_count s + 1 \<le> mr)
     (retrySubscription env (s_message_id s) (s_subscriber_id s) e delay) (\<lambda>_. topic_with mr M S)"
  unfolding retrySubscription_def sub_key_def [of s, symmetric]
  by (rule hoare_stmt) (auto intro!: topic_with_update_key sub_good_retry)

lemma hoare_deferSub:
  "hoare (\<lambda>t. topic_with mr M S t \<and> s \<in> set (subs t) \<and> 0 \<le> n \<and> n \<le> mr)
     (deferReclaimedSubscription env (s_id s) n delay) (\<lambda>_. topic_with mr M S)"
  unfolding deferReclaimedSubscription_def
  by (rule hoare_stmt) (auto intro!: topic_with_update_id sub_good_defer)

definition delivered_sub :: "int \<Rightarrow> string \<Rightarrow> (Message \<times> timestamp) option \<Rightarrow> topic_tables \<Rightarrow> bool" where
  "delivered_sub mr sid m t \<longleftrightarrow>
     (case m of
        None \<Rightarrow> True
      | Some (m, _) \<Rightarrow>
          0 \<le> msgRetryCount m \<and> msgRetryCount m \<le> mr \<and>
          (\<exists>s \<in> set (subs t). live_sub (msgID m, sid) (msgClaimID m) s))"

lemma hoare_claimSub:
  "hoare (\<lambda>t. topic_with mr M S t \<and> fst row \<in> set (subs t) \<and> s_subscriber_id (fst row) = sid \<and> 0 \<le> n \<and> n \<le> mr)
     (claimTopicSubscription env vt row n mr) (\<lambda>m t. topic_with mr M S t \<and> delivered_sub mr sid (Some m) t)"
  unfolding claimTopicSubscription_def
proof (rule hoare_bind)
  let ?s = "fst row"
  show "hoare (\<lambda>t. topic_with mr M S t \<and> ?s \<in> set (subs t) \<and> s_subscriber_id ?s = sid \<and> 0 \<le> n \<and> n \<le> mr)
     (stmtE env (\<lambda>k t.
          let deadline = NOW env + make_interval env vt; c = uuidv7 env k 0 in
          if \<exists>s \<in> set (subs t). s_id s = s_id ?s then
            Inr ((deadline, c),
                 t\<lparr>subs := sql_update (\<lambda>s. s_id s = s_id ?s) (claim_sub n c deadline) (subs t)\<rparr>)
          else Inl sql_ErrNoRows))
     (\<lambda>(d, c) t. topic_with mr M S t \<and> 0 \<le> n \<and> n \<le> mr \<and>
        (\<exists>s \<in> set (subs t). live_sub (s_message_id ?s, sid) c s))"
  proof (rule hoare_stmtE, clarsimp simp: Let_def split: if_splits, intro conjI)
    fix k t
    assume t: "topic_with mr M S t" "?s \<in> set (subs t)" "sid = s_subscriber_id ?s" "0 \<le> n" "n \<le> mr"
    let ?c = "claim_sub n (uuidv7 env k 0) (NOW env + make_interval env vt)"
    show "topic_with mr M S (t\<lparr>subs := sql_update (\<lambda>s. s_id s = s_id ?s) ?c (subs t)\<rparr>)"
      using t by (intro topic_with_update_id sub_good_claim) auto
    have "?c ?s \<in> set (sql_update (\<lambda>s. s_id s = s_id ?s) ?c (subs t))"
      using t(2) by (force simp: set_sql_update)
    then show "\<exists>s \<in> set (sql_update (\<lambda>s. s_id s = s_id ?s) ?c (subs t)).
        live_sub (s_message_id ?s, s_subscriber_id ?s) (uuidv7 env k 0) s"
      using sub_lease.live_claim [of ?s] unfolding sub_key_def by blast
  qed
qed (auto simp: delivered_sub_def intro!: hoare_return)

section \<open>Operations\<close>

lemma hoare_getProcessingSubState:
  "hoare (topic_with mr M S) (getProcessingSubState env r sid)
     (\<lambda>(s, m) t. topic_with mr M S t \<and> (s, m) \<in> set (joined t) \<and> live_sub (MessageID r, sid) (ClaimID r) s)"
  unfolding getProcessingSubState_def
proof (rule hoare_bind)
  show "hoare (topic_with mr M S)
     (stmt env (\<lambda>n t. (find (\<lambda>(s, m). live_sub (MessageID r, sid) (ClaimID r) s) (joined t), t)))
     (\<lambda>row t. topic_with mr M S t \<and>
        (\<forall>s m. row = Some (s, m) \<longrightarrow> (s, m) \<in> set (joined t) \<and> live_sub (MessageID r, sid) (ClaimID r) s))"
    by (rule hoare_stmt) (auto dest: find_SomeD)
qed (auto split: option.split intro!: hoare_classify_topic hoare_return)

lemma hoare_nackTopicBody:
  assumes "storable e"
  shows "hoare (topic_with mr M S) (nackTopicBody pq env sid r e delay mr) (\<lambda>_. topic_with mr M S)"
  unfolding nackTopicBody_def
proof (rule hoare_bind [OF hoare_getProcessingSubState])
  fix state :: "sub_row \<times> topic_row"
  obtain s m where st: "state = (s, m)" by fastforce
  show "hoare (case state of (s, m) \<Rightarrow> \<lambda>t. topic_with mr M S t \<and> (s, m) \<in> set (joined t) \<and>
            live_sub (MessageID r, sid) (ClaimID r) s)
     (let retryCount = s_retry_count (fst state) in
       if retryCount + 1 > mr then moveSubToDLQ env (MessageID r) sid e state
       else bindT (randT env) (\<lambda>rnds. retrySubscription env (MessageID r) sid e
              (computeRetryDelay env (backoffPolicy (cfg pq)) rnds (retryCount + 1) delay)))
     (\<lambda>_. topic_with mr M S)"
  proof (cases "MessageID r = s_message_id s \<and> sid = s_subscriber_id s")
    case True
    have move: "hoare (\<lambda>t. topic_with mr M S t \<and> (s, m) \<in> set (joined t) \<and> live_sub (MessageID r, sid) (ClaimID r) s)
        (moveSubToDLQ env (s_message_id s) (s_subscriber_id s) e (s, m)) (\<lambda>_. topic_with mr M S)"
      by (rule hoare_pre [OF hoare_moveSubToDLQ]) simp
    have retry: "hoare (\<lambda>t. topic_with mr M S t \<and> (s, m) \<in> set (joined t) \<and> live_sub (MessageID r, sid) (ClaimID r) s)
        (retrySubscription env (s_message_id s) (s_subscriber_id s) e d) (\<lambda>_. topic_with mr M S)"
      if "s_retry_count s + 1 \<le> mr" for d
      by (rule hoare_pre [OF hoare_retrySub [OF assms]]) (use that in \<open>simp add: set_joined\<close>)
    from True move retry show ?thesis
      unfolding st Let_def by (auto intro!: hoare_bind [OF hoare_rand_keep])
  next
    case False
    then show ?thesis by (auto simp: st hoare_def live_sub_def sub_key_def)
  qed
qed

lemma hoare_reclaimSub:
  "hoare (\<lambda>t. topic_with mr M S t \<and> row \<in> set (joined t) \<and> s_subscriber_id (fst row) = sid)
     (reclaimTopicAttempt pq env sid row mr)
     (\<lambda>(n, dlqd) t. topic_with mr M S t \<and>
        (\<not> dlqd \<longrightarrow> fst row \<in> set (subs t) \<and> s_subscriber_id (fst row) = sid \<and> 0 \<le> n \<and> n \<le> mr))"
proof -
  obtain s m where row: "row = (s, m)" by fastforce
  let ?P = "\<lambda>t. topic_with mr M S t \<and> (s, m) \<in> set (joined t) \<and> s_subscriber_id s = sid"
  have ok: "0 \<le> s_retry_count s \<and> (s_status s \<noteq> MessageStatusAcked \<longrightarrow> s_retry_count s \<le> mr)"
    if "topic_with mr M S t" "(s, m) \<in> set (joined t)" for t
    using topic_sub [OF that(1), of s] that(2) by (simp add: set_joined sub_good_def)
  have move: "hoare ?P (moveSubToDLQ env (s_message_id s) sid e (s, m)) (\<lambda>_. topic_with mr M S)" for e
  proof (cases "sid = s_subscriber_id s")
    case True
    then show ?thesis using hoare_pre [OF hoare_moveSubToDLQ [of mr M S s m env e], of ?P] by simp
  qed (simp add: hoare_def)
  have defr: "hoare ?P (deferReclaimedSubscription env (s_id s) (s_retry_count s + 1) d) (\<lambda>_. topic_with mr M S)"
    if "s_retry_count s + 1 \<le> mr" for d
    by (rule hoare_pre [OF hoare_deferSub]) (use that ok in \<open>fastforce simp: set_joined\<close>)
  have keep: "hoare ?P (returnT (k, False)) (\<lambda>(n, dlqd) t. topic_with mr M S t \<and>
        (\<not> dlqd \<longrightarrow> s \<in> set (subs t) \<and> s_subscriber_id s = sid \<and> 0 \<le> n \<and> n \<le> mr))"
    if "\<And>t. ?P t \<Longrightarrow> 0 \<le> k \<and> k \<le> mr" for k
    by (rule hoare_return) (use that in \<open>auto simp: set_joined\<close>)
  have keep0: "hoare ?P (returnT (s_retry_count s, False)) (\<lambda>(n, dlqd) t. topic_with mr M S t \<and>
        (\<not> dlqd \<longrightarrow> s \<in> set (subs t) \<and> s_subscriber_id s = sid \<and> 0 \<le> n \<and> n \<le> mr))"
    if "s_status s = MessageStatusPending"
    by (rule keep) (use ok that in auto)
  have keep1: "hoare ?P (returnT (s_retry_count s + 1, False)) (\<lambda>(n, dlqd) t. topic_with mr M S t \<and>
        (\<not> dlqd \<longrightarrow> s \<in> set (subs t) \<and> s_subscriber_id s = sid \<and> 0 \<le> n \<and> n \<le> mr))"
    if "s_retry_count s + 1 \<le> mr"
    by (rule keep) (use ok that in fastforce)
  show ?thesis
    unfolding reclaimTopicAttempt_def Let_def row fst_conv
    by (auto split: MessageStatus.split simp: keep0 keep1
        intro!: hoare_fail hoare_bind [OF hoare_rand_keep] hoare_bind [OF defr] hoare_bind [OF move] hoare_return)
qed

lemma hoare_probes_sub:
  "hoare (topic_with mr M S) (probePendingSub env sid ttl)
     (\<lambda>row t. topic_with mr M S t \<and> (\<forall>c. row = Some c \<longrightarrow> c \<in> set (joined t) \<and> pendingSub env sid ttl c))"
  "hoare (topic_with mr M S) (probeReclaimSub env sid ttl)
     (\<lambda>row t. topic_with mr M S t \<and> (\<forall>c. row = Some c \<longrightarrow> c \<in> set (joined t) \<and> reclaimSub env sid ttl c))"
  unfolding probePendingSub_def probeReclaimSub_def
  by (rule hoare_stmt; auto dest: sql_first_Some(1,2))+

lemma hoare_fetchTopic:
  assumes "skips < maxConsumeReclaimDefers"
  shows "hoare (topic_with mr M S) (fetchPendingTopicMessage pq env sid vt ttl mr skips)
     (\<lambda>m t. topic_with mr M S t \<and> delivered_sub mr sid m t)"
proof (rule topic_scan.scan_hoare [where I = "\<lambda>_. topic_with mr M S"
      and CL = "\<lambda>row n t. fst row \<in> set (subs t) \<and> s_subscriber_id (fst row) = sid \<and> 0 \<le> n \<and> n \<le> mr",
      OF hoare_probes_sub(1) hoare_probes_sub(2) _ _ hoare_claimSub _ assms])
  show "hoare (\<lambda>t. topic_with mr M S t \<and> c \<in> set (joined t) \<and> pendingSub env sid ttl c)
     (claimTopicSubscription env vt c (s_retry_count (fst c)) mr)
     (\<lambda>m t. topic_with mr M S t \<and> delivered_sub mr sid (Some m) t)" for c
  proof (rule hoare_pre [OF hoare_claimSub], elim conjE)
    fix t assume t: "topic_with mr M S t" "c \<in> set (joined t)" "pendingSub env sid ttl c"
    then have "fst c \<in> set (subs t)" by (auto simp: set_joined)
    with t topic_sub [OF t(1) this]
    show "topic_with mr M S t \<and> fst c \<in> set (subs t) \<and> s_subscriber_id (fst c) = sid \<and>
        0 \<le> s_retry_count (fst c) \<and> s_retry_count (fst c) \<le> mr"
      by (auto simp: pendingSub_def sub_good_def)
  qed
  show "hoare (\<lambda>t. topic_with mr M S t \<and> c \<in> set (joined t) \<and> reclaimSub env sid ttl c)
     (reclaimTopicAttempt pq env sid c mr)
     (\<lambda>(n, deferred) t. if deferred then topic_with mr M S t else topic_with mr M S t \<and>
        fst c \<in> set (subs t) \<and> s_subscriber_id (fst c) = sid \<and> 0 \<le> n \<and> n \<le> mr)" for c
    by (rule hoare_post [OF hoare_pre [OF hoare_reclaimSub]]) (auto simp: reclaimSub_def split: if_splits)
qed (simp add: delivered_sub_def)

lemma hoare_ackSub:
  "hoare (topic_with mr M S) (fencedSubUpdate env sid r (ack_sub now)) (\<lambda>_. topic_with mr M S)"
  by (rule hoare_fencedSub) (auto intro: sub_good_ack)

lemma hoare_extendSub:
  "hoare (topic_with mr M S) (fencedSubUpdate env sid r (extend_sub d)) (\<lambda>_. topic_with mr M S)"
  by (rule hoare_fencedSub) (auto intro: sub_good_extend)

end
