(* ===== verification/PubsubSpec.thy ===== *)
theory PubsubSpec
  imports PubsubInv ChannelSpec
begin

text \<open>
  What the topic operations do to a process state: how a call reaches the tables of its topic,
  the functional behaviour of the fenced updates, and the frame condition that a subscriber's
  calls touch only that subscriber's rows.
\<close>

definition topic_of :: "sys \<Rightarrow> string \<Rightarrow> topic_tables option" where
  "topic_of s name =
     (case find (is_queue QueueTypePubSub name) (pgqueue_metadata (store s)) of
        None \<Rightarrow> None
      | Some meta \<Rightarrow> topics (store s) (metaTableName meta))"

definition put_topic :: "string \<Rightarrow> topic_tables \<Rightarrow> db \<Rightarrow> db" where
  "put_topic tbl t d = d\<lparr>topics := (topics d)(tbl \<mapsto> t)\<rparr>"

definition topic_meta :: "sys \<Rightarrow> string \<Rightarrow> queueMetadata option" where
  "topic_meta s name = find (is_queue QueueTypePubSub name) (pgqueue_metadata (store s))"

section \<open>Running a transaction on a topic\<close>

lemma withTx_onTopic:
  assumes "no_faults env" and "topics d tbl = Some t"
  shows "withTx env (onTopic env tbl m) (n, d) =
           (case m (Suc n, t) of
              (Inl e, n', _) \<Rightarrow> (Inl e, Suc n', d)
            | (Inr a, n', t') \<Rightarrow> (Inr a, Suc n', put_topic tbl t' d))"
  using assms by (simp add: withTx_ok onTopic_def put_topic_def split: prod.split sum.split)

lemma topic_ofE:
  assumes "topic_of s name = Some t"
  obtains meta where "topic_meta s name = Some meta" and "topics (store s) (metaTableName meta) = Some t"
  using assms by (auto simp: topic_of_def topic_meta_def split: option.splits)

lemma topic_of_store: "store s' = store s \<Longrightarrow> topic_of s' name = topic_of s name"
  by (simp add: topic_of_def split: option.split)

lemma topic_tx_cases:
  assumes "onDb (withTx env (onTopic env tbl m)) (n, s) = (r, n', s')"
  obtains (unchanged) e where "r = Inl e" "s' = s"
    | (ran) t a t' k k' where "topics (store s) tbl = Some t" "m (k, t) = (Inr a, k', t')"
        "s' = s\<lparr>store := put_topic tbl t' (store s)\<rparr>" "r = Inr a \<or> (\<exists>d. r = Inl (ErrDriver d))"
proof -
  obtain d' where run: "withTx env (onTopic env tbl m) (n, store s) = (r, n', d')"
      and s': "s' = s\<lparr>store := d'\<rparr>"
    using assms by (auto simp: onDb_app split: prod.splits)
  have inner: "\<exists>t t'. topics (store s) tbl = Some t \<and> m (k, t) = (Inr a, k', t') \<and>
                 d' = put_topic tbl t' (store s)"
    if "onTopic env tbl m (k, store s) = (Inr a, k', d')" for k a k'
    using that by (auto simp: onTopic_def put_topic_def split: option.splits prod.splits)
  from run show thesis
  proof (cases rule: withTx_cases)
    case unchanged
    then show thesis using s' that(1) by simp
  next
    case (lost a k d)
    then show thesis using inner [OF lost(1)] s' that(2) by blast
  next
    case (committed a k)
    then show thesis using inner [OF committed(1)] s' that(2) by blast
  qed
qed

text \<open>
  A topic call after its own validation: it did nothing, or completed one run of the body of its
  transaction on the topic's tables.
\<close>

lemma topic_call_cases:
  assumes "bindT (notFoundAs e0 (getQueueMetadata env QueueTypePubSub name))
      (\<lambda>meta. if P meta then failT e1
              else bindT (onDb (withTx env (onTopic env (metaTableName meta) (body meta))))
                     (\<lambda>a. returnT (h a))) (n, s) = (r, n', s')"
  obtains (unchanged) e where "r = Inl e" "store s' = store s"
    | (ran) meta t a t' k k'
      where "topic_meta s name = Some meta" "\<not> P meta" "topic_of s name = Some t"
        "body meta (k, t) = (Inr a, k', t')" "topic_of s' name = Some t'"
        "store s' = put_topic (metaTableName meta) t' (store s)"
        "r = Inr (h a) \<or> (\<exists>d. r = Inl (ErrDriver d))"
proof -
  obtain r1 n1 s1 where get:
      "notFoundAs e0 (getQueueMetadata env QueueTypePubSub name) (n, s) = (r1, n1, s1)"
    by (metis prod_cases3)
  note st = notFoundAs_getQueueMetadata [OF get]
  consider e where "r1 = Inl e" | meta where "r1 = Inr meta" "P meta" | meta where "r1 = Inr meta" "\<not> P meta"
    by (cases r1) auto
  then show thesis
  proof cases
    case (1 e)
    then show thesis using assms get st(1) unchanged [of e] by (simp add: bindT_app)
  next
    case (2 meta)
    then show thesis using assms get st(1) unchanged [of e1] by (simp add: bindT_app)
  next
    case (3 meta)
    note meta = st(2) [OF 3(1)]
    obtain r2 where tx: "onDb (withTx env (onTopic env (metaTableName meta) (body meta))) (n1, s1) =
          (r2, n', s')"
        and r: "r = (case r2 of Inl e \<Rightarrow> Inl e | Inr a \<Rightarrow> Inr (h a))"
      using assms get 3 by (auto simp: bindT_app split: prod.splits sum.splits)
    from tx show thesis
    proof (cases rule: topic_tx_cases)
      case (unchanged e)
      then show thesis using r st(1) that(1) by simp
    next
      case (ran t a t' k k')
      then have "topic_of s name = Some t" "topic_of s' name = Some t'"
        "store s' = put_topic (metaTableName meta) t' (store s)"
        using meta st(1) by (simp_all add: topic_of_def put_topic_def)
      with ran r meta 3 show thesis by (intro that(2)) (auto simp: topic_meta_def)
    qed
  qed
qed

text \<open>The same for a call without guard and result conversion (ack, extend, nack).\<close>

lemma topic_update_cases:
  assumes "bindT (liftE (validateSubscriberID sid)) (\<lambda>_.
      bindT (notFoundAs e0 (getQueueMetadata env QueueTypePubSub name)) (\<lambda>meta.
        onDb (withTx env (onTopic env (metaTableName meta) (body meta))))) (n, s) = (r, n', s')"
  obtains (unchanged) e where "r = Inl e" "store s' = store s"
    | (ran) meta t a t' k k'
      where "topic_meta s name = Some meta" "topic_of s name = Some t"
        "body meta (k, t) = (Inr a, k', t')" "topic_of s' name = Some t'"
        "store s' = put_topic (metaTableName meta) t' (store s)"
        "r = Inr a \<or> (\<exists>d. r = Inl (ErrDriver d))"
proof (cases "validateSubscriberID sid")
  case (Inl e)
  then show thesis using assms unchanged [of e] by simp
next
  case (Inr u)
  have eq: "bindT m (\<lambda>a. returnT a) = m" for m :: "(sys, 'b) txm"
    by (rule ext) (auto simp: bindT_def split: prod.split sum.split)
  have "bindT (notFoundAs e0 (getQueueMetadata env QueueTypePubSub name))
      (\<lambda>meta. if False then failT e0
              else bindT (onDb (withTx env (onTopic env (metaTableName meta) (body meta))))
                     (\<lambda>a. returnT a)) (n, s) = (r, n', s')"
    using assms Inr by (simp only: if_False eq) simp
  then show thesis
    by (cases rule: topic_call_cases) (auto intro: that)
qed

lemma consumeTopic_cases:
  assumes "consumeFromTopic pq env name sid vt (n, s) = (r, n', s')"
  obtains (unchanged) e where "r = Inl e" "store s' = store s"
    | (ran) meta t m t' k k' where "topic_meta s name = Some meta" "topic_of s name = Some t"
        "fetchPendingTopicMessage pq env sid vt (getQueueTTL pq (metaConfig meta)) (resolveMaxRetries pq meta) 0 (k, t)
           = (Inr m, k', t')"
        "topic_of s' name = Some t'" "store s' = put_topic (metaTableName meta) t' (store s)"
        "r = Inr (map_option (\<lambda>(msg, vis). msg\<lparr>msgVisibilityTimeout := Some vis\<rparr>) m) \<or>
         (\<exists>d. r = Inl (ErrDriver d))"
proof (cases "closed pq \<or> validateVisibilityTimeout vt \<noteq> Inr () \<or> validateSubscriberID sid \<noteq> Inr ()")
  case True
  then have "\<exists>e. r = Inl e \<and> s' = s"
    using assms
    by (cases "validateVisibilityTimeout vt"; cases "validateSubscriberID sid")
      (auto simp: consumeFromTopic_def consumeTopicPreflight_def checkClosed_def guardT_def tx_simps split: if_splits)
  then show thesis using that(1) by blast
next
  case False
  then have "bindT (notFoundAs ErrTopicNotFound (getQueueMetadata env QueueTypePubSub name))
       (\<lambda>queueMeta.
          if metaPaused queueMeta then failT ErrQueuePaused
          else
            bindT (onDb (withTx env (onTopic env (metaTableName queueMeta)
                     (fetchPendingTopicMessage pq env sid vt (getQueueTTL pq (metaConfig queueMeta))
                        (resolveMaxRetries pq queueMeta) 0))))
              (\<lambda>m. returnT (map_option (\<lambda>(msg, vis). msg\<lparr>msgVisibilityTimeout := Some vis\<rparr>) m)))
       (n, s) = (r, n', s')"
    using assms by (simp add: consumeFromTopic_def consumeTopicPreflight_def checkClosed_def)
  then show thesis
    by (cases rule: topic_call_cases) (auto intro: that)
qed

section \<open>Fenced updates\<close>

definition claimed_sub :: "string \<Rightarrow> Receipt \<Rightarrow> topic_tables \<Rightarrow> bool" where
  "claimed_sub sid r t \<longleftrightarrow> (\<exists>s \<in> set (subs t). live_sub (MessageID r, sid) (ClaimID r) s)"

definition miss_reason_sub :: "string \<Rightarrow> Receipt \<Rightarrow> topic_tables \<Rightarrow> err" where
  "miss_reason_sub sid r t =
     classifyClaimMiss s_status s_claim_id (find (\<lambda>s. sub_key s = (MessageID r, sid)) (subs t)) (ClaimID r)"

lemma classify_topic_run:
  "no_faults env \<Longrightarrow> classifyTopicAckMiss env sid r (n, t) = (Inl (miss_reason_sub sid r t), Suc n, t)"
  by (simp add: classifyTopicAckMiss_def miss_reason_sub_def tx_simps)

lemma fencedSub_run:
  assumes "no_faults env"
  shows "fencedSubUpdate env sid r f (n, t) =
           (if claimed_sub sid r t
            then (Inr (), Suc n, t\<lparr>subs := sql_update (live_sub (MessageID r, sid) (ClaimID r)) f (subs t)\<rparr>)
            else (Inl (miss_reason_sub sid r t), Suc (Suc n), t))"
proof (cases "claimed_sub sid r t")
  case True
  then have "sql_count (live_sub (MessageID r, sid) (ClaimID r)) (subs t) \<noteq> 0"
    by (simp add: claimed_sub_def sql_count_0)
  with True assms show ?thesis by (simp add: fencedSubUpdate_def tx_simps Let_def)
next
  case False
  then have none: "\<forall>s \<in> set (subs t). \<not> live_sub (MessageID r, sid) (ClaimID r) s"
    by (simp add: claimed_sub_def)
  then have "sql_count (live_sub (MessageID r, sid) (ClaimID r)) (subs t) = 0"
    by (simp add: sql_count_0)
  with none False assms show ?thesis
    by (simp add: fencedSubUpdate_def tx_simps Let_def sql_update_none classify_topic_run)
qed

section \<open>The frame of a subscriber\<close>

text \<open>The messages and the rows and dead letters of everyone else.\<close>

definition others :: "string \<Rightarrow> topic_tables \<Rightarrow> topic_row list \<times> sub_row list \<times> dlq_row list" where
  "others sid t =
     (tmsgs t, filter (\<lambda>s. s_subscriber_id s \<noteq> sid) (subs t),
      filter (\<lambda>d. d_subscriber_id d \<noteq> Some sid) (tdlq t))"

lemma filter_update_other:
  assumes "\<And>s. s \<in> set rows \<Longrightarrow> P s \<Longrightarrow> s_subscriber_id s = sid"
    and "\<And>s. s_subscriber_id (f s) = s_subscriber_id s"
  shows "filter (\<lambda>s. s_subscriber_id s \<noteq> sid) (sql_update P f rows) = filter (\<lambda>s. s_subscriber_id s \<noteq> sid) rows"
  using assms by (induction rows) auto

lemma others_update:
  assumes "keeps_sub f" and "\<And>s. s \<in> set (subs t) \<Longrightarrow> P s \<Longrightarrow> s_subscriber_id s = sid"
  shows "others sid (t\<lparr>subs := sql_update P f (subs t)\<rparr>) = others sid t"
proof -
  have "s_subscriber_id (f s) = s_subscriber_id s" for s using assms(1) by (simp add: keeps_sub_def)
  then show ?thesis using filter_update_other [of "subs t" P sid f] assms(2) by (simp add: others_def)
qed

definition framed :: "string \<Rightarrow> topic_tables \<Rightarrow> topic_tables \<Rightarrow> bool" where
  "framed sid t0 t \<longleftrightarrow> others sid t = others sid t0 \<and> distinct (map s_id (subs t))"

lemma hoare_framed_moveSub:
  "hoare (framed sid t0) (moveSubToDLQ env i sid e st) (\<lambda>_. framed sid t0)"
  unfolding moveSubToDLQ_def
proof (rule hoare_bind)
  show "hoare (framed sid t0)
     (stmtE env (\<lambda>n t.
          case insert_dlq env
                 \<lparr>d_id = uuidv7 env n 0, d_original_message_id = i,
                  d_subscriber_id = Some sid, d_payload = t_payload (snd st),
                  d_failure_reason = truncateErrorMsg e,
                  d_retry_count = s_retry_count (fst st) + 1, d_moved_at = NOW env,
                  d_metadata = t_metadata (snd st)\<rparr> (tdlq t) of
            Inl e \<Rightarrow> Inl e
          | Inr rows \<Rightarrow> Inr ((), t\<lparr>tdlq := rows\<rparr>))) (\<lambda>_. framed sid t0)"
    by (rule hoare_stmtE) (auto simp: framed_def others_def insert_dlq_def split: if_splits)
  have "filter (\<lambda>s. s_subscriber_id s \<noteq> sid) (sql_delete (\<lambda>s. sub_key s = (i, sid)) rows) =
        filter (\<lambda>s. s_subscriber_id s \<noteq> sid) rows" for rows
    by (induction rows) (auto simp: sub_key_def)
  then show "hoare (framed sid t0)
     (stmt env (\<lambda>n t. ((), t\<lparr>subs := sql_delete (\<lambda>s. sub_key s = (i, sid)) (subs t)\<rparr>))) (\<lambda>_. framed sid t0)"
    by (intro hoare_stmt) (auto simp: framed_def others_def)
qed

lemma hoare_framed_update_id:
  assumes "keeps_sub f"
  shows "hoare (\<lambda>t. framed sid t0 t \<and> s0 \<in> set (subs t) \<and> s_subscriber_id s0 = sid)
     (stmt env (\<lambda>n t. (a, t\<lparr>subs := sql_update (\<lambda>s. s_id s = s_id s0) f (subs t)\<rparr>))) (\<lambda>_. framed sid t0)"
proof (rule hoare_stmt, elim conjE)
  fix n t b t'
  assume t: "framed sid t0 t" "s0 \<in> set (subs t)" "s_subscriber_id s0 = sid"
    and t': "(a, t\<lparr>subs := sql_update (\<lambda>s. s_id s = s_id s0) f (subs t)\<rparr>) = (b, t')"
  have "s_subscriber_id s = sid" if "s \<in> set (subs t)" "s_id s = s_id s0" for s
    using t that distinct_map_unique [of s_id "subs t" s s0] by (auto simp: framed_def)
  then have "others sid t' = others sid t" using t' others_update [OF assms] by auto
  moreover have "map s_id (subs t') = map s_id (subs t)"
    using t' assms by (auto intro!: map_sql_update simp: keeps_sub_def)
  ultimately show "framed sid t0 t'" using t by (simp add: framed_def)
qed

end
