(* ===== verification/PublishProps.thy ===== *)
theory PublishProps
  imports PubsubSpec
begin

text \<open>
  Publication: a batch is inserted whole or not at all, duplicates and oversized messages are
  refused, and a topic message is owed to each active subscriber exactly once.
\<close>

type_synonym prepared = "uuid \<times> bytes \<times> string option"

definition fresh_ids :: "prepared list \<Rightarrow> uuid set \<Rightarrow> bool" where
  "fresh_ids news taken \<longleftrightarrow> distinct (map fst news) \<and> fst ` set news \<inter> taken = {}"

definition published :: "env \<Rightarrow> int \<Rightarrow> prepared list \<Rightarrow> channel_tables \<Rightarrow> channel_tables" where
  "published env maxRetries news t = t\<lparr>msgs := msgs t @ map (new_channel_row env maxRetries) news\<rparr>"

section \<open>Multi-row inserts\<close>

lemma insert_all_short:
  "length (insert_all key news rows) - length rows < length news \<longleftrightarrow>
   \<not> (distinct (map key news) \<and> key ` set news \<inter> key ` set rows = {})"
proof (cases "news = []")
  case False
  then have "0 < length news" by simp
  then show ?thesis
    unfolding insert_all_full [of key news rows, symmetric]
    using length_insert_all_le [of key news rows] by linarith
qed simp

lemma new_channel_row_id [simp]: "id (new_channel_row env mr m) = fst m"
  by (simp add: new_channel_row_def split: prod.split)

lemma new_topic_row_id [simp]: "t_id (new_topic_row env m) = fst m"
  by (simp add: new_topic_row_def split: prod.split)

lemma new_channel_keys: "map id (map (new_channel_row env mr) news) = map fst news"
  by simp

lemma channel_insert:
  "length (insert_all id (map (new_channel_row env mr) news) (msgs t)) - length (msgs t) < length news \<longleftrightarrow>
   \<not> fresh_ids news (id ` set (msgs t))"
  using insert_all_short [of id "map (new_channel_row env mr) news" "msgs t"]
  by (simp add: fresh_ids_def image_image comp_def)

lemma channel_insert_fresh:
  "fresh_ids news (id ` set (msgs t)) \<Longrightarrow>
   insert_all id (map (new_channel_row env mr) news) (msgs t) = msgs t @ map (new_channel_row env mr) news"
  by (rule insert_all_append) (simp_all add: fresh_ids_def image_image comp_def)


lemma hoare_publishChannel:
  "hoare (\<lambda>t. t = t0) (publishChannelBody env news mr)
     (\<lambda>_ t. 0 \<le> mr \<and> fresh_ids news (id ` set (msgs t0)) \<and> t = published env mr news t0)"
  unfolding publishChannelBody_def
proof (rule hoare_bind)
  let ?rows = "insert_all id (map (new_channel_row env mr) news) (msgs t0)"
  show "hoare (\<lambda>t. t = t0) (insertChannelRows env mr news)
     (\<lambda>k t. 0 \<le> mr \<and> k = length ?rows - length (msgs t0) \<and> t = t0\<lparr>msgs := ?rows\<rparr>)"
    unfolding insertChannelRows_def by (rule hoare_stmtE) (auto simp: Let_def split: if_splits)
  show "hoare (\<lambda>t. 0 \<le> mr \<and> k = length ?rows - length (msgs t0) \<and> t = t0\<lparr>msgs := ?rows\<rparr>)
     (if k < length news then failT ErrDuplicateMessageID else emitNotify env)
     (\<lambda>_ t. 0 \<le> mr \<and> fresh_ids news (id ` set (msgs t0)) \<and> t = published env mr news t0)" for k
    unfolding emitNotify_def
    using channel_insert [of env mr news t0] channel_insert_fresh [of news t0 env mr]
    by (intro hoare_if hoare_fail hoare_stmt) (auto simp: published_def)
qed

section \<open>Preparing a batch\<close>

lemma checkBatchPayloads_ok:
  "checkBatchPayloads limit ms acc = Inr total' \<Longrightarrow>
   (\<forall>m \<in> set ms. \<exists>p. pmPayload m = Some p \<and> int (length p) \<le> limit) \<and>
   total' = acc + (\<Sum>m\<leftarrow>ms. int (length (the (pmPayload m))))"
  by (induction limit ms acc rule: checkBatchPayloads.induct)
    (auto simp: checkPayloadSize_def split: option.splits sum.splits if_splits)

lemma prepare_ok:
  "prepareBatchMessages env limit k ms = Inr news \<Longrightarrow>
   list_all2 (\<lambda>m x. (pmID m \<noteq> uuid_Nil \<longrightarrow> fst x = pmID m) \<and>
                    (\<forall>p. pmPayload m = Some p \<longrightarrow> fst (snd x) = p) \<and>
                    (pmMetadata m = None \<longrightarrow> snd (snd x) = None)) ms news"
proof (induction ms arbitrary: k news)
  case (Cons m ms)
  then show ?case
    by (auto simp: resolve_id_def marshalMetadataWithLimit_def split: sum.splits if_splits option.splits)
qed simp

section \<open>Running PublishBatch\<close>

definition lookup_queue :: "string \<Rightarrow> db \<Rightarrow> queueMetadata option" where
  "lookup_queue q d = find (\<lambda>m. metaQueueName m = q) (pgqueue_metadata d)"

lemma resolveQueueMetadata_cases:
  assumes "resolveQueueMetadata env q (n, d) = (r, n', d')"
  shows "d' = d \<and> ((\<exists>e. r = Inl e) \<or> (\<exists>meta. r = Inr meta \<and> lookup_queue q d = Some meta))"
  using assms by (auto simp: resolveQueueMetadata_def lookup_queue_def bindT_app stmt_def split: option.splits)

lemma publishBatchToChannel_cases:
  assumes "publishBatchToChannel env tbl news mr (n, d) = (r, n', d')" and "channels d tbl = Some t"
  shows "(\<exists>e. r = Inl e \<and> d' = d) \<or>
         (0 \<le> mr \<and> fresh_ids news (id ` set (msgs t)) \<and> d' = put_channel tbl (published env mr news t) d \<and>
          (r = Inr () \<or> (\<exists>e. r = Inl (ErrDriver e))))"
proof -
  have "hoare (\<lambda>x. x = d) (onChannel env tbl (publishChannelBody env news mr))
      (\<lambda>_ x. 0 \<le> mr \<and> fresh_ids news (id ` set (msgs t)) \<and> x = put_channel tbl (published env mr news t) d)"
    by (rule hoare_onChannel [OF hoare_publishChannel [of t]]) (use assms(2) in \<open>auto simp: put_channel_def\<close>)
  note body = hoareD [OF this refl]
  from assms(1) [unfolded publishBatchToChannel_def] show ?thesis
    by (cases rule: withTx_cases) (auto dest: body)
qed

text \<open>
  C9.  \<^verbatim>\<open>PublishBatch\<close> on a channel is atomic whatever the driver does: afterwards the database is
  exactly as before, or it holds every message of the batch, in order, after the old ones.  A
  success means the latter; the reverse fails only for a commit whose reply was lost.
\<close>

theorem PublishBatch_atomic:
  assumes "lookup_queue q d = Some meta" and "metaQueueType meta = QueueTypeChannel"
    and "channels d (metaTableName meta) = Some t" and "messages \<noteq> []"
    and "PublishBatch pq env q messages (n, d) = (r, n', d')"
  shows "(\<exists>e. r = Inl e \<and> d' = d) \<or>
         (\<exists>news. prepareBatchMessages env (resolveMaxMetadataSize pq meta) 0 messages = Inr news \<and>
            fresh_ids news (id ` set (msgs t)) \<and>
            d' = put_channel (metaTableName meta) (published env (resolveMaxRetries pq meta) news t) d \<and>
            (r = Inr (map fst news) \<or> (\<exists>e. r = Inl (ErrDriver e))))"
proof (cases "closed pq \<or> length messages > MaxBatchSize")
  case True
  then show ?thesis using assms(4,5)
    by (auto simp: PublishBatch_def checkClosed_def validateBatchSize_def guardT_def tx_simps split: if_splits)
next
  case False
  obtain r1 n1 d1 where get: "resolveQueueMetadata env q (n, d) = (r1, n1, d1)" by (metis prod_cases3)
  have d1: "d1 = d" and r1: "(\<exists>e. r1 = Inl e) \<or> r1 = Inr meta"
    using resolveQueueMetadata_cases [OF get] assms(1) by auto
  have run: "(case r1 of Inl e \<Rightarrow> (Inl e, n1, d1) | Inr meta \<Rightarrow> publishBatchResolved pq env meta messages (n1, d1)) =
      (r, n', d')"
    using assms(4,5) False get
    by (simp add: PublishBatch_def checkClosed_def validateBatchSize_def bindT_app split: sum.splits)
  show ?thesis
  proof (cases r1)
    case (Inl e)
    then show ?thesis using run d1 by auto
  next
    case (Inr meta')
    with r1 have m: "meta' = meta" by simp
    let ?lim = "resolveMaxMetadataSize pq meta" and ?tbl = "metaTableName meta" and ?mr = "resolveMaxRetries pq meta"
    show ?thesis
    proof (cases "prepareBatchMessages env ?lim 0 messages")
      case (Inl e)
      then show ?thesis using run Inr m d1
        by (auto simp: publishBatchResolved_def tx_simps guardT_def liftE_def split: sum.splits if_splits)
    next
      case (Inr news)
      obtain r2 n2 d2 where ins: "publishBatchToChannel env ?tbl news ?mr (n1, d) = (r2, n2, d2)"
        by (metis prod_cases3)
      from run \<open>r1 = Inr meta'\<close> m d1 Inr ins assms(2) show ?thesis
        using publishBatchToChannel_cases [OF ins assms(3)]
        by (auto simp: publishBatchResolved_def tx_simps guardT_def liftE_def split: sum.splits if_splits)
    qed
  qed
qed

text \<open>A batch to a channel and three messages on which the witnesses evaluate.\<close>

definition batch0 :: "PublishMessage list" where
  "batch0 = [\<lparr>pmID = 8, pmPayload = Some [1], pmMetadata = None\<rparr>,
             \<lparr>pmID = 0, pmPayload = Some [2, 3], pmMetadata = None\<rparr>]"

definition db0 :: db where
  "db0 = store (sys_with \<lparr>msgs = [row0], dlq = []\<rparr>)"

theorem PublishBatch_atomic_witness:
  "\<exists>r n' d'. PublishBatch pq0 env0 ''orders'' batch0 (0, db0) = (r, n', d') \<and>
     ((\<exists>e. r = Inl e \<and> d' = db0) \<or>
      d' = put_channel ''orders'' (published env0 3 [(8, [1], None), (501, [2, 3], None)] \<lparr>msgs = [row0], dlq = []\<rparr>) db0)"
proof -
  have pre: "lookup_queue ''orders'' db0 = Some meta0" "metaQueueType meta0 = QueueTypeChannel"
    "metaTableName meta0 = ''orders''" "channels db0 ''orders'' = Some \<lparr>msgs = [row0], dlq = []\<rparr>" "batch0 \<noteq> []"
    "prepareBatchMessages env0 (resolveMaxMetadataSize pq0 meta0) 0 batch0 = Inr [(8, [1], None), (501, [2, 3], None)]"
    "resolveMaxRetries pq0 meta0 = 3"
    by code_simp+
  obtain r n' d' where run: "PublishBatch pq0 env0 ''orders'' batch0 (0, db0) = (r, n', d')" by (metis prod_cases3)
  from PublishBatch_atomic [OF pre(1,2) _ pre(5) run] pre run show ?thesis by auto
qed

text \<open>
  What \<^verbatim>\<open>PublishBatch\<close> accepts: a batch that succeeds has at most \<^verbatim>\<open>MaxBatchSize\<close> messages, no
  nil payload, no payload above the queue's limit, and stays within the byte ceiling when one is
  configured; the identifiers it returns are the caller's where given, one per message.
\<close>

theorem PublishBatch_limits:
  assumes "lookup_queue q d = Some meta"
    and "PublishBatch pq env q messages (n, d) = (Inr ids, n', d')"
  shows "\<not> closed pq \<and> length messages \<le> 1000 \<and>
         (\<forall>m \<in> set messages. \<exists>p. pmPayload m = Some p \<and> int (length p) \<le> resolveMaxMessageSize pq meta) \<and>
         (0 < maxBatchBytes (cfg pq) \<longrightarrow>
            (\<Sum>m\<leftarrow>messages. int (length (the (pmPayload m)))) \<le> maxBatchBytes (cfg pq)) \<and>
         list_all2 (\<lambda>m i. pmID m \<noteq> uuid_Nil \<longrightarrow> i = pmID m) messages ids"
proof (cases "messages = []")
  case True
  then show ?thesis using assms(2)
    by (auto simp: PublishBatch_def checkClosed_def guardT_def tx_simps split: if_splits)
next
  case False
  have ok: "\<not> closed pq" "length messages \<le> MaxBatchSize"
    using assms(2) False
    by (auto simp: PublishBatch_def checkClosed_def guardT_def validateBatchSize_def tx_simps split: if_splits)
  obtain r1 n1 d1 where get: "resolveQueueMetadata env q (n, d) = (r1, n1, d1)" by (metis prod_cases3)
  have d1: "d1 = d" and r1: "(\<exists>e. r1 = Inl e) \<or> r1 = Inr meta"
    using resolveQueueMetadata_cases [OF get] assms(1) by auto
  have run: "publishBatchResolved pq env meta messages (n1, d) = (Inr ids, n', d')"
    using assms(2) False ok get d1 r1
    by (auto simp: PublishBatch_def checkClosed_def validateBatchSize_def bindT_app split: sum.splits)
  then obtain sz news where p: "checkBatchPayloads (resolveMaxMessageSize pq meta) messages 0 = Inr sz"
      "\<not> (0 < maxBatchBytes (cfg pq) \<and> maxBatchBytes (cfg pq) < sz)"
      "prepareBatchMessages env (resolveMaxMetadataSize pq meta) 0 messages = Inr news" "ids = map fst news"
    by (auto simp: publishBatchResolved_def tx_simps guardT_def liftE_def split: sum.splits if_splits prod.splits)
  have "list_all2 (\<lambda>m i. pmID m \<noteq> uuid_Nil \<longrightarrow> i = pmID m) messages ids"
    using prepare_ok [OF p(3)] unfolding p(4) by (simp add: list_all2_conv_all_nth)
  with ok p(2) checkBatchPayloads_ok [OF p(1)] show ?thesis by (auto simp: MaxBatchSize_def)
qed

theorem PublishBatch_limits_witness:
  "\<exists>n' d'. PublishBatch pq0 env0 ''orders'' batch0 (0, db0) = (Inr [8, 501], n', d') \<and>
     (\<forall>m \<in> set batch0. \<exists>p. pmPayload m = Some p \<and> int (length p) \<le> 262144)"
proof -
  have pre: "lookup_queue ''orders'' db0 = Some meta0" "resolveMaxMessageSize pq0 meta0 = 262144"
    "fst (PublishBatch pq0 env0 ''orders'' batch0 (0, db0)) = Inr [8, 501]"
    by code_simp+
  then obtain n' d' where run: "PublishBatch pq0 env0 ''orders'' batch0 (0, db0) = (Inr [8, 501], n', d')"
    by (metis fst_conv prod_cases3)
  from PublishBatch_limits [OF pre(1) run] run pre(2) show ?thesis by auto
qed



end
