(* ===== verification/ReplayProps.thy ===== *)
theory ReplayProps
  imports Replay AdminProps ChannelProps PublishProps
begin

text \<open>
  Replay: moving dead letters back loses and duplicates no message, always ends and respects its
  limit; a dry run changes nothing; replaying one message; walking a dead-letter queue by pages.
\<close>

section \<open>Moving one page of a channel's dead letters\<close>

lemma insert_all_filter:
  "distinct (map key news) \<Longrightarrow> insert_all key news rows = rows @ filter (\<lambda>r. key r \<notin> key ` set rows) news"
proof (induction news arbitrary: rows)
  case Nil
  then show ?case by (simp add: insert_all_def)
next
  case (Cons x news)
  have step: "insert_all key (x # news) rows = insert_all key news (insert_new key x rows)"
    by (simp add: insert_all_def)
  have "filter (\<lambda>r. key r \<notin> key ` set (rows @ [x])) news = filter (\<lambda>r. key r \<notin> key ` set rows) news"
    using Cons.prems by (intro filter_cong) (auto simp: image_iff)
  with Cons show ?case by (simp add: step insert_new_def)
qed

lemma dedupe_sub: "set (dedupeDLQ seen ms) \<subseteq> set ms"
  by (induction seen ms rule: dedupeDLQ.induct) auto

lemma dedupe_seen: "d \<in> set (dedupeDLQ seen ms) \<Longrightarrow> d_original_message_id d \<notin> set seen"
  by (induction seen ms rule: dedupeDLQ.induct) (auto split: if_splits)

lemma dedupe_distinct: "distinct (map d_original_message_id (dedupeDLQ seen ms))"
proof (induction seen ms rule: dedupeDLQ.induct)
  case (2 seen m ms)
  have "d_original_message_id m \<notin> d_original_message_id ` set (dedupeDLQ (d_original_message_id m # seen) ms)"
    by (metis dedupe_seen imageE list.set_intros(1))
  with 2 show ?case by simp
qed simp

lemma dedupe_length: "length (dedupeDLQ seen ms) \<le> length ms"
  by (induction seen ms rule: dedupeDLQ.induct) auto

definition restorable :: "channel_tables \<Rightarrow> dlq_row list \<Rightarrow> dlq_row list" where
  "restorable t ms = filter (\<lambda>d. d_original_message_id d \<notin> id ` set (msgs t)) (dedupeDLQByMessageID ms)"

definition reinserted :: "env \<Rightarrow> int \<Rightarrow> dlq_row list \<Rightarrow> channel_tables \<Rightarrow> channel_tables" where
  "reinserted env mr new t =
     t\<lparr>msgs := msgs t @ map (\<lambda>d. new_channel_row env mr (dlq_prepared d)) new,
       dlq := sql_delete (\<lambda>d. d_id d \<in> d_id ` set new) (dlq t)\<rparr>"

lemma fst_prepared [simp]: "fst (dlq_prepared d) = d_original_message_id d"
  by (simp add: dlq_prepared_def)

lemma restorable_sub: "set (restorable t ms) \<subseteq> set ms"
  using dedupe_sub [of "[]" ms] by (auto simp: restorable_def dedupeDLQByMessageID_def)

lemma restorable_distinct: "distinct (map d_original_message_id (restorable t ms))"
  using dedupe_distinct [of "[]" ms] by (auto simp: restorable_def dedupeDLQByMessageID_def)

lemma restorable_fresh: "d \<in> set (restorable t ms) \<Longrightarrow> d_original_message_id d \<notin> id ` set (msgs t)"
  by (simp add: restorable_def)

lemma restorable_length: "length (restorable t ms) \<le> length ms"
  unfolding restorable_def dedupeDLQByMessageID_def
  by (rule le_trans [OF length_filter_le dedupe_length])

lemma reinsert_cases:
  assumes "reinsertDLQChannel env mr ms (n, t) = (Inr k, n', t')"
  obtains (nothing) "k = 0" "t' = t"
    | (moved) "0 \<le> mr" "k = int (length (restorable t ms))" "t' = reinserted env mr (restorable t ms) t"
proof -
  let ?U = "dedupeDLQByMessageID ms" and ?R = "restorable t ms"
  have "distinct (map id (map (\<lambda>d. new_channel_row env mr (dlq_prepared d)) ?U))"
    using dedupe_distinct [of "[]" ms] by (simp add: dedupeDLQByMessageID_def comp_def)
  from insert_all_filter [OF this, of "msgs t"]
  have ins: "insert_all id (map (\<lambda>d. new_channel_row env mr (dlq_prepared d)) ?U) (msgs t) =
      msgs t @ map (\<lambda>d. new_channel_row env mr (dlq_prepared d)) ?R"
    by (simp add: filter_map comp_def restorable_def)
  have sel: "filter (\<lambda>m. d_original_message_id m \<in> d_original_message_id ` set ?R) ?U = ?R"
    unfolding restorable_def by (rule filter_cong [OF refl]) (auto, metis image_eqI)
  have "k = 0 \<and> t' = t \<or>
      0 \<le> mr \<and> k = int (length ?R) \<and> t' = reinserted env mr ?R t"
    using assms
    by (auto simp: reinsertDLQChannel_def insertDLQChannelMessages_def Let_def bindT_app stmtE_def stmt_def
        ins comp_def sel reinserted_def split: if_splits option.splits)
  with that show ?thesis by blast
qed

lemma row_good_new: "0 \<le> mr \<Longrightarrow> row_good pq (new_channel_row env mr m)"
  by (cases m) (simp add: new_channel_row_def row_good_def channel_row_ok_def effective_max_def channelMaxRetries_def)

lemma dlq_same: "distinct (map d_id rows) \<Longrightarrow> set new \<subseteq> set rows \<Longrightarrow> d \<in> set rows \<Longrightarrow>
    d_id d \<in> d_id ` set new \<longleftrightarrow> d \<in> set new"
  by (auto simp: distinct_map inj_on_def)

lemma reinserted_size:
  assumes "distinct (map d_id (dlq t))" and "set new \<subseteq> set (dlq t)" and "distinct new"
  shows "length (msgs (reinserted env mr new t)) + length (dlq (reinserted env mr new t)) =
         length (msgs t) + length (dlq t)"
proof -
  have "set (filter (\<lambda>d. d_id d \<in> d_id ` set new) (dlq t)) = set new"
    using dlq_same [OF assms(1,2)] assms(2) by auto
  moreover have "distinct (filter (\<lambda>d. d_id d \<in> d_id ` set new) (dlq t))"
    using assms(1) by (simp add: distinct_map)
  ultimately have "length (filter (\<lambda>d. d_id d \<in> d_id ` set new) (dlq t)) = length new"
    using assms(3) by (metis distinct_card)
  then show ?thesis
    using sum_length_filter_compl [of "\<lambda>d. d_id d \<in> d_id ` set new" "dlq t"]
    by (simp add: reinserted_def sql_delete_def)
qed

lemma reinserted_good:
  assumes "good_with pq S t" and "set new \<subseteq> set (dlq t)" and "0 \<le> mr"
    and "distinct (map d_original_message_id new)"
    and "\<And>d. d \<in> set new \<Longrightarrow> d_original_message_id d \<notin> id ` set (msgs t)"
  shows "good_with pq S (reinserted env mr new t)"
proof -
  let ?c = "\<lambda>d. (d_original_message_id d, d_payload d, d_metadata d)"
    and ?m = "\<lambda>r. (id r, payload r, metadata r)"
    and ?new = "\<lambda>d. new_channel_row env mr (dlq_prepared d)"
  have inv: "channel_inv pq t" and S: "contents t = S" using assms(1) by (auto simp: good_with_def)
  have "channel_inv pq (reinserted env mr new t)"
    using inv assms(3-5) by (auto simp: channel_inv_def reinserted_def comp_def row_good_new sql_delete_def, metis image_eqI)
  moreover have "?m ` ?new ` set new = ?c ` set new"
    by (simp add: image_image new_channel_row_def dlq_prepared_def)
  then have "contents (reinserted env mr new t) =
      ?m ` set (msgs t) \<union> ?c ` set new \<union> ?c ` {d \<in> set (dlq t). d_id d \<notin> d_id ` set new}"
    by (simp add: contents_def reinserted_def sql_delete_def image_Un Un_assoc)
  moreover have "{d \<in> set (dlq t). d_id d \<notin> d_id ` set new} = set (dlq t) - set new"
    using dlq_same [of "dlq t" new] assms(2) inv by (auto simp: channel_inv_def)
  moreover have "?c ` set new \<union> ?c ` (set (dlq t) - set new) = ?c ` set (dlq t)"
    using assms(2) by blast
  ultimately show ?thesis using S by (simp add: good_with_def contents_def Un_assoc)
qed

section \<open>One page, one transaction\<close>

lemma withTxKeep_inv:
  assumes "hoare I fn (\<lambda>(rb, a) s. (\<not> rb \<longrightarrow> I s) \<and> Q a)" and "I s"
    and "withTxKeep env fn (n, s) = (r, n', s')"
  shows "I s' \<and> (\<forall>a. r = Inr a \<longrightarrow> Q a)"
proof -
  obtain b m u where run: "fn (Suc n, s) = (b, m, u)" by (rule prod_cases3)
  show ?thesis
  proof (cases b)
    case (Inl e)
    with run assms(2,3) show ?thesis by (auto simp: withTxKeep_def split: option.splits)
  next
    case (Inr p)
    obtain rb a where p: "p = (rb, a)" by (cases p)
    have "(\<not> rb \<longrightarrow> I u) \<and> Q a" using hoareD [OF assms(1,2), of "Suc n" p m u] run Inr p by simp
    with run Inr p assms(2,3) show ?thesis
      by (cases rb) (auto simp: withTxKeep_def split: option.splits fault.splits)
  qed
qed

text \<open>
  The database of a replay on the channel table \<open>tbl\<close>: the metadata is untouched, the channel holds
  the contents \<open>S\<close> in \<open>N\<close> rows, and its dead letters are among \<open>D\<close>.
\<close>

definition replay_db ::
    "Queue \<Rightarrow> string \<Rightarrow> queueMetadata list \<Rightarrow> (uuid \<times> bytes \<times> string option) set \<Rightarrow> nat \<Rightarrow> dlq_row set \<Rightarrow> db \<Rightarrow> bool" where
  "replay_db pq tbl M S N D d \<longleftrightarrow>
     pgqueue_metadata d = M \<and>
     (\<exists>t. channels d tbl = Some t \<and> good_with pq S t \<and> length (msgs t) + length (dlq t) = N \<and> set (dlq t) \<subseteq> D)"

definition replay_step :: "dlq_row set \<Rightarrow> uuid \<Rightarrow> int \<Rightarrow> replayPageResult \<Rightarrow> bool" where
  "replay_step D a limit p \<longleftrightarrow>
     0 \<le> replayed p \<and> replayed p \<le> fetched p \<and> fetched p \<le> limit \<and>
     (fetched p \<noteq> 0 \<longrightarrow> (\<exists>x \<in> D. lastID p = d_id x \<and> after_cursor a (d_id x)))"

lemma fetch_facts:
  assumes "ms = fetchDLQMessages env a limit rows" and "0 < limit"
  shows "set ms \<subseteq> set rows" and "int (length ms) \<le> limit" and "d \<in> set ms \<Longrightarrow> after_cursor a (d_id d)"
  using assms sql_select_mem [of _ d_id "nat limit"]
  by (auto simp: fetchDLQMessages_def sql_select_def dest: sql_select_mem in_set_takeD)

lemma reinsert_keeps:
  assumes "good_with pq S t" and "set ms \<subseteq> set (dlq t)" and "reinsertDLQChannel env mr ms (n, t) = (Inr k, n', t')"
  shows "good_with pq S t' \<and> length (msgs t') + length (dlq t') = length (msgs t) + length (dlq t) \<and>
         set (dlq t') \<subseteq> set (dlq t) \<and> 0 \<le> k \<and> k \<le> int (length ms)"
  using assms(3)
proof (cases rule: reinsert_cases)
  case nothing
  with assms show ?thesis by simp
next
  case moved
  have sub: "set (restorable t ms) \<subseteq> set (dlq t)" using restorable_sub assms(2) by blast
  have "distinct (map d_id (dlq t))" using assms(1) by (simp add: good_with_def channel_inv_def)
  moreover have "distinct (restorable t ms)" using restorable_distinct [of t ms] by (simp add: distinct_map)
  ultimately have "length (msgs t') + length (dlq t') = length (msgs t) + length (dlq t)"
    using reinserted_size [OF _ sub] moved(3) by simp
  moreover have "good_with pq S t'"
    using reinserted_good [OF assms(1) sub moved(1) restorable_distinct restorable_fresh] moved(3) by simp
  moreover have "set (dlq t') \<subseteq> set (dlq t)" by (auto simp: moved(3) reinserted_def sql_delete_def)
  ultimately show ?thesis using moved(2) restorable_length [of t ms] by simp
qed

lemma hoare_selectDLQ:
  assumes "0 < limit"
  shows "hoare (replay_db pq tbl M S N D) (selectDLQ env tbl QueueTypeChannel a limit)
    (\<lambda>ms d. replay_db pq tbl M S N D d \<and> int (length ms) \<le> limit \<and>
       (\<exists>t. channels d tbl = Some t \<and> set ms \<subseteq> set (dlq t)) \<and> (\<forall>x \<in> set ms. x \<in> D \<and> after_cursor a (d_id x)))"
proof (rule hoareI)
  fix n d ms n' d'
  assume db: "replay_db pq tbl M S N D d" and run: "selectDLQ env tbl QueueTypeChannel a limit (n, d) = (Inr ms, n', d')"
  then obtain t where t: "channels d tbl = Some t" "set (dlq t) \<subseteq> D" by (auto simp: replay_db_def)
  with run have "d' = d" and ms: "ms = fetchDLQMessages env a limit (dlq t)"
    by (auto simp: selectDLQ_def onChannel_def stmt_def map_upd_triv split: option.splits)
  with db t fetch_facts [OF ms assms]
  show "replay_db pq tbl M S N D d' \<and> int (length ms) \<le> limit \<and>
      (\<exists>t. channels d' tbl = Some t \<and> set ms \<subseteq> set (dlq t)) \<and> (\<forall>x \<in> set ms. x \<in> D \<and> after_cursor a (d_id x))"
    by blast
qed

lemma hoare_reinsert:
  "hoare (\<lambda>d. replay_db pq tbl M S N D d \<and> (\<exists>t. channels d tbl = Some t \<and> set ms \<subseteq> set (dlq t)))
     (onChannel env tbl (reinsertDLQChannel env mr ms))
     (\<lambda>k d. replay_db pq tbl M S N D d \<and> 0 \<le> k \<and> k \<le> int (length ms))"
proof (rule hoareI)
  fix n d k n' d'
  assume "replay_db pq tbl M S N D d \<and> (\<exists>t. channels d tbl = Some t \<and> set ms \<subseteq> set (dlq t))"
    and run: "onChannel env tbl (reinsertDLQChannel env mr ms) (n, d) = (Inr k, n', d')"
  then obtain t where t: "pgqueue_metadata d = M" "channels d tbl = Some t" "good_with pq S t"
      "length (msgs t) + length (dlq t) = N" "set (dlq t) \<subseteq> D" "set ms \<subseteq> set (dlq t)"
    by (auto simp: replay_db_def)
  with run obtain t' where "reinsertDLQChannel env mr ms (n, t) = (Inr k, n', t')"
      and d': "d' = d\<lparr>channels := (channels d)(tbl \<mapsto> t')\<rparr>"
    by (auto simp: onChannel_def split: prod.splits)
  from reinsert_keeps [OF t(3,6) this(1)] t d'
  show "replay_db pq tbl M S N D d' \<and> 0 \<le> k \<and> k \<le> int (length ms)"
    by (auto simp: replay_db_def)
qed

lemma hoare_log:
  "hoare (replay_db pq tbl M S N D) (writeReplayLog env name qt op k who det) (\<lambda>_. replay_db pq tbl M S N D)"
  unfolding writeReplayLog_def createReplayLog_def by (rule hoare_stmt) (auto simp: replay_db_def)

lemma hoare_replayTail:
  assumes "ms \<noteq> []" and "int (length ms) \<le> limit \<and> (\<forall>x \<in> set ms. x \<in> D \<and> after_cursor a (d_id x))"
  shows "hoare (\<lambda>d. replay_db pq tbl M S N D d \<and> (\<exists>t. channels d tbl = Some t \<and> set ms \<subseteq> set (dlq t)))
     (bindT (reinsertDLQMessages pq env name tbl QueueTypeChannel mr ms) (\<lambda>k.
       bindT (if k > 0 \<and> \<not> dry then writeReplayLog env name QueueTypeChannel ''dlq'' k who (DetailsFromDLQ k)
              else returnT ()) (\<lambda>_.
       returnT (dry, \<lparr>replayed = k, lastID = d_id (last ms), fetched = int (length ms)\<rparr>))))
     (\<lambda>(rb, p) d. (\<not> rb \<longrightarrow> replay_db pq tbl M S N D d) \<and> replay_step D a limit p)"
proof -
  let ?I = "replay_db pq tbl M S N D"
  have page: "replay_step D a limit \<lparr>replayed = k, lastID = d_id (last ms), fetched = int (length ms)\<rparr>"
    if "0 \<le> k \<and> k \<le> int (length ms)" for k
    using that assms(2) last_in_set [OF assms(1)] unfolding replay_step_def by auto
  have rein: "hoare (\<lambda>d. ?I d \<and> (\<exists>t. channels d tbl = Some t \<and> set ms \<subseteq> set (dlq t)))
      (reinsertDLQMessages pq env name tbl QueueTypeChannel mr ms)
      (\<lambda>k d. (0 \<le> k \<and> k \<le> int (length ms)) \<and> ?I d)"
    unfolding reinsertDLQMessages_def using hoare_post [OF hoare_reinsert] by simp
  have keep: "hoare ?I (if k > 0 \<and> \<not> dry
        then writeReplayLog env name QueueTypeChannel ''dlq'' k who (DetailsFromDLQ k) else returnT ()) (\<lambda>_. ?I)" for k
    by (rule hoare_if) (auto intro: hoare_log hoare_return)
  show ?thesis
    by (rule hoare_bind [OF rein], rule hoare_pure, rule hoare_bind [OF keep], rule hoare_return) (simp add: page)
qed

lemma hoare_replayBody:
  assumes "0 < limit"
  shows "hoare (replay_db pq tbl M S N D)
    (replayDLQBody pq env name tbl QueueTypeChannel a limit who mr dry)
    (\<lambda>(rb, p) d. (\<not> rb \<longrightarrow> replay_db pq tbl M S N D d) \<and> replay_step D a limit p)"
  unfolding replayDLQBody_def
proof (rule hoare_bind [OF hoare_selectDLQ [OF assms]], rule hoare_if, goal_cases)
  case (1 ms)
  then show ?case using assms by (intro hoare_return) (auto simp: replay_step_def)
next
  case (2 ms)
  show ?case
    by (rule hoare_pre [OF hoare_pure [OF hoare_replayTail [OF 2]]]) blast+
qed

lemma dry_body:
  assumes "channels d tbl = Some t"
    and "replayDLQBody pq env name tbl QueueTypeChannel a limit who mr True (n, d) = (Inr (False, p), n', d')"
  shows "d' = d"
  using assms
  by (auto simp: replayDLQBody_def selectDLQ_def onChannel_def stmt_def bindT_app map_upd_triv
      split: option.splits if_splits prod.splits sum.splits)

lemma dry_page:
  assumes "channels d tbl = Some t"
    and "replayDLQPage pq env name tbl QueueTypeChannel a limit who mr True (n, d) = (r, n', d')"
  shows "d' = d"
proof -
  let ?body = "replayDLQBody pq env name tbl QueueTypeChannel a limit who mr True"
  obtain b m u where run: "?body (Suc n, d) = (b, m, u)" by (rule prod_cases3)
  have "b = Inr (False, p) \<Longrightarrow> u = d" for p using dry_body [OF assms(1)] run by blast
  with run assms(2) show ?thesis
    by (cases b) (auto simp: replayDLQPage_def withTxKeep_def split: option.splits fault.splits bool.splits)
qed

section \<open>The whole replay\<close>

lemma cursor_progress:
  assumes "finite D" and "x \<in> D" and "after_cursor a (d_id x)" and "d_id x \<noteq> 0"
  shows "card {y \<in> D. after_cursor (d_id x) (d_id y)} < card {y \<in> D. after_cursor a (d_id y)}"
  using assms by (intro psubset_card_mono) (auto simp: after_cursor_def)

definition within_limit :: "ReplayOptions \<Rightarrow> ReplayDLQResult \<Rightarrow> bool" where
  "within_limit opts res \<longleftrightarrow>
     0 \<le> Replayed res \<and> 0 \<le> Skipped res \<and>
     (replayLimit opts > 0 \<longrightarrow> Replayed res + Skipped res \<le> replayLimit opts)"

lemma pageLimit_facts:
  "pageLimit limit used = Some l \<Longrightarrow> 0 < l \<and> (limit > 0 \<longrightarrow> used + l \<le> limit)"
  by (auto simp: pageLimit_def Let_def defaultReplayPageSize_def split: if_splits)

lemma replayDLQ_loop:
  assumes "finite D" and "\<forall>x \<in> D. d_id x \<noteq> 0"
    and "replay_db pq tbl M S N D d" and "within_limit opts res"
  shows "\<exists>res' e n' d'. executeReplayDLQ pq env name tbl QueueTypeChannel opts mr a res (n, d) = Some ((res', e), n', d') \<and>
           replay_db pq tbl M S N D d' \<and> within_limit opts res' \<and> (DryRun opts \<longrightarrow> d' = d)"
  using assms(3,4)
proof (induction "card {y \<in> D. after_cursor a (d_id y)}" arbitrary: a res n d rule: less_induct)
  case less
  show ?case
  proof (cases "pageLimit (replayLimit opts) (Replayed res + Skipped res)")
    case None
    then show ?thesis using less.prems by (subst executeReplayDLQ.simps) simp
  next
    case (Some l)
    note l = pageLimit_facts [OF Some]
    obtain r n1 d1 where run: "replayDLQPage pq env name tbl QueueTypeChannel a l (PerformedBy opts) mr (DryRun opts) (n, d) = (r, n1, d1)"
      by (rule prod_cases3)
    have page: "replay_db pq tbl M S N D d1" "\<forall>p. r = Inr p \<longrightarrow> replay_step D a l p"
      using withTxKeep_inv [OF hoare_replayBody less.prems(1) run [unfolded replayDLQPage_def]] l by auto
    have dry: "DryRun opts \<longrightarrow> d1 = d" using dry_page run less.prems(1) by (auto simp: replay_db_def)
    show ?thesis
    proof (cases r)
      case (Inl e)
      then show ?thesis using Some run page dry less.prems by (subst executeReplayDLQ.simps) simp
    next
      case (Inr p)
      let ?res = "\<lparr>Replayed = Replayed res + replayed p, Skipped = Skipped res + (fetched p - replayed p)\<rparr>"
      have p: "replay_step D a l p" using page Inr by simp
      then have lim: "within_limit opts ?res" using less.prems(2) l by (auto simp: within_limit_def replay_step_def)
      show ?thesis
      proof (cases "fetched p = 0")
        case True
        then show ?thesis using Some run page dry Inr lim by (subst executeReplayDLQ.simps) (simp add: Let_def)
      next
        case False
        with p obtain x where x: "x \<in> D" "lastID p = d_id x" "after_cursor a (d_id x)"
          by (auto simp: replay_step_def)
        have "card {y \<in> D. after_cursor (lastID p) (d_id y)} < card {y \<in> D. after_cursor a (d_id y)}"
          using cursor_progress [OF assms(1) x(1,3)] assms(2) x by auto
        from less.hyps [OF this page(1) lim, of n1] dry
        show ?thesis using Some run Inr False by (subst executeReplayDLQ.simps) (auto simp: Let_def)
      qed
    qed
  qed
qed

lemma getQueueMetadata_found:
  "getQueueMetadata env qt name (n, s) = (Inr meta, n', s') \<Longrightarrow>
     find (is_queue qt name) (pgqueue_metadata (store s)) = Some meta"
  by (auto simp: getQueueMetadata_def selectQueueMetadata_def tx_simps stmt_def
      split: option.splits sum.splits prod.splits)

lemma preamble_facts:
  assumes "replayPreamble pq env name qt opts (n, s) = (r, n', s')"
  shows "store s' = store s"
    and "r = Inr meta \<Longrightarrow> find (is_queue qt name) (pgqueue_metadata (store s)) = Some meta"
proof -
  have "(\<exists>e. r = Inl e) \<and> s' = s \<or> (\<exists>m. getQueueMetadata env qt name (m, s) = (r, n', s'))"
    using assms
    by (auto simp: replayPreamble_def getReplayQueueMetadata_def checkClosed_def guardT_def liftE_def bindT_app
        split: if_splits sum.splits)
  then show "store s' = store s"
    and "r = Inr meta \<Longrightarrow> find (is_queue qt name) (pgqueue_metadata (store s)) = Some meta"
    by (auto dest: getQueueMetadata_store getQueueMetadata_found)
qed

text \<open>
  C15.  Replaying a channel's dead-letter queue always returns, whatever the driver does, and neither
  loses nor duplicates a message: the channel keeps its invariant, its contents and its number of
  rows; the rows examined stay within the limit; a dry run leaves the channel as it was.
\<close>

theorem ReplayDLQ_conserves:
  assumes "channel_of s name = Some t" and "channel_inv pq t" and "\<forall>d \<in> set (dlq t). d_id d \<noteq> 0"
  shows "\<exists>res e n' s' t'. ReplayDLQ pq env name QueueTypeChannel opts (n, s) = Some ((res, e), n', s') \<and>
           channel_of s' name = Some t' \<and> channel_inv pq t' \<and> contents t' = contents t \<and>
           length (msgs t') + length (dlq t') = length (msgs t) + length (dlq t) \<and>
           within_limit opts res \<and> (DryRun opts \<longrightarrow> t' = t)"
proof -
  obtain r n1 s1 where run: "replayPreamble pq env name QueueTypeChannel opts (n, s) = (r, n1, s1)"
    by (rule prod_cases3)
  note pre = preamble_facts [OF run]
  have zero: "within_limit opts zeroDLQResult" by (simp add: within_limit_def zeroDLQResult_def)
  show ?thesis
  proof (cases r)
    case (Inl e)
    have "channel_of s1 name = Some t" using assms(1) unfolding channel_of_def pre(1) .
    then show ?thesis using Inl run assms(2) zero by (simp add: ReplayDLQ_def)
  next
    case (Inr meta)
    let ?N = "length (msgs t) + length (dlq t)" and ?M = "pgqueue_metadata (store s)"
    have meta: "find (is_queue QueueTypeChannel name) ?M = Some meta" using pre(2) Inr by simp
    with assms(1) have t: "channels (store s) (metaTableName meta) = Some t" by (auto elim: channel_ofE)
    have "replay_db pq (metaTableName meta) ?M (contents t) ?N (set (dlq t)) (store s)"
      using t assms(2) by (simp add: replay_db_def good_with_def)
    from replayDLQ_loop [OF _ assms(3) this zero, of env name "resolveMaxRetries pq meta" 0 n1]
    obtain res e n2 d where loop: "executeReplayDLQ pq env name (metaTableName meta) QueueTypeChannel opts
          (resolveMaxRetries pq meta) 0 zeroDLQResult (n1, store s) = Some ((res, e), n2, d)"
        "replay_db pq (metaTableName meta) ?M (contents t) ?N (set (dlq t)) d" "within_limit opts res"
        "DryRun opts \<longrightarrow> d = store s"
      by auto
    obtain t' where t': "channels d (metaTableName meta) = Some t'" "good_with pq (contents t) t'"
        "length (msgs t') + length (dlq t') = ?N" "pgqueue_metadata d = ?M"
      using loop(2) by (auto simp: replay_db_def)
    have "channel_of (s1\<lparr>store := d\<rparr>) name = Some t'" using t' meta by (simp add: channel_of_def)
    moreover have "DryRun opts \<longrightarrow> t' = t" using loop(4) t t'(1) by auto
    ultimately show ?thesis
      using run Inr loop(1,3) pre(1) t' zero by (auto simp: ReplayDLQ_def good_with_def)
  qed
qed

definition dead_tables :: channel_tables where
  "dead_tables =
     \<lparr>msgs = [row0],
      dlq = [\<lparr>d_id = 3, d_original_message_id = 9, d_subscriber_id = None, d_payload = [5],
              d_failure_reason = ''boom'', d_retry_count = 4, d_moved_at = 950000, d_metadata = None\<rparr>]\<rparr>"

definition replay_opts0 :: ReplayOptions where
  "replay_opts0 = \<lparr>DryRun = False, replayLimit = 0, PerformedBy = ''ops''\<rparr>"

theorem ReplayDLQ_conserves_witness:
  "\<exists>res e n' s' t'. ReplayDLQ pq0 env0 ''orders'' QueueTypeChannel replay_opts0 (0, sys_with dead_tables) =
       Some ((res, e), n', s') \<and>
     channel_of s' ''orders'' = Some t' \<and> contents t' = {(7, [1, 2], None), (9, [5], None)}"
proof -
  have pre: "channel_of (sys_with dead_tables) ''orders'' = Some dead_tables" "channel_inv pq0 dead_tables"
    "\<forall>d \<in> set (dlq dead_tables). d_id d \<noteq> 0" "contents dead_tables = {(7, [1, 2], None), (9, [5], None)}"
    by code_simp+
  obtain res e n' s' t' where run: "ReplayDLQ pq0 env0 ''orders'' QueueTypeChannel replay_opts0 (0, sys_with dead_tables) =
      Some ((res, e), n', s')" "channel_of s' ''orders'' = Some t'" "contents t' = contents dead_tables"
    using ReplayDLQ_conserves [OF pre(1-3), of env0 replay_opts0 0] by (elim exE conjE) (rule that)
  have "contents t' = {(7, [1, 2], None), (9, [5], None)}" using run(3) pre(4) by (rule trans)
  with run(1,2) show ?thesis by (intro exI conjI)
qed

section \<open>Replaying one message\<close>

definition replay_entry :: "env \<Rightarrow> nat \<Rightarrow> string \<Rightarrow> uuid \<Rightarrow> ReplayOptions \<Rightarrow> ReplayLog" where
  "replay_entry env n name messageID opts =
     \<lparr>rlID = uuidv7 env n 0, rlQueueType = QueueTypeChannel, rlQueueName = name, rlReplayType = ''message_id'',
      rlReplayParams = DetailsMessageID messageID, rlMessageCount = 1, rlCreatedAt = NOW env,
      rlCreatedBy = (if PerformedBy opts = '''' then None else Some (PerformedBy opts))\<rparr>"

lemma none_selected:
  assumes "\<forall>r \<in> set rows. id r = i \<longrightarrow> \<not> Q r"
  shows "sql_count (\<lambda>r. id r = i \<and> Q r) rows = 0"
    and "sql_update (\<lambda>r. id r = i \<and> Q r) f rows = rows"
  using assms by (auto simp: sql_count_def filter_empty_conv intro: sql_update_none)

lemma one_selected:
  assumes "distinct (map id rows)" and "find (\<lambda>r. id r = i) rows = Some row" and "Q row"
  shows "sql_count (\<lambda>r. id r = i \<and> Q r) rows = 1"
    and "sql_update (\<lambda>r. id r = i \<and> Q r) f rows = sql_update (\<lambda>r. id r = i) f rows"
proof -
  have row: "row \<in> set rows" "id row = i" using find_SomeD [OF assms(2)] by auto
  have uniq: "id r = i \<and> Q r \<longleftrightarrow> id r = i" if "r \<in> set rows" for r
    using that row assms(1,3) by (auto simp: distinct_map inj_on_def)
  have "filter (\<lambda>r. id r = i \<and> Q r) rows = filter (\<lambda>r. id r = i) rows" using uniq by (rule filter_cong [OF refl])
  also have "\<dots> = [row]" using filter_key_unique [OF assms(1) row(1)] row(2) by simp
  finally show "sql_count (\<lambda>r. id r = i \<and> Q r) rows = 1" by (simp add: sql_count_def)
  show "sql_update (\<lambda>r. id r = i \<and> Q r) f rows = sql_update (\<lambda>r. id r = i) f rows"
    unfolding sql_update_def using uniq by (intro map_cong [OF refl]) simp
qed

text \<open>
  Replaying one message resets it to pending, due now, with no retries, claim or error, and writes one
  log entry in the same transaction; a message that is being processed or does not exist is
  refused with its own error, and then neither the channel nor the log changes.
\<close>

theorem ReplayMessage_spec:
  assumes "no_faults env" and "\<not> closed pq" and "validateReplayOpts opts = Inr ()" and "\<not> DryRun opts"
    and "channel_of s name = Some t" and "distinct (map id (msgs t))"
  shows "case ReplayMessage pq env name QueueTypeChannel messageID opts (n, s) of (res, _, s') \<Rightarrow>
           (case find (\<lambda>r. id r = messageID) (msgs t) of
              None \<Rightarrow> res = Inl ErrReplayMessageNotFound \<and> store s' = store s
            | Some row \<Rightarrow>
                if status row = MessageStatusProcessing
                then res = Inl ErrMessageInProcessing \<and> store s' = store s
                else res = Inr () \<and>
                  channel_of s' name =
                    Some (t\<lparr>msgs := sql_update (\<lambda>r. id r = messageID) (replay_now (NOW env)) (msgs t)\<rparr>) \<and>
                  (\<exists>k. pgqueue_replay_log (store s') =
                         pgqueue_replay_log (store s) @ [replay_entry env k name messageID opts]))"
proof -
  obtain meta where meta: "find (is_queue QueueTypeChannel name) (pgqueue_metadata (store s)) = Some meta"
      "channels (store s) (metaTableName meta) = Some t"
    using assms(5) by (rule channel_ofE)
  note run = assms(1-4) meta ReplayMessage_def checkClosed_def getReplayQueueMetadata_def getQueueMetadata_ok
    executeReplayMessage_def bindT_app onDb_app withTx_ok onChannel_def stmt_ok Let_def status_of_def
  let ?Q = "\<lambda>r. status r \<noteq> MessageStatusProcessing"
  show ?thesis
  proof (cases "find (\<lambda>r. id r = messageID) (msgs t)")
    case None
    then have "\<forall>r \<in> set (msgs t). id r = messageID \<longrightarrow> \<not> ?Q r" by (auto simp: find_None_iff)
    note sel = none_selected [OF this]
    show ?thesis by (simp add: run sel None)
  next
    case (Some row)
    show ?thesis
    proof (cases "status row = MessageStatusProcessing")
      case True
      have "\<forall>r \<in> set (msgs t). id r = messageID \<longrightarrow> r = row"
        using find_SomeD [OF Some] assms(6) by (auto simp: distinct_map inj_on_def)
      with True have "\<forall>r \<in> set (msgs t). id r = messageID \<longrightarrow> \<not> ?Q r" by auto
      note sel = none_selected [OF this]
      show ?thesis by (simp add: run sel Some True)
    next
      case False
      note sel = one_selected [OF assms(6) Some, of ?Q, OF False]
      show ?thesis using False
        by (simp add: run sel Some writeReplayLog_def createReplayLog_def replay_entry_def channel_of_def) blast
    qed
  qed
qed

theorem ReplayMessage_spec_witness:
  "\<exists>s' n'. ReplayMessage pq0 env0 ''orders'' QueueTypeChannel 7 replay_opts0 (0, sys_with claimed_tables) =
       (Inl ErrMessageInProcessing, n', s') \<and> store s' = store (sys_with claimed_tables)"
proof -
  have pre: "\<not> closed pq0" "validateReplayOpts replay_opts0 = Inr ()" "\<not> DryRun replay_opts0"
    "channel_of (sys_with claimed_tables) ''orders'' = Some claimed_tables" "distinct (map id (msgs claimed_tables))"
    "find (\<lambda>r. id r = 7) (msgs claimed_tables) = Some row1" "status row1 = MessageStatusProcessing"
    by code_simp+
  obtain r n' s' where run: "ReplayMessage pq0 env0 ''orders'' QueueTypeChannel 7 replay_opts0
      (0, sys_with claimed_tables) = (r, n', s')"
    by (rule prod_cases3)
  from ReplayMessage_spec [OF no_faults_env0 pre(1-5), of 7 0] pre(6,7) run show ?thesis by simp
qed

section \<open>Walking a dead-letter queue\<close>

definition remaining_dlq :: "uuid \<Rightarrow> channel_tables \<Rightarrow> dlq_row list" where
  "remaining_dlq a t = sort_key d_id (filter (\<lambda>d. after_cursor a (d_id d)) (dlq t))"

lemma dlqSelect_take: "dlqSelect a limit (dlq t) = take (nat limit) (remaining_dlq a t)"
  by (simp add: dlqSelect_def sql_select_def remaining_dlq_def)

lemma remaining_next:
  assumes "distinct (map d_id (dlq t))" and "\<forall>d \<in> set (dlq t). d_id d \<noteq> 0"
    and "page = take k (remaining_dlq a t)" and "page \<noteq> []"
  shows "page @ remaining_dlq (d_id (last page)) t = remaining_dlq a t"
proof -
  have "last page \<in> set page" using assms(4) by simp
  then have "last page \<in> set (remaining_dlq a t)" using assms(3) by (auto dest: in_set_takeD)
  then have l: "last page \<in> set (dlq t)" "after_cursor a (d_id (last page))" by (auto simp: remaining_dlq_def)
  have "remaining_dlq (d_id (last page)) t = drop k (remaining_dlq a t)"
    unfolding remaining_dlq_def [of "d_id (last page)" t]
  proof (rule sort_key_rest [OF assms(1) _ assms(4)])
    show "sort_key d_id (filter (\<lambda>d. after_cursor a (d_id d)) (dlq t)) = page @ drop k (remaining_dlq a t)"
      by (simp add: assms(3) remaining_dlq_def)
    show "after_cursor (d_id (last page)) (d_id x) \<longleftrightarrow> after_cursor a (d_id x) \<and> d_id (last page) < d_id x" for x
      using l assms(2) by (auto simp: after_cursor_def)
  qed
  then show ?thesis by (metis append_take_drop_id assms(3))
qed

text \<open>
  Listing dead letters page by page skips and repeats none: a page followed by what is left after its
  cursor is what was left before, the page is as long as the effective limit allows, an
  empty page keeps the cursor, and listing changes no table.
\<close>

theorem ListDLQMessages_pages:
  assumes "no_faults env" and "\<not> closed pq" and "coherent s" and "channel_of s name = Some t"
    and "distinct (map d_id (dlq t))" and "\<forall>d \<in> set (dlq t). d_id d \<noteq> 0"
  shows "\<exists>ms next n' s'. ListDLQMessages pq env name QueueTypeChannel page (n, s) = (Inr (ms, next), n', s') \<and>
           store s' = store s \<and> pageRows next = resolveDLQLimit (pageRows page) \<and>
           length ms = min (nat (pageRows next)) (length (remaining_dlq (AfterID page) t)) \<and>
           ms @ map (scanDLQMessage env) (remaining_dlq (AfterID next) t) =
             map (scanDLQMessage env) (remaining_dlq (AfterID page) t)"
proof -
  obtain meta where meta: "find (is_queue QueueTypeChannel name) (pgqueue_metadata (store s)) = Some meta"
      "channels (store s) (metaTableName meta) = Some t"
    using assms(4) by (rule channel_ofE)
  obtain n1 s1 where c: "cachedTableName env QueueTypeChannel name (n, s) = (Inr (metaTableName meta), n1, s1)"
    using cachedTableName_coherent [OF assms(3,1) meta(1)] by blast
  have st: "store s1 = store s" by (rule cachedTableName_store [OF c])
  let ?limit = "resolveDLQLimit (pageRows page)"
  let ?rows = "take (nat ?limit) (remaining_dlq (AfterID page) t)"
  let ?ms = "map (scanDLQMessage env) ?rows"
  let ?next = "\<lparr>AfterID = (if ?ms = [] then AfterID page else dmID (last ?ms)), pageRows = ?limit\<rparr>"
  have run: "ListDLQMessages pq env name QueueTypeChannel page (n, s) = (Inr (?ms, ?next), Suc n1, s1)"
    using assms(1,2) c meta(2) st
    by (simp add: ListDLQMessages_def checkClosed_def bindT_app Let_def onDb_app onChannel_def autocommit_ok
        dlqSelect_take map_upd_triv)
  have walk: "?ms @ map (scanDLQMessage env) (remaining_dlq (AfterID ?next) t) =
      map (scanDLQMessage env) (remaining_dlq (AfterID page) t)"
  proof (cases "?rows = []")
    case True
    then show ?thesis by simp
  next
    case False
    then have "AfterID ?next = d_id (last ?rows)" by (simp add: last_map scanDLQMessage_def)
    with remaining_next [OF assms(5,6) refl False] show ?thesis by (metis map_append)
  qed
  have rows: "pageRows ?next = ?limit" by simp
  have len: "length ?ms = min (nat (pageRows ?next)) (length (remaining_dlq (AfterID page) t))"
    by (simp add: min.commute)
  show ?thesis by (intro exI conjI, rule run, rule st, rule rows, rule len, rule walk)
qed

theorem ListDLQMessages_pages_witness:
  "\<exists>ms next n' s'. ListDLQMessages pq0 env0 ''orders'' QueueTypeChannel \<lparr>AfterID = 0, pageRows = 0\<rparr>
       (0, sys_with dead_tables) = (Inr (ms, next), n', s') \<and> pageRows next = 100 \<and> length ms = 1"
proof -
  have pre: "\<not> closed pq0" "channel_of (sys_with dead_tables) ''orders'' = Some dead_tables"
    "distinct (map d_id (dlq dead_tables))" "\<forall>d \<in> set (dlq dead_tables). d_id d \<noteq> 0"
    "length (remaining_dlq (AfterID \<lparr>AfterID = 0, pageRows = 0\<rparr>) dead_tables) = 1"
    "resolveDLQLimit (pageRows \<lparr>AfterID = 0, pageRows = 0\<rparr>) = 100"
    by code_simp+
  from ListDLQMessages_pages [OF no_faults_env0 pre(1) coherent_sys_with pre(2-4),
      of "\<lparr>AfterID = 0, pageRows = 0\<rparr>" 0]
  show ?thesis unfolding pre(5,6) by fastforce
qed

end
