(* ===== verification/Batch.thy ===== *)
theory Batch
  imports PubsubSpec
begin

text \<open>
  Batch acknowledgement and negative acknowledgement (\<^verbatim>\<open>batch.go\<close>), with the classification of
  the receipts that missed (\<^verbatim>\<open>queries.go\<close>) and the retry of transient failures.  The array
  literals of \<^verbatim>\<open>pgparam.go\<close> are the lists they render.
\<close>

type_synonym matchKey = "uuid \<times> uuid"

definition receiptMatchKey :: "Receipt \<Rightarrow> matchKey" where
  "receiptMatchKey r = (MessageID r, ClaimID r)"

text \<open>The two index-aligned arrays of \<^verbatim>\<open>receiptsToIDClaimLiterals\<close>, zipped, in lock order.\<close>

definition receiptsToIDClaimLiterals :: "Receipt list \<Rightarrow> matchKey list" where
  "receiptsToIDClaimLiterals receipts = sort (map receiptMatchKey receipts)"

definition emptyBatch :: BatchResult where
  "emptyBatch = \<lparr>Succeeded = [], Failed = []\<rparr>"

section \<open>Classification and partition\<close>

definition classifyBatchMisses ::
    "env \<Rightarrow> ('s \<Rightarrow> 'r list) \<Rightarrow> ('r \<Rightarrow> uuid) \<Rightarrow> ('r \<Rightarrow> MessageStatus) \<Rightarrow> ('r \<Rightarrow> uuid option) \<Rightarrow>
     Receipt list \<Rightarrow> ('s, FailedReceipt list) txm" where
  "classifyBatchMisses env rows key st cl misses =
     (if misses = [] then returnT []
      else bindT (stmt env (\<lambda>n t. (filter (\<lambda>x. key x \<in> MessageID ` set misses) (rows t), t))) (\<lambda>states.
        returnT (map (\<lambda>r. \<lparr>frReceipt = r,
                          frReason = classifyClaimMiss st cl (find (\<lambda>x. key x = MessageID r) states) (ClaimID r)\<rparr>)
                 misses)))"

definition classifyChannelBatchMisses ::
    "env \<Rightarrow> Receipt list \<Rightarrow> (channel_tables, FailedReceipt list) txm" where
  "classifyChannelBatchMisses env misses = classifyBatchMisses env msgs id status claim_id misses"

definition classifyTopicBatchMisses ::
    "env \<Rightarrow> string \<Rightarrow> Receipt list \<Rightarrow> (topic_tables, FailedReceipt list) txm" where
  "classifyTopicBatchMisses env subscriberID misses =
     classifyBatchMisses env (\<lambda>t. filter (\<lambda>s. s_subscriber_id s = subscriberID) (subs t))
       s_message_id s_status s_claim_id misses"

text \<open>\<^verbatim>\<open>finishBatch\<close> up to its commit, which is the one of \<open>withTx\<close>.\<close>

definition finishBatch ::
    "Receipt list \<Rightarrow> matchKey list \<Rightarrow> (Receipt list \<Rightarrow> ('s, FailedReceipt list) txm) \<Rightarrow> ('s, BatchResult) txm" where
  "finishBatch receipts matched classify =
     (let ok = filter (\<lambda>r. receiptMatchKey r \<in> set matched) receipts;
          misses = filter (\<lambda>r. receiptMatchKey r \<notin> set matched) receipts
      in if misses = [] then returnT \<lparr>Succeeded = ok, Failed = []\<rparr>
         else bindT (classify misses) (\<lambda>failed. returnT \<lparr>Succeeded = ok, Failed = failed\<rparr>))"

text \<open>The number \<^verbatim>\<open>finishBatch\<close> reports to \<^verbatim>\<open>RecordAckAfterExpired\<close>.\<close>

definition expiredReceipts :: "BatchResult \<Rightarrow> nat" where
  "expiredReceipts res = length (filter (\<lambda>f. errors_Is (frReason f) ErrClaimExpired) (Failed res))"

section \<open>Acknowledging\<close>

definition in_batch :: "matchKey list \<Rightarrow> channel_row \<Rightarrow> bool" where
  "in_batch ks r \<longleftrightarrow>
     status r = MessageStatusProcessing \<and> (case claim_id r of None \<Rightarrow> False | Some c \<Rightarrow> (id r, c) \<in> set ks)"

definition row_match :: "channel_row \<Rightarrow> matchKey" where
  "row_match r = (id r, the (claim_id r))"

definition ackChannelBatchBody :: "env \<Rightarrow> Receipt list \<Rightarrow> (channel_tables, BatchResult) txm" where
  "ackChannelBatchBody env receipts =
     (let ks = receiptsToIDClaimLiterals receipts in
      bindT (stmt env (\<lambda>n t.
               (map row_match (filter (in_batch ks) (msgs t)),
                t\<lparr>msgs := sql_update (in_batch ks) (ack_row (NOW env)) (msgs t)\<rparr>))) (\<lambda>matched.
      finishBatch receipts matched (classifyChannelBatchMisses env)))"

definition ackChannelBatch :: "env \<Rightarrow> string \<Rightarrow> Receipt list \<Rightarrow> (sys, BatchResult) txm" where
  "ackChannelBatch env channelName receipts =
     (if receipts = [] then returnT emptyBatch
      else
        bindT (liftE (validateBatchSize (length receipts))) (\<lambda>_.
        bindT (notFoundAs ErrChannelNotFound (getQueueMetadata env QueueTypeChannel channelName)) (\<lambda>queueMeta.
        onDb (withTx env (onChannel env (metaTableName queueMeta) (ackChannelBatchBody env receipts))))))"

definition in_sub_batch :: "string \<Rightarrow> matchKey list \<Rightarrow> sub_row \<Rightarrow> bool" where
  "in_sub_batch subscriberID ks s \<longleftrightarrow>
     s_subscriber_id s = subscriberID \<and> s_status s = MessageStatusProcessing \<and>
     (case s_claim_id s of None \<Rightarrow> False | Some c \<Rightarrow> (s_message_id s, c) \<in> set ks)"

definition sub_match :: "sub_row \<Rightarrow> matchKey" where
  "sub_match s = (s_message_id s, the (s_claim_id s))"

definition ackTopicBatchBody :: "env \<Rightarrow> string \<Rightarrow> Receipt list \<Rightarrow> (topic_tables, BatchResult) txm" where
  "ackTopicBatchBody env subscriberID receipts =
     (let ks = receiptsToIDClaimLiterals receipts in
      bindT (stmt env (\<lambda>n t.
               (map sub_match (filter (in_sub_batch subscriberID ks) (subs t)),
                t\<lparr>subs := sql_update (in_sub_batch subscriberID ks) (ack_sub (NOW env)) (subs t)\<rparr>))) (\<lambda>matched.
      finishBatch receipts matched (classifyTopicBatchMisses env subscriberID)))"

definition ackTopicBatch :: "env \<Rightarrow> string \<Rightarrow> string \<Rightarrow> Receipt list \<Rightarrow> (sys, BatchResult) txm" where
  "ackTopicBatch env topicName subscriberID receipts =
     bindT (liftE (validateSubscriberID subscriberID)) (\<lambda>_.
       if receipts = [] then returnT emptyBatch
       else
         bindT (liftE (validateBatchSize (length receipts))) (\<lambda>_.
         bindT (notFoundAs ErrTopicNotFound (getQueueMetadata env QueueTypePubSub topicName)) (\<lambda>queueMeta.
         onDb (withTx env (onTopic env (metaTableName queueMeta) (ackTopicBatchBody env subscriberID receipts))))))"

section \<open>Nacking\<close>

text \<open>The join with the receipts returns a row once per matching receipt.\<close>

definition fetchBatchMessageStates :: "env \<Rightarrow> Receipt list \<Rightarrow> (channel_tables, channel_row list) txm" where
  "fetchBatchMessageStates env receipts =
     stmt env (\<lambda>n t.
       (sort_key id [m. m \<leftarrow> msgs t, k \<leftarrow> receiptsToIDClaimLiterals receipts,
                        status m = MessageStatusProcessing \<and> claim_id m = Some (snd k) \<and> id m = fst k], t))"

record batchDLQMessage =
  bdID :: uuid
  bdPayload :: bytes
  bdRetryCount :: int
  bdMetadata :: "string option"

text \<open>The draws of the \<open>j\<close>-th of several back-off computations: disjoint blocks of the source.\<close>

definition draws_of :: "(nat \<Rightarrow> rat) \<Rightarrow> nat \<Rightarrow> nat \<Rightarrow> rat" where
  "draws_of rnds j = (\<lambda>k. rnds (nat maxBackoffSteps * j + k))"

definition batchRetryMessages ::
    "env \<Rightarrow> (uuid \<times> duration) list \<Rightarrow> string \<Rightarrow> (channel_tables, unit) txm" where
  "batchRetryMessages env delays errorMsg =
     stmt env (\<lambda>n t.
       ((), t\<lparr>msgs := map (\<lambda>r. case map_of delays (id r) of
                                None \<Rightarrow> r
                              | Some delay \<Rightarrow> retry_row errorMsg (NOW env + make_interval env delay) r) (msgs t)\<rparr>))"

definition insert_dlqs :: "env \<Rightarrow> dlq_row list \<Rightarrow> dlq_row list \<Rightarrow> err + dlq_row list" where
  "insert_dlqs env news rows =
     (if distinct (map d_id (rows @ news)) then Inr (rows @ news)
      else Inl (ErrDriver (pg_error env pgUniqueViolation)))"

definition dlq_rows_of ::
    "env \<Rightarrow> nat \<Rightarrow> string option \<Rightarrow> string \<Rightarrow> batchDLQMessage list \<Rightarrow> dlq_row list" where
  "dlq_rows_of env n subscriberID errorMsg messages =
     map (\<lambda>(i, m). \<lparr>d_id = uuidv7 env n i, d_original_message_id = bdID m, d_subscriber_id = subscriberID,
                    d_payload = bdPayload m, d_failure_reason = truncateErrorMsg errorMsg,
                    d_retry_count = bdRetryCount m, d_moved_at = NOW env, d_metadata = bdMetadata m\<rparr>)
       (enumerate 0 messages)"

definition batchMoveToDLQ :: "env \<Rightarrow> batchDLQMessage list \<Rightarrow> string \<Rightarrow> (channel_tables, unit) txm" where
  "batchMoveToDLQ env messages errorMsg =
     bindT
       (stmtE env (\<lambda>n t.
          case insert_dlqs env (dlq_rows_of env n None errorMsg messages) (dlq t) of
            Inl e \<Rightarrow> Inl e
          | Inr rows \<Rightarrow> Inr ((), t\<lparr>dlq := rows\<rparr>)))
       (\<lambda>_. stmt env (\<lambda>n t.
          ((), t\<lparr>msgs := sql_delete (\<lambda>r. id r \<in> bdID ` set messages) (msgs t)\<rparr>)))"

definition batch_exhausted :: "Queue \<Rightarrow> channel_row \<Rightarrow> bool" where
  "batch_exhausted pq s \<longleftrightarrow>
     retry_count s + 1 > channelMaxRetries (defaultMaxRetries (cfg pq)) (max_retries s)"

definition processNackBatch ::
    "Queue \<Rightarrow> env \<Rightarrow> channel_row list \<Rightarrow> string \<Rightarrow> duration \<Rightarrow> (channel_tables, unit) txm" where
  "processNackBatch pq env states errorMsg retryDelay =
     bindT (randT env) (\<lambda>rnds.
       let retries = filter (\<lambda>s. \<not> batch_exhausted pq s) states;
           delays = map (\<lambda>(j, s). (id s, computeRetryDelay env (backoffPolicy (cfg pq)) (draws_of rnds j)
                                          (retry_count s + 1) retryDelay)) (enumerate 0 retries);
           dead = map (\<lambda>s. \<lparr>bdID = id s, bdPayload = payload s, bdRetryCount = retry_count s + 1,
                            bdMetadata = metadata s\<rparr>) (filter (batch_exhausted pq) states)
       in bindT (if delays \<noteq> [] then batchRetryMessages env delays errorMsg else returnT ()) (\<lambda>_.
          if dead \<noteq> [] then batchMoveToDLQ env dead errorMsg else returnT ()))"

definition nackChannelBatchBody ::
    "Queue \<Rightarrow> env \<Rightarrow> Receipt list \<Rightarrow> string \<Rightarrow> duration \<Rightarrow> (channel_tables, BatchResult) txm" where
  "nackChannelBatchBody pq env receipts errorMsg retryDelay =
     bindT (fetchBatchMessageStates env receipts) (\<lambda>states.
     bindT (processNackBatch pq env states errorMsg retryDelay) (\<lambda>_.
     finishBatch receipts (map row_match states) (classifyChannelBatchMisses env)))"

definition nackChannelBatch ::
    "Queue \<Rightarrow> env \<Rightarrow> string \<Rightarrow> Receipt list \<Rightarrow> string \<Rightarrow> duration \<Rightarrow> (sys, BatchResult) txm" where
  "nackChannelBatch pq env channelName receipts errorMsg retryDelay =
     (if receipts = [] then returnT emptyBatch
      else
        bindT (liftE (validateBatchSize (length receipts))) (\<lambda>_.
        bindT (notFoundAs ErrChannelNotFound (getQueueMetadata env QueueTypeChannel channelName)) (\<lambda>queueMeta.
        onDb (withTx env (onChannel env (metaTableName queueMeta)
          (nackChannelBatchBody pq env receipts (truncateErrorMsg errorMsg) retryDelay))))))"

definition fetchBatchSubStates ::
    "env \<Rightarrow> Receipt list \<Rightarrow> string \<Rightarrow> (topic_tables, (sub_row \<times> topic_row) list) txm" where
  "fetchBatchSubStates env receipts subscriberID =
     stmt env (\<lambda>n t.
       (sort_key (\<lambda>(s, m). s_message_id s)
          [(s, m). (s, m) \<leftarrow> joined t, k \<leftarrow> receiptsToIDClaimLiterals receipts,
             s_subscriber_id s = subscriberID \<and> s_status s = MessageStatusProcessing \<and>
             s_claim_id s = Some (snd k) \<and> s_message_id s = fst k], t))"

definition batchRetrySubscriptions ::
    "env \<Rightarrow> (uuid \<times> duration) list \<Rightarrow> string \<Rightarrow> string \<Rightarrow> (topic_tables, unit) txm" where
  "batchRetrySubscriptions env delays subscriberID errorMsg =
     stmt env (\<lambda>n t.
       ((), t\<lparr>subs := map (\<lambda>s. if s_subscriber_id s = subscriberID then
                                (case map_of delays (s_message_id s) of
                                   None \<Rightarrow> s
                                 | Some delay \<Rightarrow> retry_sub errorMsg (NOW env + make_interval env delay) s)
                              else s) (subs t)\<rparr>))"

definition batchMoveSubToDLQ ::
    "env \<Rightarrow> string \<Rightarrow> batchDLQMessage list \<Rightarrow> string \<Rightarrow> (topic_tables, unit) txm" where
  "batchMoveSubToDLQ env subscriberID messages errorMsg =
     bindT
       (stmtE env (\<lambda>n t.
          case insert_dlqs env (dlq_rows_of env n (Some subscriberID) errorMsg messages) (tdlq t) of
            Inl e \<Rightarrow> Inl e
          | Inr rows \<Rightarrow> Inr ((), t\<lparr>tdlq := rows\<rparr>)))
       (\<lambda>_. stmt env (\<lambda>n t.
          ((), t\<lparr>subs := sql_delete (\<lambda>s. s_message_id s \<in> bdID ` set messages \<and> s_subscriber_id s = subscriberID)
                          (subs t)\<rparr>)))"

definition processNackTopicBatch ::
    "Queue \<Rightarrow> env \<Rightarrow> string \<Rightarrow> (sub_row \<times> topic_row) list \<Rightarrow> int \<Rightarrow> string \<Rightarrow> duration \<Rightarrow> (topic_tables, unit) txm" where
  "processNackTopicBatch pq env subscriberID states maxRetry errorMsg retryDelay =
     bindT (randT env) (\<lambda>rnds.
       let spent = (\<lambda>x. s_retry_count (fst x) + 1 > maxRetry);
           delays = map (\<lambda>(j, x). (s_message_id (fst x),
                                   computeRetryDelay env (backoffPolicy (cfg pq)) (draws_of rnds j)
                                     (s_retry_count (fst x) + 1) retryDelay))
                      (enumerate 0 (filter (\<lambda>x. \<not> spent x) states));
           dead = map (\<lambda>x. \<lparr>bdID = s_message_id (fst x), bdPayload = t_payload (snd x),
                            bdRetryCount = s_retry_count (fst x) + 1, bdMetadata = t_metadata (snd x)\<rparr>)
                    (filter spent states)
       in bindT (if delays \<noteq> [] then batchRetrySubscriptions env delays subscriberID errorMsg else returnT ()) (\<lambda>_.
          if dead \<noteq> [] then batchMoveSubToDLQ env subscriberID dead errorMsg else returnT ()))"

definition nackTopicBatchBody ::
    "Queue \<Rightarrow> env \<Rightarrow> string \<Rightarrow> Receipt list \<Rightarrow> int \<Rightarrow> string \<Rightarrow> duration \<Rightarrow> (topic_tables, BatchResult) txm" where
  "nackTopicBatchBody pq env subscriberID receipts maxRetry errorMsg retryDelay =
     bindT (fetchBatchSubStates env receipts subscriberID) (\<lambda>states.
     bindT (processNackTopicBatch pq env subscriberID states maxRetry errorMsg retryDelay) (\<lambda>_.
     finishBatch receipts (map (\<lambda>x. sub_match (fst x)) states) (classifyTopicBatchMisses env subscriberID)))"

definition getTopicMetadata :: "env \<Rightarrow> string \<Rightarrow> (sys, queueMetadata) txm" where
  "getTopicMetadata env topicName = notFoundAs ErrTopicNotFound (getQueueMetadata env QueueTypePubSub topicName)"

definition nackTopicBatch ::
    "Queue \<Rightarrow> env \<Rightarrow> string \<Rightarrow> string \<Rightarrow> Receipt list \<Rightarrow> string \<Rightarrow> duration \<Rightarrow> (sys, BatchResult) txm" where
  "nackTopicBatch pq env topicName subscriberID receipts errorMsg retryDelay =
     bindT (liftE (validateSubscriberID subscriberID)) (\<lambda>_.
       if receipts = [] then returnT emptyBatch
       else
         bindT (liftE (validateBatchSize (length receipts))) (\<lambda>_.
         bindT (getTopicMetadata env topicName) (\<lambda>queueMeta.
         onDb (withTx env (onTopic env (metaTableName queueMeta)
           (nackTopicBatchBody pq env subscriberID receipts (resolveMaxRetries pq queueMeta)
              (truncateErrorMsg errorMsg) retryDelay))))))"

section \<open>Retrying transient failures\<close>

definition maxBatchTransientRetries :: nat where
  "maxBatchTransientRetries = 3"

text \<open>
  The loop of \<^verbatim>\<open>withBatchRetry\<close>; \<open>cancelled i\<close> says whether the caller's context is done after
  attempt \<open>i\<close> or during the wait that follows it.
\<close>

function withBatchRetry :: "(nat \<Rightarrow> bool) \<Rightarrow> ('s, 'a) txm \<Rightarrow> nat \<Rightarrow> ('s, 'a) txm" where
  "withBatchRetry cancelled attempt i = (\<lambda>ns.
     case attempt ns of
       (Inr res, ns') \<Rightarrow> (Inr res, ns')
     | (Inl e, ns') \<Rightarrow>
         if \<not> isTransientError e \<or> cancelled i \<or> i \<ge> maxBatchTransientRetries then (Inl e, ns')
         else withBatchRetry cancelled attempt (i + 1) ns')"
  by pat_completeness auto
termination by (relation "measure (\<lambda>(_, _, i). maxBatchTransientRetries - i)") auto

declare withBatchRetry.simps [simp del]

end
