(* ===== verification/BatchProps.thy ===== *)
theory BatchProps
  imports Batch ChannelProps
begin

text \<open>
  Properties of the batch operations: a batch ack is the sequence of its single acks with every
  receipt judged on the tables before the batch, a batch nack conserves the channel, and the
  retry of transient failures is bounded.
\<close>

section \<open>Which rows a batch matches\<close>

lemma set_literals [simp]: "set (receiptsToIDClaimLiterals rs) = receiptMatchKey ` set rs"
  by (simp add: receiptsToIDClaimLiterals_def)

lemma in_batch_iff:
  "in_batch (receiptsToIDClaimLiterals rs) row \<longleftrightarrow> (\<exists>r \<in> set rs. live_row (MessageID r) (ClaimID r) row)"
  by (auto simp: in_batch_def live_row_def receiptMatchKey_def split: option.splits)

lemma matched_iff:
  assumes "r \<in> set rs"
  shows "receiptMatchKey r \<in> row_match ` set (filter (in_batch (receiptsToIDClaimLiterals rs)) (msgs t)) \<longleftrightarrow>
         claimed r t"
proof
  assume "receiptMatchKey r \<in> row_match ` set (filter (in_batch (receiptsToIDClaimLiterals rs)) (msgs t))"
  then obtain row where "row \<in> set (msgs t)" "in_batch (receiptsToIDClaimLiterals rs) row"
      "receiptMatchKey r = row_match row"
    by auto
  then show "claimed r t"
    by (auto simp: in_batch_def claimed_def row_match_def live_row_def receiptMatchKey_def split: option.splits)
next
  assume "claimed r t"
  then obtain row where "row \<in> set (msgs t)" "live_row (MessageID r) (ClaimID r) row"
    by (auto simp: claimed_def)
  moreover from this(2) have "in_batch (receiptsToIDClaimLiterals rs) row" "receiptMatchKey r = row_match row"
    using assms by (auto simp: in_batch_iff row_match_def live_row_def receiptMatchKey_def)
  ultimately show "receiptMatchKey r \<in> row_match ` set (filter (in_batch (receiptsToIDClaimLiterals rs)) (msgs t))"
    by auto
qed

lemma sql_update_twice:
  "(\<And>r. P r \<Longrightarrow> \<not> Q (f r)) \<Longrightarrow> sql_update Q f (sql_update P f rows) = sql_update (\<lambda>r. P r \<or> Q r) f rows"
  by (induction rows) auto

definition ack_all :: "timestamp \<Rightarrow> Receipt list \<Rightarrow> channel_row list \<Rightarrow> channel_row list" where
  "ack_all now rs rows = fold (\<lambda>r. sql_update (live_row (MessageID r) (ClaimID r)) (ack_row now)) rs rows"

lemma ack_all_update:
  "sql_update (in_batch (receiptsToIDClaimLiterals rs)) (ack_row now) rows = ack_all now rs rows"
proof (induction rs arbitrary: rows)
  case Nil
  then show ?case by (auto simp: ack_all_def in_batch_iff intro: sql_update_none)
next
  case (Cons r rs)
  have "\<not> in_batch (receiptsToIDClaimLiterals rs) (ack_row now row)" for row
    by (simp add: in_batch_iff live_row_def ack_row_def)
  then have "sql_update (in_batch (receiptsToIDClaimLiterals rs)) (ack_row now)
      (sql_update (live_row (MessageID r) (ClaimID r)) (ack_row now) rows) =
    sql_update (\<lambda>row. live_row (MessageID r) (ClaimID r) row \<or> in_batch (receiptsToIDClaimLiterals rs) row)
      (ack_row now) rows"
    by (rule sql_update_twice)
  then have "sql_update (in_batch (receiptsToIDClaimLiterals (r # rs))) (ack_row now) rows =
    sql_update (in_batch (receiptsToIDClaimLiterals rs)) (ack_row now)
      (sql_update (live_row (MessageID r) (ClaimID r)) (ack_row now) rows)"
    by (simp add: in_batch_iff [abs_def])
  then show ?case unfolding Cons by (simp add: ack_all_def)
qed

lemma find_sql_update:
  "(\<And>r. Q (f r) = Q r) \<Longrightarrow> find Q (sql_update P f rows) = map_option (\<lambda>r. if P r then f r else r) (find Q rows)"
  by (induction rows) auto

text \<open>The classification of a miss reads the tables after the update, but decides as before it.\<close>

lemma miss_reason_after:
  assumes "r \<in> set rs" and "\<not> claimed r t"
  shows "miss_reason r (t\<lparr>msgs := sql_update (in_batch (receiptsToIDClaimLiterals rs)) (ack_row now) (msgs t)\<rparr>) =
         miss_reason r t"
proof (cases "find (\<lambda>row. id row = MessageID r) (msgs t)")
  case None
  then show ?thesis by (simp add: miss_reason_def find_sql_update ack_row_def)
next
  case (Some row)
  then have row: "row \<in> set (msgs t)" "id row = MessageID r" by (auto simp: find_Some_iff)
  then have "claim_id row \<noteq> Some (ClaimID r)" if "in_batch (receiptsToIDClaimLiterals rs) row"
    using that assms by (auto simp: claimed_def live_row_def in_batch_def)
  with Some show ?thesis
    by (auto simp: miss_reason_def find_sql_update ack_row_def classifyClaimMiss_def classifyClaimState_def)
qed

lemma find_filter_key: "i \<in> A \<Longrightarrow> find (\<lambda>x. key x = i) (filter (\<lambda>x. key x \<in> A) xs) = find (\<lambda>x. key x = i) xs"
  by (induction xs) auto

definition judged :: "channel_tables \<Rightarrow> Receipt list \<Rightarrow> BatchResult" where
  "judged t rs =
     \<lparr>Succeeded = filter (\<lambda>r. claimed r t) rs,
      Failed = map (\<lambda>r. \<lparr>frReceipt = r, frReason = miss_reason r t\<rparr>) (filter (\<lambda>r. \<not> claimed r t) rs)\<rparr>"

lemma classify_batch_run:
  assumes "no_faults env" and "misses \<noteq> []"
  shows "classifyChannelBatchMisses env misses (n, t) =
           (Inr (map (\<lambda>r. \<lparr>frReceipt = r, frReason = miss_reason r t\<rparr>) misses), Suc n, t)"
  using assms
  by (auto simp: classifyChannelBatchMisses_def classifyBatchMisses_def tx_simps miss_reason_def find_filter_key)

lemma ackBatch_run:
  assumes "no_faults env"
  shows "\<exists>n'. ackChannelBatchBody env rs (n, t) =
           (Inr (judged t rs), n', t\<lparr>msgs := ack_all (NOW env) rs (msgs t)\<rparr>)"
proof -
  let ?ks = "receiptsToIDClaimLiterals rs"
  let ?t' = "t\<lparr>msgs := sql_update (in_batch ?ks) (ack_row (NOW env)) (msgs t)\<rparr>"
  let ?matched = "map row_match (filter (in_batch ?ks) (msgs t))"
  have ok: "filter (\<lambda>r. receiptMatchKey r \<in> set ?matched) rs = filter (\<lambda>r. claimed r t) rs"
    and bad: "filter (\<lambda>r. receiptMatchKey r \<notin> set ?matched) rs = filter (\<lambda>r. \<not> claimed r t) rs"
    using matched_iff [of _ rs t] by (auto intro!: filter_cong simp del: set_map)
      (auto simp: image_iff)
  have reasons: "map (\<lambda>r. \<lparr>frReceipt = r, frReason = miss_reason r ?t'\<rparr>) (filter (\<lambda>r. \<not> claimed r t) rs) =
      map (\<lambda>r. \<lparr>frReceipt = r, frReason = miss_reason r t\<rparr>) (filter (\<lambda>r. \<not> claimed r t) rs)"
    using miss_reason_after [of _ rs t "NOW env"] by auto
  note reasons = reasons [unfolded ack_all_update]
  have run: "ackChannelBatchBody env rs (n, t) =
      finishBatch rs ?matched (classifyChannelBatchMisses env) (Suc n, ?t')"
    using assms by (simp add: ackChannelBatchBody_def tx_simps Let_def)
  show ?thesis
  proof (cases "filter (\<lambda>r. \<not> claimed r t) rs = []")
    case True
    then show ?thesis unfolding run finishBatch_def ok bad
      by (simp add: judged_def ack_all_update)
  next
    case False
    then show ?thesis unfolding run finishBatch_def ok bad
      by (simp add: judged_def bindT_app classify_batch_run [OF assms False] reasons ack_all_update)
  qed
qed

text \<open>
  C12.  A batch ack on a channel completes exactly the rows its receipts hold live claims on, as
  acking them one after the other would.  Every receipt is reported once, in input order: as
  succeeded when its claim was live before the batch, and otherwise as failed with the reason the
  single ack gives on the tables before the batch.
\<close>

theorem ackChannelBatch_spec:
  assumes "no_faults env" and "channel_of s name = Some t" and "receipts \<noteq> []" and "length receipts \<le> 1000"
  shows "case ackChannelBatch env name receipts (n, s) of (res, _, s') \<Rightarrow>
           res = Inr \<lparr>Succeeded = filter (\<lambda>r. claimed r t) receipts,
                      Failed = map (\<lambda>r. \<lparr>frReceipt = r, frReason = miss_reason r t\<rparr>)
                                 (filter (\<lambda>r. \<not> claimed r t) receipts)\<rparr> \<and>
           channel_of s' name =
             Some (t\<lparr>msgs := fold (\<lambda>r. sql_update (live_row (MessageID r) (ClaimID r)) (ack_row (NOW env)))
                               receipts (msgs t)\<rparr>)"
proof -
  obtain meta where meta: "find (is_queue QueueTypeChannel name) (pgqueue_metadata (store s)) = Some meta"
      "channels (store s) (metaTableName meta) = Some t"
    using assms(2) by (rule channel_ofE)
  have "validateBatchSize (length receipts) = Inr ()"
    using assms(4) by (simp add: validateBatchSize_def MaxBatchSize_def)
  then obtain k s1 where s1: "store s1 = store s"
      and run: "ackChannelBatch env name receipts (n, s) =
        onDb (withTx env (onChannel env (metaTableName meta) (ackChannelBatchBody env receipts))) (k, s1)"
    using metadata_operation [OF assms(1,2) meta(1),
      of "\<lambda>m. onDb (withTx env (onChannel env (metaTableName m) (ackChannelBatchBody env receipts)))" n] assms(3)
    by (auto simp: ackChannelBatch_def)
  obtain n' where "ackChannelBatchBody env receipts (Suc k, t) =
      (Inr (judged t receipts), n', t\<lparr>msgs := ack_all (NOW env) receipts (msgs t)\<rparr>)"
    using ackBatch_run [OF assms(1)] by blast
  then have "withTx env (onChannel env (metaTableName meta) (ackChannelBatchBody env receipts)) (k, store s1) =
      (Inr (judged t receipts), Suc n',
       put_channel (metaTableName meta) (t\<lparr>msgs := ack_all (NOW env) receipts (msgs t)\<rparr>) (store s))"
    by (simp add: s1 withTx_onChannel [OF assms(1) meta(2)])
  then show ?thesis
    using meta(1) by (simp add: run onDb_app judged_def ack_all_def s1 channel_of_def put_channel_def)
qed

theorem ackChannelBatch_spec_witness:
  "case ackChannelBatch env0 ''orders'' [receipt0, receipt0\<lparr>ClaimID := 9\<rparr>] (0, sys_with claimed_tables) of (res, _, s') \<Rightarrow>
     res = Inr \<lparr>Succeeded = [receipt0],
                Failed = [\<lparr>frReceipt = receipt0\<lparr>ClaimID := 9\<rparr>, frReason = ErrClaimExpired\<rparr>]\<rparr> \<and>
     channel_of s' ''orders'' = Some (claimed_tables\<lparr>msgs := [ack_row 1000000 row1]\<rparr>)"
proof -
  let ?rs = "[receipt0, receipt0\<lparr>ClaimID := 9\<rparr>]"
  have pre: "channel_of (sys_with claimed_tables) ''orders'' = Some claimed_tables" "length ?rs \<le> 1000"
    and eval: "filter (\<lambda>r. claimed r claimed_tables) ?rs = [receipt0]"
      "filter (\<lambda>r. \<not> claimed r claimed_tables) ?rs = [receipt0\<lparr>ClaimID := 9\<rparr>]"
      "miss_reason (receipt0\<lparr>ClaimID := 9\<rparr>) claimed_tables = ErrClaimExpired"
      "fold (\<lambda>r. sql_update (live_row (MessageID r) (ClaimID r)) (ack_row (NOW env0))) ?rs (msgs claimed_tables) =
         [ack_row 1000000 row1]"
    by code_simp+
  have "?rs \<noteq> []" by simp
  from ackChannelBatch_spec [OF no_faults_env0 pre(1) this pre(2), of 0] show ?thesis
    unfolding eval by (simp add: eval)
qed

section \<open>Batch nack\<close>

lemma good_with_delete_all:
  assumes "good_with pq S t"
    and "\<And>r. r \<in> set (msgs t) \<Longrightarrow> P r \<Longrightarrow> (id r, payload r, metadata r) \<in>
           (\<lambda>d. (d_original_message_id d, d_payload d, d_metadata d)) ` set (dlq t)"
  shows "good_with pq S (t\<lparr>msgs := sql_delete P (msgs t)\<rparr>)"
proof -
  have "contents (t\<lparr>msgs := sql_delete P (msgs t)\<rparr>) = contents t"
    using assms(2) unfolding contents_def by fastforce
  with assms(1) show ?thesis by (auto simp: good_with_def channel_inv_def)
qed

definition dead_of :: "channel_row \<Rightarrow> batchDLQMessage" where
  "dead_of s = \<lparr>bdID = id s, bdPayload = payload s, bdRetryCount = retry_count s + 1, bdMetadata = metadata s\<rparr>"

lemma map_rows_of:
  "(\<And>i m. g (case_prod f (i, m)) = h m) \<Longrightarrow> map g (map (case_prod f) (enumerate k ms)) = map h ms"
  by (induction ms arbitrary: k) simp_all

lemma dlq_rows_content:
  "map (\<lambda>d. (d_original_message_id d, d_payload d, d_metadata d)) (dlq_rows_of env n sid e ms) =
   map (\<lambda>m. (bdID m, bdPayload m, bdMetadata m)) ms"
  unfolding dlq_rows_of_def by (rule map_rows_of) simp

lemma dlq_rows_fields:
  "map (\<lambda>d. (d_failure_reason d, d_retry_count d)) (dlq_rows_of env n sid e ms) =
   map (\<lambda>m. (truncateErrorMsg e, bdRetryCount m)) ms"
  unfolding dlq_rows_of_def by (rule map_rows_of) simp

lemma dlq_rows_good:
  assumes "\<forall>m \<in> set ms. 0 \<le> bdRetryCount m" and "d \<in> set (dlq_rows_of env n sid e ms)"
  shows "dlq_good d"
proof -
  have "(d_failure_reason d, d_retry_count d) \<in> set (map (\<lambda>m. (truncateErrorMsg e, bdRetryCount m)) ms)"
    using assms(2) by (simp flip: dlq_rows_fields [where env = env and n = n and sid = sid])
  then show ?thesis using assms(1) by (auto simp: dlq_good_def)
qed

lemma hoare_batchMove:
  "hoare (\<lambda>t. good_with pq S t \<and> set rows \<subseteq> set (msgs t))
     (batchMoveToDLQ env (map dead_of rows) e) (\<lambda>_. good_with pq S)"
  unfolding batchMoveToDLQ_def
proof (rule hoare_bind)
  let ?dead = "\<lambda>t. (\<lambda>d. (d_original_message_id d, d_payload d, d_metadata d)) ` set (dlq t)"
  let ?held = "(\<lambda>r. (id r, payload r, metadata r)) ` set rows"
  let ?news = "\<lambda>n. dlq_rows_of env n None e (map dead_of rows)"
  have news: "(\<lambda>d. (d_original_message_id d, d_payload d, d_metadata d)) ` set (?news n) = ?held" for n
    using arg_cong [OF dlq_rows_content, of set env n None e "map dead_of rows"]
    by (simp add: image_image dead_of_def)
  have good: "\<forall>d \<in> set (?news n). dlq_good d" if "\<forall>r \<in> set rows. row_good pq r" for n
    using that by (auto simp: dead_of_def row_good_def intro!: dlq_rows_good)
  show "hoare (\<lambda>t. good_with pq S t \<and> set rows \<subseteq> set (msgs t))
     (stmtE env (\<lambda>n t. case insert_dlqs env (?news n) (dlq t) of
            Inl e \<Rightarrow> Inl e | Inr ds \<Rightarrow> Inr ((), t\<lparr>dlq := ds\<rparr>)))
     (\<lambda>_ t. good_with pq S t \<and> set rows \<subseteq> set (msgs t) \<and> ?held \<subseteq> ?dead t)"
  proof (rule hoare_stmtE)
    fix n t a t'
    assume t: "good_with pq S t \<and> set rows \<subseteq> set (msgs t)"
      and run: "(case insert_dlqs env (?news n) (dlq t) of
            Inl e \<Rightarrow> Inl e | Inr ds \<Rightarrow> Inr ((), t\<lparr>dlq := ds\<rparr>)) = Inr (a, t')"
    then have t': "t' = t\<lparr>dlq := dlq t @ ?news n\<rparr>" and dist: "distinct (map d_id (dlq t @ ?news n))"
      by (auto simp: insert_dlqs_def split: if_splits)
    have "?held \<subseteq> (\<lambda>r. (id r, payload r, metadata r)) ` set (msgs t)" using t by auto
    then have "contents t' = contents t" by (auto simp: t' contents_def image_Un news)
    moreover have "\<forall>d \<in> set (?news n). dlq_good d" using t good [of n] by (auto dest: good_row)
    ultimately show "good_with pq S t' \<and> set rows \<subseteq> set (msgs t') \<and> ?held \<subseteq> ?dead t'"
      using t dist by (auto simp: t' good_with_def channel_inv_def image_Un news)
  qed
  show "hoare (\<lambda>t. good_with pq S t \<and> set rows \<subseteq> set (msgs t) \<and> ?held \<subseteq> ?dead t)
     (stmt env (\<lambda>n t. ((), t\<lparr>msgs := sql_delete (\<lambda>r. id r \<in> bdID ` set (map dead_of rows)) (msgs t)\<rparr>)))
     (\<lambda>_. good_with pq S)"
  proof (rule hoare_stmt)
    fix n t a t'
    assume t: "good_with pq S t \<and> set rows \<subseteq> set (msgs t) \<and> ?held \<subseteq> ?dead t"
      and run: "((), t\<lparr>msgs := sql_delete (\<lambda>r. id r \<in> bdID ` set (map dead_of rows)) (msgs t)\<rparr>) = (a, t')"
    have held: "(id r, payload r, metadata r) \<in> ?dead t"
      if r: "r \<in> set (msgs t)" "id r \<in> bdID ` set (map dead_of rows)" for r
    proof -
      obtain x where "x \<in> set rows" "id r = id x" using r(2) by (auto simp: dead_of_def)
      moreover from this have "r = x" using t r(1) good_same_id by blast
      ultimately show ?thesis using t by blast
    qed
    have "good_with pq S (t\<lparr>msgs := sql_delete (\<lambda>r. id r \<in> bdID ` set (map dead_of rows)) (msgs t)\<rparr>)"
      by (rule good_with_delete_all [OF _ held]) (use t in auto)
    with run show "good_with pq S t'" by (simp only: prod.inject)
  qed
qed

lemma hoare_batchRetry:
  assumes "storable e" and "fst ` set delays = id ` set retries"
    and "\<forall>r \<in> set retries. \<not> batch_exhausted pq r" and "\<forall>r \<in> set deads. batch_exhausted pq r"
  shows "hoare (\<lambda>t. good_with pq S t \<and> set retries \<subseteq> set (msgs t) \<and> set deads \<subseteq> set (msgs t))
           (batchRetryMessages env delays e) (\<lambda>_ t. good_with pq S t \<and> set deads \<subseteq> set (msgs t))"
  unfolding batchRetryMessages_def
proof (rule hoare_stmt)
  fix n t a t'
  let ?P = "\<lambda>r. map_of delays (id r) \<noteq> None"
  let ?f = "\<lambda>r. retry_row e (NOW env + make_interval env (the (map_of delays (id r)))) r"
  let ?g = "\<lambda>r. case map_of delays (id r) of None \<Rightarrow> r
              | Some delay \<Rightarrow> retry_row e (NOW env + make_interval env delay) r"
  assume t: "good_with pq S t \<and> set retries \<subseteq> set (msgs t) \<and> set deads \<subseteq> set (msgs t)"
    and "((), t\<lparr>msgs := map ?g (msgs t)\<rparr>) = (a, t')"
  moreover have "map ?g rows = sql_update ?P ?f rows" for rows
    by (induction rows) (auto split: option.split)
  ultimately have t': "t' = t\<lparr>msgs := sql_update ?P ?f (msgs t)\<rparr>" by simp
  have spared: "\<not> batch_exhausted pq r" if r: "r \<in> set (msgs t)" "?P r" for r
  proof -
    obtain x where "x \<in> set retries" "id r = id x"
      using r(2) assms(2) by (auto simp: map_of_eq_None_iff)
    moreover from this have "r = x" using t r(1) good_same_id by blast
    ultimately show ?thesis using assms(3) by simp
  qed
  have "good_with pq S t'" unfolding t'
  proof (rule good_with_update)
    show "good_with pq S t" using t by simp
    show "keeps_content ?f" by (simp add: keeps_content_def retry_row_def)
    show "row_good pq (?f r)" if "r \<in> set (msgs t)" "?P r" "row_good pq r" for r
      using spared [OF that(1,2)] that(3) assms(1)
      by (intro row_good_retry) (auto simp: batch_exhausted_def effective_max_def)
  qed
  moreover have "set deads \<subseteq> set (msgs t')"
  proof
    fix x assume "x \<in> set deads"
    then have "x \<in> set (msgs t)" "batch_exhausted pq x" using t assms(4) by auto
    moreover from this have "\<not> ?P x" using spared by blast
    ultimately show "x \<in> set (msgs t')" by (force simp: t' set_sql_update)
  qed
  ultimately show "good_with pq S t' \<and> set deads \<subseteq> set (msgs t')" by simp
qed

lemma fst_enumerated: "fst ` set (map (\<lambda>(j, s). (g s, h j s)) (enumerate k xs)) = g ` set xs"
  by (induction xs arbitrary: k) auto

lemma hoare_processNackBatch:
  assumes "storable e"
  shows "hoare (\<lambda>t. good_with pq S t \<and> set states \<subseteq> set (msgs t))
           (processNackBatch pq env states e d) (\<lambda>_. good_with pq S)"
  unfolding processNackBatch_def Let_def dead_of_def [symmetric]
proof (rule hoare_bind [OF hoare_rand_keep], rule hoare_bind)
  fix rnds
  let ?retries = "filter (\<lambda>s. \<not> batch_exhausted pq s) states" and ?deads = "filter (batch_exhausted pq) states"
  let ?delays = "map (\<lambda>(j, s). (id s, computeRetryDelay env (backoffPolicy (cfg pq)) (draws_of rnds j)
                   (retry_count s + 1) d)) (enumerate 0 ?retries)"
  show "hoare (\<lambda>t. good_with pq S t \<and> set states \<subseteq> set (msgs t))
      (if ?delays \<noteq> [] then batchRetryMessages env ?delays e else returnT ())
      (\<lambda>_ t. good_with pq S t \<and> set ?deads \<subseteq> set (msgs t))"
    by (rule hoare_if, rule hoare_pre [OF hoare_batchRetry [OF assms fst_enumerated, where deads = ?deads]])
      (auto intro: hoare_return)
  show "hoare (\<lambda>t. good_with pq S t \<and> set ?deads \<subseteq> set (msgs t))
      (if map dead_of ?deads \<noteq> [] then batchMoveToDLQ env (map dead_of ?deads) e else returnT ())
      (\<lambda>_. good_with pq S)" for u :: unit
    by (intro hoare_if hoare_batchMove hoare_return) simp
qed

lemma hoare_finish: "hoare (good_with pq S) (finishBatch rs matched (classifyChannelBatchMisses env)) (\<lambda>_. good_with pq S)"
  unfolding finishBatch_def Let_def classifyChannelBatchMisses_def classifyBatchMisses_def
  by (auto intro!: hoare_bind [where Q = "\<lambda>_. good_with pq S"] hoare_return hoare_stmt)

lemma hoare_nackBatch:
  assumes "storable e"
  shows "hoare (good_with pq S) (nackChannelBatchBody pq env rs e d) (\<lambda>_. good_with pq S)"
  unfolding nackChannelBatchBody_def
proof (rule hoare_bind)
  show "hoare (good_with pq S) (fetchBatchMessageStates env rs)
          (\<lambda>states t. good_with pq S t \<and> set states \<subseteq> set (msgs t))"
    unfolding fetchBatchMessageStates_def by (rule hoare_stmt) auto
qed (rule hoare_bind [OF hoare_processNackBatch [OF assms] hoare_finish])

lemma bindT_returnT_right: "bindT m (\<lambda>a. returnT a) = m"
  by (rule ext) (simp add: bindT_def returnT_def split: prod.split sum.split)

text \<open>
  A batch nack on a channel, whatever the driver does and even with repeated receipts, keeps
  the channel's invariant and loses no message: each stays queued with its payload and metadata, or
  is in the dead-letter queue with them.
\<close>

theorem nackChannelBatch_conserves:
  assumes "channel_of s name = Some t" and "channel_inv pq t"
    and "nackChannelBatch pq env name receipts e d (n, s) = (r, n', s')"
  shows "\<exists>t'. channel_of s' name = Some t' \<and> channel_inv pq t' \<and> contents t' = contents t"
proof (cases "receipts = [] \<or> length receipts > MaxBatchSize")
  case True
  then have "store s' = store s"
    using assms(3) by (auto simp: nackChannelBatch_def validateBatchSize_def split: if_splits)
  then show ?thesis using assms channel_of_store by metis
next
  case False
  then have "bindT (notFoundAs ErrChannelNotFound (getQueueMetadata env QueueTypeChannel name))
      (\<lambda>meta. if False then failT ErrQueuePaused
              else bindT (onDb (withTx env (onChannel env (metaTableName meta)
                     (nackChannelBatchBody pq env receipts (truncateErrorMsg e) d)))) (\<lambda>a. returnT a)) (n, s) =
      (r, n', s')"
    using assms(3) by (simp add: nackChannelBatch_def validateBatchSize_def bindT_returnT_right)
  then show ?thesis
  proof (cases rule: metadata_tx_cases)
    case unchanged
    then show ?thesis using assms channel_of_store by metis
  next
    case (ran meta u a t' k k')
    with assms have "good_with pq (contents t) u" by (simp add: good_with_def)
    with hoareD [OF hoare_nackBatch [OF storable_truncate] this ran(4)] ran(5)
    show ?thesis by (auto simp: good_with_def)
  qed
qed

theorem nackChannelBatch_conserves_witness:
  "\<exists>t' r n' s'. nackChannelBatch pq0 env0 ''orders'' [receipt0] ''boom'' 0 (0, sys_with spent_tables) = (r, n', s') \<and>
     channel_of s' ''orders'' = Some t' \<and> contents t' = {(7, [1, 2], None)}"
proof -
  have pre: "channel_of (sys_with spent_tables) ''orders'' = Some spent_tables" "channel_inv pq0 spent_tables"
    "contents spent_tables = {(7, [1, 2], None)}"
    by code_simp+
  obtain r n' s' where run: "nackChannelBatch pq0 env0 ''orders'' [receipt0] ''boom'' 0 (0, sys_with spent_tables) = (r, n', s')"
    by (metis prod_cases3)
  from nackChannelBatch_conserves [OF pre(1,2) run] run pre(3) show ?thesis by auto
qed

section \<open>Retrying\<close>

fun tries :: "('s, 'a) txm \<Rightarrow> nat \<Rightarrow> nat \<times> 's \<Rightarrow> (err + 'a) \<times> nat \<times> 's" where
  "tries attempt 0 ns = attempt ns"
| "tries attempt (Suc k) ns = tries attempt k (snd (attempt ns))"

lemma batchRetry_tries:
  "\<exists>k. k + i \<le> max i maxBatchTransientRetries \<and>
       withBatchRetry cancelled attempt i ns = tries attempt k ns \<and>
       (\<forall>j < k. \<exists>e. fst (tries attempt j ns) = Inl e \<and> isTransientError e \<and> \<not> cancelled (i + j)) \<and>
       (\<forall>e. fst (tries attempt k ns) = Inl e \<longrightarrow>
          \<not> isTransientError e \<or> cancelled (i + k) \<or> i + k \<ge> maxBatchTransientRetries)"
proof (induction cancelled attempt i arbitrary: ns rule: withBatchRetry.induct)
  case (1 cancelled attempt i)
  obtain res ns' where run: "attempt ns = (res, ns')" by (cases "attempt ns") blast
  show ?case
  proof (cases "\<exists>e. res = Inl e \<and> isTransientError e \<and> \<not> cancelled i \<and> i < maxBatchTransientRetries")
    case False
    then show ?thesis
      by (intro exI [of _ 0]) (subst withBatchRetry.simps, auto simp: run split: sum.splits)
  next
    case True
    then obtain e where e: "res = Inl e" "isTransientError e" "\<not> cancelled i" "i < maxBatchTransientRetries"
      by blast
    then have "\<not> (\<not> isTransientError e \<or> cancelled i \<or> i \<ge> maxBatchTransientRetries)" by simp
    from "1" [OF run [symmetric] e(1) this, of ns'] obtain k where
      k: "k + Suc i \<le> max (Suc i) maxBatchTransientRetries"
        "withBatchRetry cancelled attempt (Suc i) ns' = tries attempt k ns'"
        "\<forall>j < k. \<exists>e. fst (tries attempt j ns') = Inl e \<and> isTransientError e \<and> \<not> cancelled (Suc i + j)"
        "\<forall>e. fst (tries attempt k ns') = Inl e \<longrightarrow>
           \<not> isTransientError e \<or> cancelled (Suc i + k) \<or> Suc i + k \<ge> maxBatchTransientRetries"
      by auto
    have "\<exists>e. fst (tries attempt j ns) = Inl e \<and> isTransientError e \<and> \<not> cancelled (i + j)" if "j < Suc k" for j
      using that k(3) e run by (cases j) auto
    moreover have "withBatchRetry cancelled attempt i ns = tries attempt (Suc k) ns"
      using e k(2) by (subst withBatchRetry.simps) (simp add: run)
    ultimately show ?thesis using k(1,4) e(4) by (intro exI [of _ "Suc k"]) (auto simp: run)
  qed
qed

text \<open>
  \<^verbatim>\<open>withBatchRetry\<close> makes at most four attempts and its result is that of the last: every earlier
  attempt failed with a transient error, and the last succeeded, failed for good, was cancelled, or
  was the fourth.
\<close>

theorem withBatchRetry_bounded:
  "\<exists>k \<le> 3. withBatchRetry cancelled attempt 0 ns = tries attempt k ns \<and>
     (\<forall>j < k. \<exists>e. fst (tries attempt j ns) = Inl e \<and> isTransientError e \<and> \<not> cancelled j) \<and>
     (\<forall>e. fst (tries attempt k ns) = Inl e \<longrightarrow> \<not> isTransientError e \<or> cancelled k \<or> k = 3)"
proof -
  obtain k where k: "k \<le> 3" "withBatchRetry cancelled attempt 0 ns = tries attempt k ns"
      "\<forall>j < k. \<exists>e. fst (tries attempt j ns) = Inl e \<and> isTransientError e \<and> \<not> cancelled j"
      "\<forall>e. fst (tries attempt k ns) = Inl e \<longrightarrow> \<not> isTransientError e \<or> cancelled k \<or> k \<ge> 3"
    using batchRetry_tries [of 0 cancelled attempt ns] by (auto simp: maxBatchTransientRetries_def)
  from k(1,4) have "\<forall>e. fst (tries attempt k ns) = Inl e \<longrightarrow> \<not> isTransientError e \<or> cancelled k \<or> k = 3"
    by (metis le_antisym)
  with k(1-3) show ?thesis by blast
qed

theorem withBatchRetry_bounded_witness:
  "\<exists>k \<le> 3. withBatchRetry (\<lambda>_. False) (failT ErrQueueClosed :: (unit, unit) txm) 0 (0, ()) =
     tries (failT ErrQueueClosed) k (0, ())"
  using withBatchRetry_bounded [of "\<lambda>_. False" "failT ErrQueueClosed" "(0, ())"] by blast

end
