(* ===== verification/Gc.thy ===== *)
theory Gc
  imports Pubsub
begin

text \<open>
  The garbage collector (\<^verbatim>\<open>gc.go\<close>): configuration, retention purges, dead-lettering of exhausted
  deliveries, and the reset of timed-out ones.  A paged statement touches the first rows of its
  order that match and are not locked by another session.
\<close>

section \<open>Configuration\<close>

definition KeepForever :: duration where
  "KeepForever = -1"

record RetentionPolicy =
  CompletedMessageTTL :: duration
  MaxPendingAge :: duration
  DLQRetention :: duration

record GarbageCollectorConfig =
  Interval :: duration
  Policies :: "(string \<times> RetentionPolicy) list option"
  DefaultPolicy :: RetentionPolicy
  MaxWorkers :: int

definition defaultGCInterval :: duration where
  "defaultGCInterval = 5 * time_Minute"

definition defaultGCMaxWorkers :: int where
  "defaultGCMaxWorkers = 10"

definition maxGCMaxWorkers :: int where
  "maxGCMaxWorkers = 100"

definition defaultRetentionPolicy :: RetentionPolicy where
  "defaultRetentionPolicy =
     \<lparr>CompletedMessageTTL = 24 * time_Hour, MaxPendingAge = 0, DLQRetention = 30 * 24 * time_Hour\<rparr>"

definition zeroRetentionPolicy :: RetentionPolicy where
  "zeroRetentionPolicy = \<lparr>CompletedMessageTTL = 0, MaxPendingAge = 0, DLQRetention = 0\<rparr>"

definition validateRetentionPolicy :: "RetentionPolicy \<Rightarrow> err + unit" where
  "validateRetentionPolicy p =
     (if \<exists>d \<in> {CompletedMessageTTL p, MaxPendingAge p, DLQRetention p}. d < 0 \<and> d \<noteq> KeepForever
      then Inl ErrInvalidConfig else Inr ())"

definition validateGCConfig :: "GarbageCollectorConfig \<Rightarrow> err + unit" where
  "validateGCConfig c =
     (if Interval c < 0 then Inl ErrInvalidConfig
      else if MaxWorkers c < 0 \<or> MaxWorkers c > maxGCMaxWorkers then Inl ErrInvalidConfig
      else if validateRetentionPolicy (DefaultPolicy c) \<noteq> Inr () then Inl ErrInvalidConfig
      else if \<exists>(name, p) \<in> set (case Policies c of None \<Rightarrow> [] | Some ps \<Rightarrow> ps). validateRetentionPolicy p \<noteq> Inr ()
      then Inl ErrInvalidConfig
      else Inr ())"

definition normalizeGCConfig :: "GarbageCollectorConfig \<Rightarrow> err + GarbageCollectorConfig" where
  "normalizeGCConfig c =
     (case validateGCConfig c of
        Inl e \<Rightarrow> Inl e
      | Inr _ \<Rightarrow>
          Inr \<lparr>Interval = (if Interval c = 0 then defaultGCInterval else Interval c),
               Policies = (case Policies c of None \<Rightarrow> Some [] | Some ps \<Rightarrow> Some ps),
               DefaultPolicy = (if DefaultPolicy c = zeroRetentionPolicy then defaultRetentionPolicy
                                else DefaultPolicy c),
               MaxWorkers = (if MaxWorkers c = 0 then defaultGCMaxWorkers else MaxWorkers c)\<rparr>)"

definition getPolicy :: "GarbageCollectorConfig \<Rightarrow> string \<Rightarrow> RetentionPolicy" where
  "getPolicy c queueName =
     (case Policies c of
        None \<Rightarrow> DefaultPolicy c
      | Some ps \<Rightarrow> (case map_of ps queueName of Some p \<Rightarrow> p | None \<Rightarrow> DefaultPolicy c))"

section \<open>Paged statements\<close>

definition retentionPurgePageSize :: nat where
  "retentionPurgePageSize = 1000"

text \<open>
  The loop of \<^verbatim>\<open>runPagedPurge\<close>: the total so far is returned with an error too, and \<open>cancelled\<close> is
  the context after a round trip.  \<open>None\<close> is a loop that never returns.
\<close>

partial_function (option) runPagedPurge ::
    "env \<Rightarrow> (nat \<Rightarrow> bool) \<Rightarrow> ('s \<Rightarrow> nat \<times> 's) \<Rightarrow> nat \<Rightarrow> nat \<times> 's \<Rightarrow>
     ((nat \<times> err option) \<times> nat \<times> 's) option" where
  "runPagedPurge env cancelled page sofar ns =
     (case autocommit env (\<lambda>n s. page s) ns of
        (Inl e, ns') \<Rightarrow> Some ((sofar, Some e), ns')
      | (Inr n, ns') \<Rightarrow>
          if n < retentionPurgePageSize then Some ((sofar + n, None), ns')
          else if cancelled (fst ns') then Some ((sofar + n, Some context_Canceled), ns')
          else runPagedPurge env cancelled page (sofar + n) ns')"

declare runPagedPurge.simps [code]

definition delete_page :: "('r \<Rightarrow> 'k::linorder) \<Rightarrow> ('r \<Rightarrow> uuid) \<Rightarrow> ('r \<Rightarrow> bool) \<Rightarrow> 'r list \<Rightarrow> nat \<times> 'r list" where
  "delete_page key rid P rows =
     (let page = sql_select key retentionPurgePageSize P rows in
      (length page, sql_delete (\<lambda>r. rid r \<in> rid ` set page) rows))"

definition update_page ::
    "('r \<Rightarrow> 'k::linorder) \<Rightarrow> ('r \<Rightarrow> uuid) \<Rightarrow> ('r \<Rightarrow> bool) \<Rightarrow> ('r \<Rightarrow> 'r) \<Rightarrow> 'r list \<Rightarrow> nat \<times> 'r list" where
  "update_page key rid P f rows =
     (let page = sql_select key retentionPurgePageSize P rows in
      (length page, sql_update (\<lambda>r. rid r \<in> rid ` set page) f rows))"

section \<open>Channels\<close>

definition completed_before :: "env \<Rightarrow> duration \<Rightarrow> channel_row \<Rightarrow> bool" where
  "completed_before env ttl r \<longleftrightarrow>
     status r = MessageStatusCompleted \<and>
     (case processed_at r of None \<Rightarrow> False | Some p \<Rightarrow> p < NOW env - make_interval env ttl) \<and>
     \<not> locked env (id r)"

definition purgeCompletedChannel :: "env \<Rightarrow> duration \<Rightarrow> channel_row list \<Rightarrow> nat \<times> channel_row list" where
  "purgeCompletedChannel env ttl = delete_page (\<lambda>r. (the (processed_at r), id r)) id (completed_before env ttl)"

definition pending_before :: "env \<Rightarrow> duration \<Rightarrow> channel_row \<Rightarrow> bool" where
  "pending_before env maxAge r \<longleftrightarrow>
     status r = MessageStatusPending \<and> created_at r < NOW env - make_interval env maxAge \<and> \<not> locked env (id r)"

definition purgeOldPendingChannel :: "env \<Rightarrow> duration \<Rightarrow> channel_row list \<Rightarrow> nat \<times> channel_row list" where
  "purgeOldPendingChannel env maxAge = delete_page id id (pending_before env maxAge)"

definition dlq_before :: "env \<Rightarrow> duration \<Rightarrow> dlq_row \<Rightarrow> bool" where
  "dlq_before env retention d \<longleftrightarrow> d_moved_at d < NOW env - make_interval env retention \<and> \<not> locked env (d_id d)"

definition purgeDLQMessages :: "env \<Rightarrow> duration \<Rightarrow> dlq_row list \<Rightarrow> nat \<times> dlq_row list" where
  "purgeDLQMessages env retention = delete_page d_id d_id (dlq_before env retention)"

definition timed_out :: "env \<Rightarrow> channel_row \<Rightarrow> bool" where
  "timed_out env r \<longleftrightarrow> status r = MessageStatusProcessing \<and> expired_at (NOW env) (visibility_timeout r) \<and> \<not> locked env (id r)"

definition exhausted_now :: "Queue \<Rightarrow> env \<Rightarrow> channel_row \<Rightarrow> bool" where
  "exhausted_now pq env r \<longleftrightarrow>
     timed_out env r \<and> retry_count r \<ge> channelMaxRetries (defaultMaxRetries (cfg pq)) (max_retries r)"

definition promotePageSize :: nat where
  "promotePageSize = 100"

fun move_all :: "env \<Rightarrow> channel_row list \<Rightarrow> (channel_tables, unit) txm" where
  "move_all env [] = returnT ()"
| "move_all env (e # batch) =
     bindT (moveToDLQ env (id e) errReasonVisibilityTimeout (payload e) (retry_count e + 1) (metadata e))
       (\<lambda>_. move_all env batch)"

definition promoteExhaustedChannelPage :: "Queue \<Rightarrow> env \<Rightarrow> (channel_tables, nat) txm" where
  "promoteExhaustedChannelPage pq env =
     withTx env
       (bindT (stmt env (\<lambda>n t. (sql_select id promotePageSize (exhausted_now pq env) (msgs t), t))) (\<lambda>batch.
        bindT (move_all env batch) (\<lambda>_. returnT (length batch))))"

partial_function (option) promoteExhaustedChannelMessages ::
    "Queue \<Rightarrow> env \<Rightarrow> nat \<Rightarrow> nat \<times> channel_tables \<Rightarrow> ((nat \<times> err option) \<times> nat \<times> channel_tables) option" where
  "promoteExhaustedChannelMessages pq env sofar ns =
     (case promoteExhaustedChannelPage pq env ns of
        (Inl e, ns') \<Rightarrow> Some ((sofar, Some e), ns')
      | (Inr promoted, ns') \<Rightarrow>
          if promoted < promotePageSize then Some ((sofar + promoted, None), ns')
          else promoteExhaustedChannelMessages pq env (sofar + promoted) ns')"

declare promoteExhaustedChannelMessages.simps [code]

definition reset_row :: "channel_row \<Rightarrow> channel_row" where
  "reset_row r =
     r\<lparr>status := MessageStatusPending, claim_id := None, visibility_timeout := None, retry_count := retry_count r + 1\<rparr>"

definition resettable :: "Queue \<Rightarrow> env \<Rightarrow> channel_row \<Rightarrow> bool" where
  "resettable pq env r \<longleftrightarrow>
     timed_out env r \<and> retry_count r < channelMaxRetries (defaultMaxRetries (cfg pq)) (max_retries r)"

definition resetTimedOutMessages :: "Queue \<Rightarrow> env \<Rightarrow> channel_row list \<Rightarrow> nat \<times> channel_row list" where
  "resetTimedOutMessages pq env =
     update_page (\<lambda>r. (the (visibility_timeout r), id r)) id (resettable pq env) reset_row"

section \<open>Topics\<close>

text \<open>Deleting a message cascades to its subscriptions.\<close>

definition delete_messages_page :: "(topic_row \<Rightarrow> bool) \<Rightarrow> topic_tables \<Rightarrow> nat \<times> topic_tables" where
  "delete_messages_page P t =
     (let page = sql_select t_id retentionPurgePageSize P (tmsgs t); gone = t_id ` set page in
      (length page, t\<lparr>tmsgs := sql_delete (\<lambda>m. t_id m \<in> gone) (tmsgs t),
                      subs := sql_delete (\<lambda>s. s_message_id s \<in> gone) (subs t)\<rparr>))"

definition topic_done_before :: "env \<Rightarrow> duration \<Rightarrow> topic_tables \<Rightarrow> topic_row \<Rightarrow> bool" where
  "topic_done_before env ttl t m \<longleftrightarrow>
     t_created_at m < NOW env - make_interval env ttl \<and>
     \<not> (\<exists>s \<in> set (subs t). s_message_id s = t_id m \<and> s_status s \<noteq> MessageStatusAcked) \<and>
     \<not> (\<exists>d \<in> set (tdlq t). d_original_message_id d = t_id m) \<and> \<not> locked env (t_id m)"

definition purgeCompletedTopic :: "env \<Rightarrow> duration \<Rightarrow> topic_tables \<Rightarrow> nat \<times> topic_tables" where
  "purgeCompletedTopic env ttl t = delete_messages_page (topic_done_before env ttl t) t"

definition orphan :: "env \<Rightarrow> topic_tables \<Rightarrow> topic_row \<Rightarrow> bool" where
  "orphan env t m \<longleftrightarrow>
     \<not> (\<exists>s \<in> set (subs t). s_message_id s = t_id m) \<and>
     \<not> (\<exists>d \<in> set (tdlq t). d_original_message_id d = t_id m) \<and> \<not> locked env (t_id m)"

definition reclaimOrphanTopicMessages :: "env \<Rightarrow> topic_tables \<Rightarrow> nat \<times> topic_tables" where
  "reclaimOrphanTopicMessages env t = delete_messages_page (orphan env t) t"

definition sub_pending_before :: "env \<Rightarrow> duration \<Rightarrow> topic_tables \<Rightarrow> sub_row \<Rightarrow> bool" where
  "sub_pending_before env maxAge t s \<longleftrightarrow>
     s_status s = MessageStatusPending \<and>
     (\<exists>m \<in> set (tmsgs t). t_id m = s_message_id s \<and> t_created_at m < NOW env - make_interval env maxAge) \<and>
     \<not> locked env (s_id s)"

definition purgeOldPendingTopic :: "env \<Rightarrow> duration \<Rightarrow> topic_tables \<Rightarrow> nat \<times> topic_tables" where
  "purgeOldPendingTopic env maxAge t =
     (case delete_page s_id s_id (sub_pending_before env maxAge t) (subs t) of (n, rows) \<Rightarrow> (n, t\<lparr>subs := rows\<rparr>))"

text \<open>SQL's three-valued logic: a processing row with a NULL deadline is not selected.\<close>

definition abandoned :: "env \<Rightarrow> string set \<Rightarrow> sub_row \<Rightarrow> bool" where
  "abandoned env inactive s \<longleftrightarrow>
     s_subscriber_id s \<in> inactive \<and>
     (s_status s = MessageStatusProcessing \<longrightarrow>
        (case s_visibility_timeout s of None \<Rightarrow> False | Some v \<Rightarrow> \<not> v > NOW env)) \<and>
     \<not> locked env (s_id s)"

definition inactive_on :: "string \<Rightarrow> subscriber list \<Rightarrow> string set" where
  "inactive_on topicName rows =
     subSubscriberID ` {s \<in> set rows. subTopicName s = topicName \<and> \<not> subActive s}"

definition purgeInactiveSubscriptions :: "env \<Rightarrow> string set \<Rightarrow> topic_tables \<Rightarrow> nat \<times> topic_tables" where
  "purgeInactiveSubscriptions env inactive t =
     (case delete_page s_id s_id (abandoned env inactive) (subs t) of (n, rows) \<Rightarrow> (n, t\<lparr>subs := rows\<rparr>))"

definition sub_timed_out :: "env \<Rightarrow> sub_row \<Rightarrow> bool" where
  "sub_timed_out env s \<longleftrightarrow>
     s_status s = MessageStatusProcessing \<and> expired_at (NOW env) (s_visibility_timeout s) \<and> \<not> locked env (s_id s)"

definition reset_sub :: "sub_row \<Rightarrow> sub_row" where
  "reset_sub s =
     s\<lparr>s_status := MessageStatusPending, s_claim_id := None, s_visibility_timeout := None,
       s_retry_count := s_retry_count s + 1\<rparr>"

definition resetTimedOutSubscriptions :: "env \<Rightarrow> int \<Rightarrow> topic_tables \<Rightarrow> nat \<times> topic_tables" where
  "resetTimedOutSubscriptions env maxRetries t =
     (case update_page s_id s_id (\<lambda>s. sub_timed_out env s \<and> s_retry_count s < maxRetries) reset_sub (subs t) of
        (n, rows) \<Rightarrow> (n, t\<lparr>subs := rows\<rparr>))"

fun move_all_subs :: "env \<Rightarrow> (sub_row \<times> topic_row) list \<Rightarrow> (topic_tables, unit) txm" where
  "move_all_subs env [] = returnT ()"
| "move_all_subs env (e # batch) =
     bindT (moveSubToDLQ env (s_message_id (fst e)) (s_subscriber_id (fst e)) errReasonVisibilityTimeout e)
       (\<lambda>_. move_all_subs env batch)"

definition promoteExhaustedTopicPage :: "env \<Rightarrow> int \<Rightarrow> (topic_tables, nat) txm" where
  "promoteExhaustedTopicPage env maxRetries =
     withTx env
       (bindT (stmt env (\<lambda>n t.
          (sql_select (\<lambda>(s, m). s_id s) promotePageSize
             (\<lambda>(s, m). sub_timed_out env s \<and> s_retry_count s \<ge> maxRetries) (joined t), t))) (\<lambda>batch.
        bindT (move_all_subs env batch) (\<lambda>_. returnT (length batch))))"

partial_function (option) promoteExhaustedTopicSubscriptions ::
    "env \<Rightarrow> int \<Rightarrow> nat \<Rightarrow> nat \<times> topic_tables \<Rightarrow> ((nat \<times> err option) \<times> nat \<times> topic_tables) option" where
  "promoteExhaustedTopicSubscriptions env maxRetries sofar ns =
     (case promoteExhaustedTopicPage env maxRetries ns of
        (Inl e, ns') \<Rightarrow> Some ((sofar, Some e), ns')
      | (Inr promoted, ns') \<Rightarrow>
          if promoted < promotePageSize then Some ((sofar + promoted, None), ns')
          else promoteExhaustedTopicSubscriptions env maxRetries (sofar + promoted) ns')"

declare promoteExhaustedTopicSubscriptions.simps [code]

section \<open>Purging a queue\<close>

definition executePurgeChannel :: "env \<Rightarrow> (channel_tables, unit) txm" where
  "executePurgeChannel env =
     bindT (stmt env (\<lambda>n t. ((), t\<lparr>msgs := []\<rparr>))) (\<lambda>_. stmt env (\<lambda>n t. ((), t\<lparr>dlq := []\<rparr>)))"

definition executePurgeTopic :: "env \<Rightarrow> (topic_tables, unit) txm" where
  "executePurgeTopic env =
     bindT (stmt env (\<lambda>n t. ((), t\<lparr>subs := []\<rparr>))) (\<lambda>_.
     bindT (stmt env (\<lambda>n t. ((), t\<lparr>tmsgs := []\<rparr>))) (\<lambda>_.
     stmt env (\<lambda>n t. ((), t\<lparr>tdlq := []\<rparr>))))"

definition PurgeQueue :: "Queue \<Rightarrow> env \<Rightarrow> string \<Rightarrow> QueueType \<Rightarrow> (sys, unit) txm" where
  "PurgeQueue pq env queueName qt =
     bindT (checkClosed pq) (\<lambda>_.
     bindT (getQueueMetadata env qt queueName) (\<lambda>meta.
     onDb (withTx env
       (if qt = QueueTypePubSub then onTopic env (metaTableName meta) (executePurgeTopic env)
        else onChannel env (metaTableName meta) (executePurgeChannel env)))))"

section \<open>One queue\<close>

type_synonym 's gc_pass = "nat \<times> 's \<Rightarrow> ((nat \<times> err option) \<times> nat \<times> 's) option"

text \<open>A phase that runs only under a condition, and two phases in a row that stop at an error.\<close>

definition when_set :: "bool \<Rightarrow> 's gc_pass \<Rightarrow> 's gc_pass" where
  "when_set b m = (if b then m else (\<lambda>ns. Some ((0, None), ns)))"

definition and_then :: "'s gc_pass \<Rightarrow> 's gc_pass \<Rightarrow> 's gc_pass" where
  "and_then f g = (\<lambda>ns.
     case f ns of
       None \<Rightarrow> None
     | Some ((k, Some e), ns') \<Rightarrow> Some ((k, Some e), ns')
     | Some ((k, None), ns') \<Rightarrow>
         (case g ns' of None \<Rightarrow> None | Some ((j, e), ns'') \<Rightarrow> Some ((k + j, e), ns'')))"

definition on_msgs :: "(channel_row list \<Rightarrow> nat \<times> channel_row list) \<Rightarrow> channel_tables \<Rightarrow> nat \<times> channel_tables" where
  "on_msgs page t = (case page (msgs t) of (n, rows) \<Rightarrow> (n, t\<lparr>msgs := rows\<rparr>))"

definition on_dlq :: "(dlq_row list \<Rightarrow> nat \<times> dlq_row list) \<Rightarrow> channel_tables \<Rightarrow> nat \<times> channel_tables" where
  "on_dlq page t = (case page (dlq t) of (n, rows) \<Rightarrow> (n, t\<lparr>dlq := rows\<rparr>))"

definition on_tdlq :: "(dlq_row list \<Rightarrow> nat \<times> dlq_row list) \<Rightarrow> topic_tables \<Rightarrow> nat \<times> topic_tables" where
  "on_tdlq page t = (case page (tdlq t) of (n, rows) \<Rightarrow> (n, t\<lparr>tdlq := rows\<rparr>))"

definition retainChannel :: "env \<Rightarrow> (nat \<Rightarrow> bool) \<Rightarrow> RetentionPolicy \<Rightarrow> channel_tables gc_pass" where
  "retainChannel env cancelled p =
     and_then (when_set (CompletedMessageTTL p > 0)
                 (runPagedPurge env cancelled (on_msgs (purgeCompletedChannel env (CompletedMessageTTL p))) 0))
    (and_then (when_set (MaxPendingAge p > 0)
                 (runPagedPurge env cancelled (on_msgs (purgeOldPendingChannel env (MaxPendingAge p))) 0))
              (when_set (DLQRetention p > 0)
                 (runPagedPurge env cancelled (on_dlq (purgeDLQMessages env (DLQRetention p))) 0)))"

definition retainTopic :: "env \<Rightarrow> (nat \<Rightarrow> bool) \<Rightarrow> RetentionPolicy \<Rightarrow> topic_tables gc_pass" where
  "retainTopic env cancelled p =
     and_then (when_set (CompletedMessageTTL p > 0)
                 (runPagedPurge env cancelled (purgeCompletedTopic env (CompletedMessageTTL p)) 0))
    (and_then (when_set (MaxPendingAge p > 0)
                 (runPagedPurge env cancelled (purgeOldPendingTopic env (MaxPendingAge p)) 0))
              (when_set (DLQRetention p > 0)
                 (runPagedPurge env cancelled (on_tdlq (purgeDLQMessages env (DLQRetention p))) 0)))"

text \<open>
  \<^verbatim>\<open>doCollectQueue\<close> for each type; the count is of all rows purged, promoted or reset.
\<close>

definition collectChannel ::
    "Queue \<Rightarrow> env \<Rightarrow> (nat \<Rightarrow> bool) \<Rightarrow> RetentionPolicy \<Rightarrow> channel_tables gc_pass" where
  "collectChannel pq env cancelled p =
     and_then (retainChannel env cancelled p)
    (and_then (promoteExhaustedChannelMessages pq env 0)
              (runPagedPurge env cancelled (on_msgs (resetTimedOutMessages pq env)) 0))"

definition collectTopic ::
    "env \<Rightarrow> (nat \<Rightarrow> bool) \<Rightarrow> RetentionPolicy \<Rightarrow> string set \<Rightarrow> int \<Rightarrow> topic_tables gc_pass" where
  "collectTopic env cancelled p inactive maxRetries =
     and_then (retainTopic env cancelled p)
    (and_then (runPagedPurge env cancelled (purgeInactiveSubscriptions env inactive) 0)
    (and_then (runPagedPurge env cancelled (reclaimOrphanTopicMessages env) 0)
    (and_then (promoteExhaustedTopicSubscriptions env maxRetries 0)
              (runPagedPurge env cancelled (resetTimedOutSubscriptions env maxRetries) 0))))"

end
