(* ===== verification/GcProps.thy ===== *)
theory GcProps
  imports Gc ChannelProps "HOL-Library.Multiset"
begin

text \<open>
  The garbage collector: a paged statement always ends, deletes exactly the rows its condition
  selects, and the reset of timed-out deliveries keeps the channel.
\<close>

section \<open>The paging interface\<close>

text \<open>A statement that reports no more rows than it takes off the work left.\<close>

locale paged_statement =
  fixes page :: "'s \<Rightarrow> nat \<times> 's"
    and todo :: "'s \<Rightarrow> nat"
  assumes progress: "todo (snd (page s)) + fst (page s) \<le> todo s"
begin

lemma returns: "\<exists>y. runPagedPurge env cancelled page sofar (n, s) = Some y"
proof (induction "todo s" arbitrary: sofar n s rule: less_induct)
  case less
  obtain r n' s' where run: "autocommit env (\<lambda>n s. page s) (n, s) = (r, n', s')" by (rule prod_cases3)
  show ?case
  proof (cases "\<exists>k. r = Inr k \<and> \<not> k < retentionPurgePageSize \<and> \<not> cancelled n'")
    case False
    then show ?thesis by (subst runPagedPurge.simps) (auto simp: run split: sum.splits)
  next
    case True
    then obtain k where k: "r = Inr k" "\<not> k < retentionPurgePageSize" "\<not> cancelled n'" by blast
    from run k(1) have "k = fst (page s)" "s' = snd (page s)" by (auto elim: autocommit_cases)
    then have "todo s' < todo s" using progress [of s] k(2) by (simp add: retentionPurgePageSize_def)
    from less [OF this] obtain y where "runPagedPurge env cancelled page (sofar + k) (n', s') = Some y" by blast
    then show ?thesis using k by (cases y) (subst runPagedPurge.simps, simp add: run)
  qed
qed

end

section \<open>Deleting pages\<close>

lemma page_split:
  "length (filter K (filter P rows)) =
   length (filter K (sql_select key n P rows)) + length (filter K (drop n (sort_key key (filter P rows))))"
proof -
  have "length (filter K xs) = length (filter K (sort_key key xs))" for xs
    by (metis mset_filter mset_sort size_mset)
  then have "length (filter K (filter P rows)) = length (filter K (sort_key key (filter P rows)))" by blast
  also have "sort_key key (filter P rows) = sql_select key n P rows @ drop n (sort_key key (filter P rows))"
    by (simp add: sql_select_def)
  finally show ?thesis by (simp only: filter_append length_append)
qed

lemma page_gone: "filter (\<lambda>r. rid r \<notin> rid ` set page) page = []"
  by (simp add: filter_empty_conv)

lemma count_after_page:
  "sql_count P (snd (delete_page key rid P rows)) =
   length (filter (\<lambda>r. rid r \<notin> rid ` set (sql_select key retentionPurgePageSize P rows))
            (drop retentionPurgePageSize (sort_key key (filter P rows))))"
  using page_split [of "\<lambda>r. rid r \<notin> rid ` set (sql_select key retentionPurgePageSize P rows)" P rows key retentionPurgePageSize]
  by (simp add: delete_page_def Let_def sql_count_def sql_delete_def page_gone conj_commute)

lemma count_page:
  "sql_count P rows = fst (delete_page key rid P rows) + length (drop retentionPurgePageSize (sort_key key (filter P rows)))"
proof -
  have "filter (\<lambda>_. True) xs = xs" for xs :: "'a list" by (induction xs) auto
  with page_split [of "\<lambda>_. True" P rows key retentionPurgePageSize] show ?thesis
    by (simp only: delete_page_def Let_def sql_count_def fst_conv)
qed

lemma delete_page_progress:
  "sql_count P (snd (delete_page key rid P rows)) + fst (delete_page key rid P rows) \<le> sql_count P rows"
  unfolding count_after_page count_page [of P rows key rid]
  by (subst add.commute, rule add_left_mono, rule length_filter_le)

interpretation delete_paging: paged_statement "delete_page key rid P" "sql_count P"
  for key :: "'r \<Rightarrow> 'k::linorder" and rid :: "'r \<Rightarrow> uuid" and P :: "'r \<Rightarrow> bool"
  by unfold_locales (rule delete_page_progress)

lemma delete_page_last:
  assumes "distinct (map rid rows)" and "fst (delete_page key rid P rows) < retentionPurgePageSize"
  shows "snd (delete_page key rid P rows) = sql_delete P rows" "fst (delete_page key rid P rows) = sql_count P rows"
proof -
  have len: "sql_count P rows < retentionPurgePageSize"
    using assms(2) by (simp add: delete_page_def Let_def length_sql_select)
  then have page: "set (sql_select key retentionPurgePageSize P rows) = {r \<in> set rows. P r}"
    by (simp add: sql_select_all)
  have "rid r \<in> rid ` {r \<in> set rows. P r} \<longleftrightarrow> P r" if "r \<in> set rows" for r
    using that assms(1) by (auto dest: distinct_map_unique)
  then show "snd (delete_page key rid P rows) = sql_delete P rows"
    by (auto simp: delete_page_def Let_def page sql_delete_def intro!: filter_cong)
  show "fst (delete_page key rid P rows) = sql_count P rows"
    using len by (simp add: delete_page_def Let_def length_sql_select)
qed

lemma delete_page_step:
  assumes "distinct (map rid rows)"
  shows "sql_delete P (snd (delete_page key rid P rows)) = sql_delete P rows"
    and "sql_count P (snd (delete_page key rid P rows)) + fst (delete_page key rid P rows) = sql_count P rows"
    and "distinct (map rid (snd (delete_page key rid P rows)))"
proof -
  let ?page = "sql_select key retentionPurgePageSize P rows"
  let ?rest = "drop retentionPurgePageSize (sort_key key (filter P rows))"
  let ?keep = "\<lambda>r. rid r \<notin> rid ` set ?page"
  have keep: "?keep r" if "r \<in> set rows" "\<not> P r" for r
  proof
    assume "rid r \<in> rid ` set ?page"
    then obtain x where x: "rid r = rid x" "x \<in> set ?page" by auto
    then have "x \<in> set rows" "P x" by (auto dest: sql_select_mem)
    with x(1) that assms show False by (auto dest: distinct_map_unique)
  qed
  then show "sql_delete P (snd (delete_page key rid P rows)) = sql_delete P rows"
    by (auto simp: delete_page_def Let_def sql_delete_def intro!: filter_cong)
  have "distinct (map rid (sort_key key (filter P rows)))" using assms by (auto simp: distinct_map intro: inj_on_subset)
  moreover have "sort_key key (filter P rows) = ?page @ ?rest" by (simp add: sql_select_def)
  ultimately have "distinct (map rid (?page @ ?rest))" by (simp only:)
  then have "\<forall>r \<in> set ?rest. ?keep r" by auto
  then have "filter ?keep ?rest = ?rest" by (rule filter_True)
  then show "sql_count P (snd (delete_page key rid P rows)) + fst (delete_page key rid P rows) = sql_count P rows"
    unfolding count_after_page count_page [of P rows key rid] by simp
  show "distinct (map rid (snd (delete_page key rid P rows)))"
    using assms by (auto simp: delete_page_def Let_def)
qed

lemma purge_exact:
  assumes "no_faults env" and "distinct (map rid rows)"
  shows "\<exists>n'. runPagedPurge env (\<lambda>_. False) (delete_page key rid P) sofar (n, rows) =
           Some ((sofar + sql_count P rows, None), n', sql_delete P rows)"
  using assms(2)
proof (induction "sql_count P rows" arbitrary: sofar n rows rule: less_induct)
  case less
  let ?k = "fst (delete_page key rid P rows)" and ?rows' = "snd (delete_page key rid P rows)"
  have run: "autocommit env (\<lambda>n s. delete_page key rid P s) (n, rows) = (Inr ?k, Suc n, ?rows')"
    using assms(1) by (simp add: autocommit_ok)
  show ?case
  proof (cases "?k < retentionPurgePageSize")
    case True
    then show ?thesis
      using delete_page_last [OF less.prems True] by (subst runPagedPurge.simps) (simp add: run)
  next
    case False
    note step = delete_page_step [OF less.prems, where P = P and key = key]
    have "sql_count P ?rows' < sql_count P rows"
      using step(2) False by (simp add: retentionPurgePageSize_def)
    from less.hyps [OF this step(3)] obtain n' where
      "runPagedPurge env (\<lambda>_. False) (delete_page key rid P) (sofar + ?k) (Suc n, ?rows') =
         Some ((sofar + ?k + sql_count P ?rows', None), n', sql_delete P ?rows')"
      by blast
    with step(1,2) False show ?thesis by (subst runPagedPurge.simps) (auto simp: run add.assoc add.commute)
  qed
qed

text \<open>
  C27.  The retention purge of a channel deletes exactly the completed messages older than the TTL
  that no other session holds, reports their number, and leaves every other row as it was and in
  place, however many pages it takes.
\<close>

theorem purgeCompleted_exact:
  assumes "no_faults env" and "distinct (map id rows)"
  shows "\<exists>n'. runPagedPurge env (\<lambda>_. False) (purgeCompletedChannel env ttl) 0 (n, rows) =
           Some ((length (filter (completed_before env ttl) rows), None), n',
                 filter (\<lambda>r. \<not> completed_before env ttl r) rows)"
  using purge_exact [OF assms, of "\<lambda>r. (the (processed_at r), id r)" "completed_before env ttl" 0 n]
  by (simp add: purgeCompletedChannel_def sql_count_def sql_delete_def)

theorem purgeCompleted_exact_witness:
  "\<exists>n'. runPagedPurge env0 (\<lambda>_. False) (purgeCompletedChannel env0 0) 0 (0, [row0, (ack_row 5 row1)\<lparr>id := 8\<rparr>]) =
     Some ((1, None), n', [row0])"
proof -
  let ?rows = "[row0, (ack_row 5 row1)\<lparr>id := 8\<rparr>]"
  have "distinct (map id ?rows)" "length (filter (completed_before env0 0) ?rows) = 1"
    "filter (\<lambda>r. \<not> completed_before env0 0 r) ?rows = [row0]"
    by code_simp+
  with purgeCompleted_exact [OF no_faults_env0, of ?rows 0 0] show ?thesis by simp
qed

section \<open>Resetting\<close>

lemma reset_not_resettable: "\<not> resettable pq env (reset_row r)"
  by (simp add: resettable_def timed_out_def reset_row_def)

lemma row_good_reset:
  assumes "row_good pq r" and "resettable pq env r"
  shows "row_good pq (reset_row r)"
  using assms
  by (auto simp: row_good_def reset_row_def channel_row_ok_def resettable_def effective_max_def split: option.splits)

lemma reset_selects:
  assumes "good_with pq S t" and "r \<in> set (msgs t)"
    and "id r \<in> id ` set (sql_select key k (resettable pq env) (msgs t))"
  shows "resettable pq env r"
proof -
  obtain x where x: "id r = id x" "x \<in> set (sql_select key k (resettable pq env) (msgs t))" using assms(3) by auto
  then have "x \<in> set (msgs t)" "resettable pq env x" by (auto dest: sql_select_mem)
  with x(1) assms(1,2) show ?thesis using good_same_id by metis
qed

lemma reset_good:
  assumes "good_with pq S t"
  shows "good_with pq S (t\<lparr>msgs := snd (resetTimedOutMessages pq env (msgs t))\<rparr>)"
  unfolding resetTimedOutMessages_def update_page_def Let_def snd_conv
  by (rule good_with_update [OF assms])
    (auto simp: keeps_content_def reset_row_def intro: row_good_reset [unfolded reset_row_def] reset_selects [OF assms])

text \<open>
  One page of the reset of timed-out deliveries keeps the channel's invariant and every message,
  and leaves the exhausted ones to the promotion pass.
\<close>

theorem reset_keeps_channel:
  assumes "channel_inv pq t"
  shows "channel_inv pq (t\<lparr>msgs := snd (resetTimedOutMessages pq env (msgs t))\<rparr>) \<and>
         contents (t\<lparr>msgs := snd (resetTimedOutMessages pq env (msgs t))\<rparr>) = contents t \<and>
         (\<forall>r \<in> set (msgs t). exhausted_now pq env r \<longrightarrow> r \<in> set (snd (resetTimedOutMessages pq env (msgs t))))"
proof -
  have good: "good_with pq (contents t) t" using assms by (simp add: good_with_def)
  have "r \<in> set (snd (resetTimedOutMessages pq env (msgs t)))" if "r \<in> set (msgs t)" "exhausted_now pq env r" for r
  proof -
    have "\<not> resettable pq env r" using that(2) by (auto simp: exhausted_now_def resettable_def)
    then show ?thesis
      using that(1) reset_selects [OF good that(1)]
      by (force simp: resetTimedOutMessages_def update_page_def Let_def set_sql_update)
  qed
  with reset_good [OF good, of env] show ?thesis by (simp add: good_with_def)
qed

theorem reset_keeps_channel_witness:
  "channel_inv pq0 (claimed_tables\<lparr>msgs := snd (resetTimedOutMessages pq0 env0 (msgs claimed_tables))\<rparr>)"
proof -
  have "channel_inv pq0 claimed_tables" by code_simp
  from reset_keeps_channel [OF this, of env0] show ?thesis by blast
qed

section \<open>Termination\<close>

text \<open>
  The paged purges of a channel return whatever the driver and the context do: each full page
  takes its rows off the work left.
\<close>

theorem purges_return:
  "(\<exists>y. runPagedPurge env cancelled (purgeCompletedChannel env ttl) sofar (n, rows) = Some y) \<and>
   (\<exists>y. runPagedPurge env cancelled (purgeOldPendingChannel env ttl) sofar (n, rows) = Some y) \<and>
   (\<exists>y. runPagedPurge env cancelled (purgeDLQMessages env ttl) sofar (n, dead) = Some y)"
  unfolding purgeCompletedChannel_def purgeOldPendingChannel_def purgeDLQMessages_def
  by (intro conjI delete_paging.returns)

end
