(* ===== verification/ChannelMachine.thy ===== *)
theory ChannelMachine
  imports BatchProps GcProps ReplayProps
begin



section \<open>Each step\<close>






section \<open>Every run\<close>






end
