(* ===== verification/PubsubProps.thy ===== *)
theory PubsubProps
  imports PubsubSpec
begin

text \<open>
  The properties of the topic operations, each stated of the public operation on a process state,
  with a witness on a topic of one message and two subscribers.
\<close>

definition tmsg0 :: topic_row where
  "tmsg0 = \<lparr>t_id = 7, t_payload = [1, 2], t_created_at = 900000, t_metadata = None\<rparr>"

definition sub0 :: sub_row where
  "sub0 =
     \<lparr>s_id = 11, s_message_id = 7, s_subscriber_id = ''a'', s_status = MessageStatusPending,
      s_created_at = 900000, s_acked_at = None, s_visibility_timeout = None, s_available_at = 900000,
      s_claim_id = None, s_retry_count = 0, s_error_message = None\<rparr>"

definition sub1 :: sub_row where
  "sub1 = sub0\<lparr>s_id := 12, s_subscriber_id := ''b'', s_status := MessageStatusProcessing,
     s_claim_id := Some 42, s_visibility_timeout := Some 950000\<rparr>"

definition topic_tables0 :: topic_tables where
  "topic_tables0 = \<lparr>tmsgs = [tmsg0], subs = [sub0, sub1], tdlq = []\<rparr>"

definition sys_topic :: "topic_tables \<Rightarrow> sys" where
  "sys_topic t =
     \<lparr>store = \<lparr>pgqueue_metadata = [meta0\<lparr>metaQueueType := QueueTypePubSub, metaQueueName := ''news'', metaTableName := ''news''\<rparr>],
               pgqueue_subscribers = [], pgqueue_replay_log = [], channels = Map.empty, topics = [''news'' \<mapsto> t]\<rparr>,
      mdcache = []\<rparr>"

section \<open>The frame of each operation\<close>

lemma hoare_framed_retry:
  "hoare (framed sid t0) (retrySubscription env i sid e d) (\<lambda>_. framed sid t0)"
  unfolding retrySubscription_def
proof (rule hoare_stmt)
  fix n t b t'
  let ?f = "retry_sub e (NOW env + make_interval env d)"
  assume t: "framed sid t0 t" and t': "((), t\<lparr>subs := sql_update (\<lambda>s. sub_key s = (i, sid)) ?f (subs t)\<rparr>) = (b, t')"
  have "others sid t' = others sid t"
    using t' others_update [of ?f t "\<lambda>s. sub_key s = (i, sid)" sid] by (auto simp: sub_key_def)
  moreover have "map s_id (subs t') = map s_id (subs t)"
    using t' by (auto intro!: map_sql_update simp: retry_sub_def)
  ultimately show "framed sid t0 t'" using t by (simp add: framed_def)
qed

lemma hoare_framed_nack:
  "hoare (framed sid t0) (nackTopicBody pq env sid r e delay mr) (\<lambda>_. framed sid t0)"
proof -
  have get: "hoare (framed sid t0) (getProcessingSubState env r sid) (\<lambda>_. framed sid t0)"
    unfolding getProcessingSubState_def
    by (rule hoare_bind [where Q = "\<lambda>_. framed sid t0"])
      (auto intro!: hoare_stmt hoare_classify_topic hoare_return split: option.split)
  show ?thesis
    unfolding nackTopicBody_def Let_def
    by (rule hoare_bind [OF get])
      (auto intro!: hoare_framed_moveSub hoare_framed_retry hoare_bind [OF hoare_rand_keep])
qed

lemma hoare_framed_claim:
  "hoare (\<lambda>t. framed sid t0 t \<and> fst row \<in> set (subs t) \<and> s_subscriber_id (fst row) = sid)
     (claimTopicSubscription env vt row n mr) (\<lambda>_. framed sid t0)"
proof -
  have "hoare (\<lambda>t. framed sid t0 t \<and> fst row \<in> set (subs t) \<and> s_subscriber_id (fst row) = sid)
     (stmtE env (\<lambda>n' t.
          let deadline = NOW env + make_interval env vt; c = uuidv7 env n' 0 in
          if \<exists>s \<in> set (subs t). s_id s = s_id (fst row) then
            Inr ((deadline, c),
                 t\<lparr>subs := sql_update (\<lambda>s. s_id s = s_id (fst row)) (claim_sub n c deadline) (subs t)\<rparr>)
          else Inl sql_ErrNoRows)) (\<lambda>_. framed sid t0)"
  proof (rule hoare_stmtE, clarsimp simp: Let_def split: if_splits)
    fix n' t
    let ?f = "claim_sub n (uuidv7 env n' 0) (NOW env + make_interval env vt)"
    assume t: "framed (s_subscriber_id (fst row)) t0 t" "fst row \<in> set (subs t)"
    have same: "s_subscriber_id x = s_subscriber_id (fst row)" if "x \<in> set (subs t)" "s_id x = s_id (fst row)" for x
      using t that distinct_map_unique [of s_id "subs t" x "fst row"] by (auto simp: framed_def)
    let ?t = "t\<lparr>subs := sql_update (\<lambda>s. s_id s = s_id (fst row)) ?f (subs t)\<rparr>"
    have "others (s_subscriber_id (fst row)) ?t = others (s_subscriber_id (fst row)) t"
      by (rule others_update) (use same in auto)
    moreover have "map s_id (subs ?t) = map s_id (subs t)"
      by (simp, rule map_sql_update) (simp add: claim_sub_def)
    ultimately show "framed (s_subscriber_id (fst row)) t0 ?t"
      using t(1) unfolding framed_def by simp
  qed
  then show ?thesis unfolding claimTopicSubscription_def
    by (rule hoare_bind) (auto intro!: hoare_return)
qed

lemma hoare_framed_reclaim:
  "hoare (\<lambda>t. framed sid t0 t \<and> fst row \<in> set (subs t) \<and> s_subscriber_id (fst row) = sid)
     (reclaimTopicAttempt pq env sid row mr)
     (\<lambda>(n, dlqd) t. if dlqd then framed sid t0 t
        else framed sid t0 t \<and> fst row \<in> set (subs t) \<and> s_subscriber_id (fst row) = sid)"
proof -
  let ?P = "\<lambda>t. framed sid t0 t \<and> fst row \<in> set (subs t) \<and> s_subscriber_id (fst row) = sid"
  have move: "hoare ?P (moveSubToDLQ env i sid e st) (\<lambda>_. framed sid t0)" for i e st
    by (rule hoare_pre [OF hoare_framed_moveSub]) simp
  have defr: "hoare ?P (deferReclaimedSubscription env (s_id (fst row)) k d) (\<lambda>_. framed sid t0)" for k d
    unfolding deferReclaimedSubscription_def by (rule hoare_framed_update_id) simp
  show ?thesis
    unfolding reclaimTopicAttempt_def Let_def
    by (auto split: MessageStatus.split
        intro!: hoare_fail hoare_bind [OF hoare_rand_keep] hoare_bind [OF defr] hoare_bind [OF move] hoare_return)
qed

lemma hoare_framed_fetch:
  "hoare (framed sid t0) (fetchPendingTopicMessage pq env sid vt ttl mr 0) (\<lambda>_. framed sid t0)"
proof (rule topic_scan.scan_hoare [where I = "\<lambda>_. framed sid t0"
      and CP = "\<lambda>row t. fst row \<in> set (subs t) \<and> s_subscriber_id (fst row) = sid"
      and CR = "\<lambda>row t. fst row \<in> set (subs t) \<and> s_subscriber_id (fst row) = sid"
      and CL = "\<lambda>row n t. fst row \<in> set (subs t) \<and> s_subscriber_id (fst row) = sid",
      OF _ _ hoare_framed_claim hoare_framed_reclaim hoare_framed_claim])
  have mem: "fst c \<in> set (subs t) \<and> P c" if "sql_first key P (joined t) = Some c"
    for c t P and key :: "_ \<Rightarrow> timestamp \<times> uuid"
    using sql_first_Some(1,2) [OF that] by (auto simp: set_joined)
  show "hoare (framed sid t0) (probePendingSub env sid ttl)
     (\<lambda>row t. framed sid t0 t \<and> (\<forall>c. row = Some c \<longrightarrow> fst c \<in> set (subs t) \<and> s_subscriber_id (fst c) = sid))"
    unfolding probePendingSub_def
    by (rule hoare_stmt) (auto simp: pendingSub_def dest!: mem split: prod.splits)
  show "hoare (framed sid t0) (probeReclaimSub env sid ttl)
     (\<lambda>row t. framed sid t0 t \<and> (\<forall>c. row = Some c \<longrightarrow> fst c \<in> set (subs t) \<and> s_subscriber_id (fst c) = sid))"
    unfolding probeReclaimSub_def
    by (rule hoare_stmt) (auto simp: reclaimSub_def dest!: mem split: prod.splits)
qed (auto simp: maxConsumeReclaimDefers_def)

lemma topic_inv_framed: "topic_inv mr t \<Longrightarrow> framed sid t t"
  by (simp add: framed_def topic_inv_def)

section \<open>Properties\<close>

text \<open>
  \<^verbatim>\<open>Ack\<close> on a topic is fenced by subscriber and claim token: when the presented claim is live
  exactly that subscription becomes acked; otherwise nothing changes and the error is the
  classification of the subscription the receipt points at.
\<close>

theorem ackTopic_fenced:
  assumes "no_faults env" and "validateSubscriberID sid = Inr ()" and "topic_of s name = Some t"
  shows "case ackTopic env name sid r (n, s) of (res, _, s') \<Rightarrow>
           res = (if claimed_sub sid r t then Inr () else Inl (miss_reason_sub sid r t)) \<and>
           topic_of s' name =
             Some (if claimed_sub sid r t
                   then t\<lparr>subs := sql_update (live_sub (MessageID r, sid) (ClaimID r)) (ack_sub (NOW env)) (subs t)\<rparr>
                   else t)"
proof -
  obtain meta where meta: "find (is_queue QueueTypePubSub name) (pgqueue_metadata (store s)) = Some meta"
      "topics (store s) (metaTableName meta) = Some t"
    using assms(3) by (rule topic_ofE) (simp add: topic_meta_def)
  with assms show ?thesis
    by (simp add: ackTopic_def bindT_app notFoundAs_def mapErrT_app getQueueMetadata_ok onDb_app
        withTx_onTopic fencedSub_run topic_of_def put_topic_def)
qed

theorem ackTopic_fenced_witness:
  "case ackTopic env0 ''news'' ''b'' (receipt0\<lparr>ReceiptQueueName := ''news''\<rparr>) (0, sys_topic topic_tables0) of
     (res, _, s') \<Rightarrow> res = Inr () \<and>
       topic_of s' ''news'' =
         Some (topic_tables0\<lparr>subs := [sub0, sub1\<lparr>s_status := MessageStatusAcked, s_acked_at := Some 1000000\<rparr>]\<rparr>)"
proof -
  let ?r = "receipt0\<lparr>ReceiptQueueName := ''news''\<rparr>"
  have pre: "validateSubscriberID ''b'' = Inr ()" "topic_of (sys_topic topic_tables0) ''news'' = Some topic_tables0"
    "claimed_sub ''b'' ?r topic_tables0"
    "sql_update (live_sub (MessageID ?r, ''b'') (ClaimID ?r)) (ack_sub 1000000) (subs topic_tables0) =
       [sub0, sub1\<lparr>s_status := MessageStatusAcked, s_acked_at := Some 1000000\<rparr>]"
    by code_simp+
  show ?thesis using ackTopic_fenced [OF no_faults_env0 pre(1,2), of ?r 0] pre(3,4)
    by (auto split: prod.splits)
qed

text \<open>
  C7.  Consuming from a topic, whatever the driver does, keeps the topic's invariant, leaves its
  messages alone and neither drops nor adds a delivery: every message is still owed to exactly
  the same subscribers, by a subscription or by a dead letter with the message's payload; a
  delivered message is held under the claim in its receipt, within the topic's retry limit.
\<close>

theorem consumeTopic_conserves:
  assumes "topic_of s name = Some t" and "topic_meta s name = Some meta"
    and "topic_inv (resolveMaxRetries pq meta) t"
    and "consumeFromTopic pq env name sid vt (n, s) = (r, n', s')"
  shows "\<exists>t'. topic_of s' name = Some t' \<and> topic_inv (resolveMaxRetries pq meta) t' \<and>
           tmsgs t' = tmsgs t \<and> owed t' = owed t \<and>
           (\<forall>m. r = Inr (Some m) \<longrightarrow>
              0 \<le> msgRetryCount m \<and> msgRetryCount m \<le> resolveMaxRetries pq meta \<and>
              (\<exists>x \<in> set (subs t'). live_sub (msgID m, sid) (msgClaimID m) x))"
  using assms(4)
proof (cases rule: consumeTopic_cases)
  case unchanged
  then show ?thesis using assms topic_of_store [of s' s name] by (intro exI [of _ t]) simp
next
  case (ran meta' u m t' k k')
  then have u: "u = t" "meta' = meta" using assms(1,2) by simp_all
  let ?mr = "resolveMaxRetries pq meta"
  have "topic_with ?mr (tmsgs t) (owed t) t" using assms(3) by (simp add: topic_with_def)
  with ran(3) u have "topic_with ?mr (tmsgs t) (owed t) t' \<and> delivered_sub ?mr sid m t'"
    using hoareD [OF hoare_fetchTopic [of 0]] by (auto simp: maxConsumeReclaimDefers_def)
  then show ?thesis using ran
    by (intro exI [of _ t']) (auto simp: topic_with_def delivered_sub_def split: option.splits)
qed

theorem consumeTopic_conserves_witness:
  "\<exists>r n' s' t'. consumeFromTopic pq0 env0 ''news'' ''b'' 30000000000 (0, sys_topic topic_tables0) = (r, n', s') \<and>
     topic_of s' ''news'' = Some t' \<and> owed t' = {((7, ''a''), [1, 2], None), ((7, ''b''), [1, 2], None)}"
proof -
  let ?meta = "meta0\<lparr>metaQueueType := QueueTypePubSub, metaQueueName := ''news'', metaTableName := ''news''\<rparr>"
  have j: "joined topic_tables0 = [(sub0, tmsg0), (sub1, tmsg0)]" "tdlq topic_tables0 = []"
    by code_simp+
  have o: "owed topic_tables0 = {((7, ''a''), [1, 2], None), ((7, ''b''), [1, 2], None)}"
    unfolding owed_def dead_owed_def j by (simp add: sub_key_def sub0_def sub1_def tmsg0_def)
  have pre: "topic_of (sys_topic topic_tables0) ''news'' = Some topic_tables0"
    "topic_meta (sys_topic topic_tables0) ''news'' = Some ?meta"
    "topic_inv (resolveMaxRetries pq0 ?meta) topic_tables0"
    by code_simp+
  obtain r n' s' where run: "consumeFromTopic pq0 env0 ''news'' ''b'' 30000000000 (0, sys_topic topic_tables0) = (r, n', s')"
    by (metis prod_cases3)
  from consumeTopic_conserves [OF pre run] run o show ?thesis by auto
qed

text \<open>
  C8.  Subscribers of a topic are independent: a consume call for one subscriber, whatever the
  driver does, leaves the messages and every other subscriber's subscriptions and dead letters
  exactly as they were.
\<close>

theorem consumeTopic_isolated:
  assumes "topic_of s name = Some t" and "topic_inv mr t"
    and "consumeFromTopic pq env name sid vt (n, s) = (r, n', s')"
  shows "\<exists>t'. topic_of s' name = Some t' \<and> others sid t' = others sid t"
  using assms(3)
proof (cases rule: consumeTopic_cases)
  case unchanged
  then show ?thesis using assms topic_of_store [of s' s name] by (intro exI [of _ t]) simp
next
  case (ran meta' u m t' k k')
  then have "framed sid t t'"
    using assms(1) hoareD [OF hoare_framed_fetch topic_inv_framed [OF assms(2)]] by simp
  with ran show ?thesis by (auto simp: framed_def)
qed

theorem consumeTopic_isolated_witness:
  "\<exists>r n' s' t'. consumeFromTopic pq0 env0 ''news'' ''b'' 30000000000 (0, sys_topic topic_tables0) = (r, n', s') \<and>
     topic_of s' ''news'' = Some t' \<and> others ''b'' t' = ([tmsg0], [sub0], [])"
proof -
  have pre: "topic_of (sys_topic topic_tables0) ''news'' = Some topic_tables0" "topic_inv 3 topic_tables0"
    "others ''b'' topic_tables0 = ([tmsg0], [sub0], [])"
    by code_simp+
  obtain r n' s' where run: "consumeFromTopic pq0 env0 ''news'' ''b'' 30000000000 (0, sys_topic topic_tables0) = (r, n', s')"
    by (metis prod_cases3)
  from consumeTopic_isolated [OF pre(1,2) run] run pre(3) show ?thesis by auto
qed

text \<open>
  \<^verbatim>\<open>Nack\<close> on a topic, whatever the driver does, keeps the invariant and every delivery owed, and
  touches nothing of another subscriber: the subscription is rescheduled within the retry limit
  or becomes a dead letter of its subscriber.
\<close>

theorem nackTopic_safe:
  assumes "topic_of s name = Some t" and "topic_meta s name = Some meta"
    and "topic_inv (resolveMaxRetries pq meta) t"
    and "nackTopicImpl pq env name sid rc e delay (n, s) = (r, n', s')"
  shows "\<exists>t'. topic_of s' name = Some t' \<and> topic_inv (resolveMaxRetries pq meta) t' \<and>
           owed t' = owed t \<and> others sid t' = others sid t"
  using assms(4) unfolding nackTopicImpl_def
proof (cases rule: topic_update_cases)
  case unchanged
  then show ?thesis using assms topic_of_store [of s' s name] by (intro exI [of _ t]) simp
next
  case (ran meta' u a t' k k')
  then have u: "u = t" "meta' = meta" using assms(1,2) by simp_all
  let ?mr = "resolveMaxRetries pq meta"
  have "topic_with ?mr (tmsgs t) (owed t) t" using assms(3) by (simp add: topic_with_def)
  with ran(3) u have "topic_with ?mr (tmsgs t) (owed t) t'"
    using hoareD [OF hoare_nackTopicBody [OF storable_truncate]] by blast
  moreover have "framed sid t t'"
    using ran(3) u hoareD [OF hoare_framed_nack topic_inv_framed [OF assms(3)]] by blast
  ultimately show ?thesis using ran by (auto simp: topic_with_def framed_def)
qed

theorem nackTopic_safe_witness:
  "\<exists>r n' s' t'. nackTopicImpl pq0 env0 ''news'' ''b'' receipt0 ''boom'' 0 (0, sys_topic topic_tables0) = (r, n', s') \<and>
     topic_of s' ''news'' = Some t' \<and> topic_inv 3 t' \<and> others ''b'' t' = ([tmsg0], [sub0], [])"
proof -
  let ?meta = "meta0\<lparr>metaQueueType := QueueTypePubSub, metaQueueName := ''news'', metaTableName := ''news''\<rparr>"
  have pre: "topic_of (sys_topic topic_tables0) ''news'' = Some topic_tables0"
    "topic_meta (sys_topic topic_tables0) ''news'' = Some ?meta"
    "topic_inv (resolveMaxRetries pq0 ?meta) topic_tables0"
    "others ''b'' topic_tables0 = ([tmsg0], [sub0], [])" "resolveMaxRetries pq0 ?meta = 3"
    by code_simp+
  obtain r n' s' where run: "nackTopicImpl pq0 env0 ''news'' ''b'' receipt0 ''boom'' 0 (0, sys_topic topic_tables0) = (r, n', s')"
    by (metis prod_cases3)
  from nackTopic_safe [OF pre(1-3) run] run pre(4,5) show ?thesis by auto
qed

end
