(* ===== verification/Fanout.thy ===== *)
theory Fanout
  imports PublishProps PubsubProps
begin

text \<open>
  The fan-out of a topic publication: the streaming insert equals the plain chunked one, and a
  published batch leaves exactly one pending subscription per message and active subscriber.
\<close>

section \<open>Streaming\<close>

lemma insertSubscriptionRecords_Nil [simp]: "insertSubscriptionRecords env [] = returnT ()"
  by (simp add: insertSubscriptionRecords.simps)

lemma insertSubscriptionRecords_chunk:
  assumes "length buf = subFanoutChunkRows"
  shows "insertSubscriptionRecords env (buf @ recs) =
           bindT (insertSubscriptionRecords env buf) (\<lambda>_. insertSubscriptionRecords env recs)"
proof -
  have ne: "buf \<noteq> []" using assms by (auto simp: subFanoutChunkRows_def)
  have one: "insertSubscriptionRecords env buf = bindT (insertSubChunk env buf) (\<lambda>_. returnT ())"
    using ne assms by (subst insertSubscriptionRecords.simps) simp
  show ?thesis
    using ne assms unfolding one bindT_assoc by (subst insertSubscriptionRecords.simps) simp
qed

lemma fanOut_stream:
  "length buf < subFanoutChunkRows \<Longrightarrow> fanOut env buf recs = insertSubscriptionRecords env (buf @ recs)"
proof (induction recs arbitrary: buf)
  case Nil
  then show ?case by simp
next
  case (Cons r recs)
  show ?case
  proof (cases "length (buf @ [r]) = subFanoutChunkRows")
    case True
    have "fanOut env [] recs = insertSubscriptionRecords env recs"
      using Cons.IH [of "[]"] by (simp add: subFanoutChunkRows_def)
    with True insertSubscriptionRecords_chunk [OF True, of env recs] show ?thesis by (simp add: Let_def)
  next
    case False
    then have "fanOut env (buf @ [r]) recs = insertSubscriptionRecords env ((buf @ [r]) @ recs)"
      using Cons by simp
    with False show ?thesis by (simp add: Let_def)
  qed
qed

lemma batchCreate_records:
  "batchCreateSubscriptionRecords env ids subscribers =
   insertSubscriptionRecords env (List.product ids (map subSubscriberID subscribers))"
proof -
  have "[(m, subSubscriberID s). m \<leftarrow> ids, s \<leftarrow> subscribers] = List.product ids (map subSubscriberID subscribers)"
    by (simp add: product_concat_map comp_def)
  then show ?thesis
    by (simp add: batchCreateSubscriptionRecords_def fanOut_stream subFanoutChunkRows_def)
qed

text \<open>
  Streaming the message by subscriber product through a bounded buffer
  (\<^verbatim>\<open>batchCreateSubscriptionRecords\<close>) is the same database call as building the whole product and
  inserting it in chunks.
\<close>

theorem batchCreate_streaming:
  "batchCreateSubscriptionRecords env ids subscribers =
   insertSubscriptionRecords env (List.product ids (map subSubscriberID subscribers))"
  by (rule batchCreate_records)

section \<open>The inserted subscriptions\<close>

definition new_pending :: "env \<Rightarrow> sub_row \<Rightarrow> bool" where
  "new_pending env s \<longleftrightarrow>
     s_status s = MessageStatusPending \<and> s_claim_id s = None \<and> s_visibility_timeout s = None \<and>
     s_available_at s = NOW env \<and> s_retry_count s = 0"

text \<open>The server draws unused UUIDs for the subscription rows of round trips \<open>n\<close> to \<open>m\<close>.\<close>

definition sub_fresh :: "env \<Rightarrow> nat \<Rightarrow> nat \<Rightarrow> topic_tables \<Rightarrow> bool" where
  "sub_fresh env n m t \<longleftrightarrow>
     distinct (map s_id (subs t)) \<and>
     (\<forall>k \<in> {n..<m}. \<forall>i < subFanoutChunkRows. uuidv7 env k i \<notin> s_id ` set (subs t)) \<and>
     inj_on (\<lambda>(k, i). uuidv7 env k i) ({n..<m} \<times> {..<subFanoutChunkRows})"

definition chunk_rows :: "env \<Rightarrow> nat \<Rightarrow> subRecord list \<Rightarrow> sub_row list" where
  "chunk_rows env n recs = map (new_sub_row env n) (enumerate 0 recs)"

lemma chunk_keys: "map sub_key (chunk_rows env n recs) = recs"
  by (rule nth_equalityI)
    (auto simp: chunk_rows_def nth_enumerate_eq new_sub_row_def sub_key_def split: prod.splits)

lemma chunk_pending: "list_all (new_pending env) (chunk_rows env n recs)"
  by (auto simp: chunk_rows_def list_all_iff new_pending_def new_sub_row_def split: prod.splits)

lemma chunk_ids: "map s_id (chunk_rows env n recs) = map (uuidv7 env n) [0..<length recs]"
  by (rule nth_equalityI) (auto simp: chunk_rows_def nth_enumerate_eq new_sub_row_def split: prod.splits)

lemma chunk_distinct:
  assumes "sub_fresh env n m t" and "n < m" and "length recs \<le> subFanoutChunkRows"
  shows "distinct (map s_id (subs t @ chunk_rows env n recs))"
proof -
  have "inj_on (uuidv7 env n) {0..<length recs}"
  proof (rule inj_onI)
    fix i j assume "i \<in> {0..<length recs}" "j \<in> {0..<length recs}" "uuidv7 env n i = uuidv7 env n j"
    moreover have "inj_on (\<lambda>(k, i). uuidv7 env k i) ({n..<m} \<times> {..<subFanoutChunkRows})"
      using assms(1) by (simp add: sub_fresh_def)
    ultimately have "(n, i) = (n, j)" using assms(2,3) by (auto dest!: inj_onD [where x = "(n, i)" and y = "(n, j)"])
    then show "i = j" by simp
  qed
  then have "distinct (map s_id (chunk_rows env n recs))" unfolding chunk_ids by (simp add: distinct_map)
  moreover have "s_id ` set (subs t) \<inter> s_id ` set (chunk_rows env n recs) = {}"
  proof -
    have "s_id ` set (chunk_rows env n recs) = uuidv7 env n ` {0..<length recs}"
      using arg_cong [OF chunk_ids, of set env n recs] by simp
    moreover have "uuidv7 env n i \<notin> s_id ` set (subs t)" if "i < length recs" for i
      using assms that unfolding sub_fresh_def by auto
    ultimately show ?thesis by (metis (no_types, lifting) atLeastLessThan_iff disjoint_iff imageE)
  qed
  ultimately show ?thesis using assms(1) by (simp add: sub_fresh_def)
qed

lemma chunk_fresh:
  assumes "sub_fresh env n m t" and "n < m" and "length recs \<le> subFanoutChunkRows"
  shows "sub_fresh env (Suc n) m (t\<lparr>subs := subs t @ chunk_rows env n recs\<rparr>)"
proof -
  have inj: "inj_on (\<lambda>(k, i). uuidv7 env k i) ({n..<m} \<times> {..<subFanoutChunkRows})"
    using assms(1) by (simp add: sub_fresh_def)
  have ids: "s_id ` set (chunk_rows env n recs) = uuidv7 env n ` {0..<length recs}"
    using arg_cong [OF chunk_ids, of set env n recs] by simp
  have fr: "uuidv7 env k i \<notin> s_id ` set (subs t)" if "k \<in> {Suc n..<m}" "i < subFanoutChunkRows" for k i
  proof -
    have "k \<in> {n..<m}" using that by simp
    then show ?thesis using assms(1) that(2) unfolding sub_fresh_def by blast
  qed
  have new: "uuidv7 env k i \<noteq> uuidv7 env n j"
    if "k \<in> {Suc n..<m}" "i < subFanoutChunkRows" "j < length recs" for k i j
    using inj_onD [OF inj, of "(k, i)" "(n, j)"] that assms(2,3) by auto
  have "uuidv7 env k i \<notin> s_id ` set (subs t @ chunk_rows env n recs)"
    if "k \<in> {Suc n..<m}" "i < subFanoutChunkRows" for k i
    unfolding set_append image_Un ids using fr [OF that] new [OF that] by (metis (no_types, lifting) Un_iff atLeastLessThan_iff imageE)
  moreover have "inj_on (\<lambda>(k, i). uuidv7 env k i) ({Suc n..<m} \<times> {..<subFanoutChunkRows})"
    using inj by (rule inj_on_subset) auto
  ultimately show ?thesis using chunk_distinct [OF assms] by (simp add: sub_fresh_def)
qed

lemma insertSubChunk_run:
  assumes "no_faults env" and "sub_fresh env n m t" and "n < m" and "length recs \<le> subFanoutChunkRows"
    and "fst ` set recs \<subseteq> t_id ` set (tmsgs t)" and "distinct recs" and "set recs \<inter> sub_key ` set (subs t) = {}"
  shows "insertSubChunk env recs (n, t) = (Inr (), Suc n, t\<lparr>subs := subs t @ chunk_rows env n recs\<rparr>)"
proof -
  have fk: "list_all (\<lambda>(m, _). m \<in> t_id ` set (tmsgs t)) recs"
    using assms(5) by (force simp: list_all_iff)
  have "insert_all sub_key (chunk_rows env n recs) (subs t) = subs t @ chunk_rows env n recs"
  proof (rule insert_all_append)
    show "distinct (map sub_key (chunk_rows env n recs))" unfolding chunk_keys by (rule assms)
    have "sub_key ` set (chunk_rows env n recs) = set recs"
      using arg_cong [OF chunk_keys, of set env n recs] by simp
    then show "sub_key ` set (chunk_rows env n recs) \<inter> sub_key ` set (subs t) = {}" using assms(7) by simp
  qed
  then show ?thesis
    using fk chunk_distinct [OF assms(2-4)] assms(1)
    by (simp add: insertSubChunk_def stmtE_ok Let_def chunk_rows_def)
qed

lemma insertSubs_run:
  "\<lbrakk>no_faults env; sub_fresh env n m t; n + length recs \<le> m; fst ` set recs \<subseteq> t_id ` set (tmsgs t);
    distinct recs; set recs \<inter> sub_key ` set (subs t) = {}\<rbrakk> \<Longrightarrow>
   \<exists>n' rows. insertSubscriptionRecords env recs (n, t) = (Inr (), n', t\<lparr>subs := subs t @ rows\<rparr>) \<and>
     map sub_key rows = recs \<and> list_all (new_pending env) rows"
proof (induction env recs arbitrary: n t rule: insertSubscriptionRecords.induct)
  case (1 env recs)
  note prems = "1.prems"
  show ?case
  proof (cases "recs = []")
    case True
    then show ?thesis by (intro exI [of _ n] exI [of _ "[]"]) simp
  next
    case False
    define c d where "c = take subFanoutChunkRows recs" and "d = drop subFanoutChunkRows recs"
    have recs: "recs = c @ d" by (simp add: c_def d_def)
    have c: "length c \<le> subFanoutChunkRows" "c \<noteq> []" using False by (simp_all add: c_def subFanoutChunkRows_def)
    let ?t = "t\<lparr>subs := subs t @ chunk_rows env n c\<rparr>"
    have nm: "n < m" "Suc n + length d \<le> m" using prems(3) c(2) unfolding recs by (cases c; simp)+
    have run: "insertSubChunk env c (n, t) = (Inr (), Suc n, ?t)"
      using prems unfolding recs by (intro insertSubChunk_run [OF prems(1,2) nm(1) c(1)]) auto
    have keys: "sub_key ` set (chunk_rows env n c) = set c"
      using arg_cong [OF chunk_keys, of set env n c] by simp
    have disj: "set d \<inter> (sub_key ` set (subs t) \<union> set c) = {}"
      using prems(5,6) unfolding recs by auto
    obtain n' rows where rest: "insertSubscriptionRecords env d (Suc n, ?t) = (Inr (), n', ?t\<lparr>subs := subs ?t @ rows\<rparr>)"
        "map sub_key rows = d" "list_all (new_pending env) rows"
      using "1.IH" [OF False, of "Suc n" ?t] prems nm chunk_fresh [OF prems(2) nm(1) c(1)] keys disj
      unfolding d_def [symmetric] unfolding recs by (auto simp: image_Un)
    have "insertSubscriptionRecords env recs (n, t) = (Inr (), n', t\<lparr>subs := subs t @ (chunk_rows env n c @ rows)\<rparr>)"
      using False run rest(1)
      by (subst insertSubscriptionRecords.simps) (simp add: bindT_app c_def [symmetric] d_def [symmetric])
    then show ?thesis
      using rest(2,3) chunk_keys [of env n c] chunk_pending [of env n c] recs
      by (intro exI [of _ n'] exI [of _ "chunk_rows env n c @ rows"]) simp
  qed
qed

section \<open>Publishing to a topic\<close>

definition active_ids :: "string \<Rightarrow> db \<Rightarrow> string list" where
  "active_ids topicName d =
     map subSubscriberID (sort_key subCreatedAt (filter (active_on topicName) (pgqueue_subscribers d)))"

lemma insertPubSub_run:
  assumes "no_faults env" and "fresh_ids news (t_id ` set (tmsgs t))"
  shows "insertPubSubMessages env news (n, t) =
           (Inr (), Suc n, t\<lparr>tmsgs := tmsgs t @ map (new_topic_row env) news\<rparr>)"
proof -
  have "insert_all t_id (map (new_topic_row env) news) (tmsgs t) = tmsgs t @ map (new_topic_row env) news"
    by (rule insert_all_append) (use assms(2) in \<open>simp_all add: fresh_ids_def image_image comp_def\<close>)
  with assms(1) show ?thesis by (simp add: insertPubSubMessages_def bindT_app stmt_ok Let_def)
qed

lemma active_run:
  assumes "no_faults env"
    and "maxSubscribersPerTopic (cfg pq) \<le> 0 \<or> int (length (active_ids topicName d)) \<le> maxSubscribersPerTopic (cfg pq)"
  shows "\<exists>ss. getActiveSubscribers pq env topicName (n, d) = (Inr ss, Suc n, d) \<and>
           map subSubscriberID ss = active_ids topicName d"
  using assms by (auto simp: active_ids_def sql_count_def getActiveSubscribers_all)

text \<open>
  C10.  Publishing a batch to a topic whose database answers appends its messages and, for each
  message and each active subscriber, exactly one pending, unclaimed subscription that is
  available at once; no other row changes.  With no active subscriber the messages are still
  stored.
\<close>

theorem publishTopic_fanout:
  assumes "no_faults env" and "topics d tbl = Some t" and "topic_inv mr t"
    and "fresh_ids news (t_id ` set (tmsgs t))"
    and "distinct (active_ids topicName d)"
    and "maxSubscribersPerTopic (cfg pq) \<le> 0 \<or> int (length (active_ids topicName d)) \<le> maxSubscribersPerTopic (cfg pq)"
    and "sub_fresh env n (n + 3 + length news * length (active_ids topicName d)) t"
  shows "\<exists>n' rows. publishBatchToPubSub pq env topicName tbl news (n, d) =
           (Inr (), n', put_topic tbl (t\<lparr>tmsgs := tmsgs t @ map (new_topic_row env) news,
                                        subs := subs t @ rows\<rparr>) d) \<and>
           map sub_key rows = List.product (map fst news) (active_ids topicName d) \<and>
           list_all (new_pending env) rows"
proof -
  let ?t1 = "t\<lparr>tmsgs := tmsgs t @ map (new_topic_row env) news\<rparr>"
  let ?d1 = "put_topic tbl ?t1 d"
  let ?recs = "List.product (map fst news) (active_ids topicName d)"
  have a1: "active_ids topicName ?d1 = active_ids topicName d" by (simp add: active_ids_def put_topic_def)
  obtain ss where ss: "getActiveSubscribers pq env topicName (Suc (Suc n), ?d1) = (Inr ss, Suc (Suc (Suc n)), ?d1)"
      "map subSubscriberID ss = active_ids topicName d"
    using active_run [OF assms(1), of pq topicName ?d1] assms(6) a1 by auto
  have fresh: "sub_fresh env (Suc (Suc (Suc n))) (n + 3 + length news * length (active_ids topicName d)) ?t1"
    using assms(7) unfolding sub_fresh_def by (auto intro: inj_on_subset)
  have "t_id ` set (tmsgs ?t1) = t_id ` set (tmsgs t) \<union> fst ` set news" by (simp add: image_Un image_image)
  then have fk: "fst ` set ?recs \<subseteq> t_id ` set (tmsgs ?t1)" by force
  have keys: "set ?recs \<inter> sub_key ` set (subs ?t1) = {}"
  proof -
    have "s_message_id s \<notin> fst ` set news" if "s \<in> set (subs t)" for s
      using assms(3,4) that unfolding topic_inv_def fresh_ids_def by blast
    then show ?thesis by (force simp: sub_key_def)
  qed
  have "\<exists>n' rows. insertSubscriptionRecords env ?recs (Suc (Suc (Suc n)), ?t1) =
          (Inr (), n', ?t1\<lparr>subs := subs ?t1 @ rows\<rparr>) \<and> map sub_key rows = ?recs \<and> list_all (new_pending env) rows"
    by (rule insertSubs_run [OF assms(1) fresh _ fk _ keys])
      (use assms(4,5) in \<open>auto simp: fresh_ids_def length_product distinct_product\<close>)
  then obtain n' rows where ins: "insertSubscriptionRecords env ?recs (Suc (Suc (Suc n)), ?t1) =
      (Inr (), n', ?t1\<lparr>subs := subs ?t1 @ rows\<rparr>)" "map sub_key rows = ?recs" "list_all (new_pending env) rows" by blast
  let ?t2 = "t\<lparr>tmsgs := tmsgs t @ map (new_topic_row env) news, subs := subs t @ rows\<rparr>"
  have step1: "onTopic env tbl (insertPubSubMessages env news) (Suc n, d) = (Inr (), Suc (Suc n), ?d1)"
    by (simp add: onTopic_def assms(2) insertPubSub_run [OF assms(1,4)] put_topic_def)
  have t1: "topics ?d1 tbl = Some ?t1" and put2: "put_topic tbl x ?d1 = put_topic tbl x d" for x
    by (simp_all add: put_topic_def)
  have "\<exists>k. (if ss \<noteq> [] then onTopic env tbl (batchCreateSubscriptionRecords env (map fst news) ss) else returnT ())
      (Suc (Suc (Suc n)), ?d1) = (Inr (), k, put_topic tbl ?t2 d)"
  proof (cases "ss = []")
    case True
    with ss(2) have "active_ids topicName d = []" by simp
    then have "length (map sub_key rows) = 0" unfolding ins(2) length_product by simp
    then have "?t2 = ?t1" by (cases t) simp
    with True show ?thesis by simp
  next
    case False
    have "batchCreateSubscriptionRecords env (map fst news) ss (Suc (Suc (Suc n)), ?t1) = (Inr (), n', ?t2)"
      using ins(1) unfolding batchCreate_records ss(2) by simp
    with False show ?thesis by (simp add: onTopic_def t1) (simp add: put_topic_def)
  qed
  then obtain k where step3: "(if ss \<noteq> [] then onTopic env tbl (batchCreateSubscriptionRecords env (map fst news) ss)
      else returnT ()) (Suc (Suc (Suc n)), ?d1) = (Inr (), k, put_topic tbl ?t2 d)" by blast
  have "publishBatchToPubSub pq env topicName tbl news (n, d) = (Inr (), Suc (Suc k), put_topic tbl ?t2 d)"
    unfolding publishBatchToPubSub_def withTx_ok [OF assms(1)] bindT_app step1 prod.case sum.case ss(1) step3
    by (simp add: emitNotify_def stmt_ok assms(1))
  with ins(2,3) show ?thesis by blast
qed

definition two_subscribers :: "subscriber list" where
  "two_subscribers =
     [\<lparr>subscriberRowID = 1, subTopicName = ''news'', subSubscriberID = ''a'', subCreatedAt = 5, subActive = True\<rparr>,
      \<lparr>subscriberRowID = 2, subTopicName = ''news'', subSubscriberID = ''b'', subCreatedAt = 6, subActive = True\<rparr>]"

theorem publishTopic_fanout_witness:
  "\<exists>n' d' t' rows. publishBatchToPubSub pq0 env0 ''news'' ''news'' [(8, [1], None)]
       (0, (store (sys_topic topic_tables0))\<lparr>pgqueue_subscribers := two_subscribers\<rparr>) = (Inr (), n', d') \<and>
     topics d' ''news'' = Some t' \<and> subs t' = [sub0, sub1] @ rows \<and> map sub_key rows = [(8, ''a''), (8, ''b'')] \<and> list_all (new_pending env0) rows"
proof -
  let ?d = "(store (sys_topic topic_tables0))\<lparr>pgqueue_subscribers := two_subscribers\<rparr>"
  have pre: "topics ?d ''news'' = Some topic_tables0" "topic_inv 3 topic_tables0"
    "fresh_ids [(8, [1], None)] (t_id ` set (tmsgs topic_tables0))" "distinct (active_ids ''news'' ?d)"
    "active_ids ''news'' ?d = [''a'', ''b'']" "maxSubscribersPerTopic (cfg pq0) \<le> 0"
    "distinct (map s_id (subs topic_tables0))" "map s_id (subs topic_tables0) = [11, 12]"
    by code_simp+
  have ids: "s_id ` set (subs topic_tables0) = {11, 12}"
    using arg_cong [OF pre(8), of set] by simp
  have "inj_on (\<lambda>(k, i). uuidv7 env0 k i) ({0..<5} \<times> {..<subFanoutChunkRows})"
    by (auto simp: inj_on_def env0_uuid_inj2 subFanoutChunkRows_def simp del: env0_simps)
  moreover have "uuidv7 env0 k i \<notin> s_id ` set (subs topic_tables0)" if "k \<in> {0..<5}" "i < subFanoutChunkRows" for k i
  proof
    assume "uuidv7 env0 k i \<in> s_id ` set (subs topic_tables0)"
    then have "unat (uuidv7 env0 k i) \<in> unat ` {11 :: uuid, 12}" unfolding ids by (rule imageI)
    then show False using env0_uuid_unat [of k i] that by (simp add: subFanoutChunkRows_def del: env0_simps)
  qed
  ultimately have "sub_fresh env0 0 (0 + 3 + length [(8 :: uuid, [1 :: 8 word], None :: string option)] * length (active_ids ''news'' ?d)) topic_tables0"
    unfolding sub_fresh_def pre(5) using pre(7) by (simp del: env0_simps)
  from publishTopic_fanout [OF no_faults_env0 pre(1-4) disjI1 [OF pre(6)] this]
  obtain n' rows where run: "publishBatchToPubSub pq0 env0 ''news'' ''news'' [(8, [1], None)] (0, ?d) =
        (Inr (), n', put_topic ''news'' (topic_tables0\<lparr>tmsgs := tmsgs topic_tables0 @ map (new_topic_row env0) [(8, [1], None)],
           subs := subs topic_tables0 @ rows\<rparr>) ?d)"
      "map sub_key rows = [(8, ''a''), (8, ''b'')]" "list_all (new_pending env0) rows"
    unfolding pre(5) by auto
  let ?t = "topic_tables0\<lparr>tmsgs := tmsgs topic_tables0 @ map (new_topic_row env0) [(8, [1], None)], subs := subs topic_tables0 @ rows\<rparr>"
  have tt: "topics (put_topic ''news'' ?t ?d) ''news'' = Some ?t" "subs ?t = [sub0, sub1] @ rows"
    by (simp_all add: put_topic_def topic_tables0_def)
  show ?thesis by (intro exI conjI, rule run(1), rule tt(1), rule tt(2), rule run(2), rule run(3))
qed

end
