(* ===== verification/Consume.thy ===== *)
theory Consume
  imports Batch
begin

text \<open>
  \<^verbatim>\<open>consume.go\<close> and the per-call options of \<^verbatim>\<open>options.go\<close>: the public receive, ack, nack and extend
  calls, the batch calls over several queues, and the fetch and handler loops of one worker.  The
  order in which a range loop visits a Go map, the state of the caller's context and the wake-ups
  of a wait are arguments.
\<close>

section \<open>Options\<close>

datatype ConsumeOption =
    WithVisibilityTimeout duration
  | WithConcurrency int
  | WithPollInterval duration

record consumeOpts =
  coVisibilityTimeout :: duration
  coConcurrency :: int
  coPollInterval :: duration

definition defaultVisibilityTimeout :: duration where
  "defaultVisibilityTimeout = 30 * time_Second"

fun apply_consume_option :: "ConsumeOption \<Rightarrow> consumeOpts \<Rightarrow> consumeOpts" where
  "apply_consume_option (WithVisibilityTimeout d) o' = o'\<lparr>coVisibilityTimeout := d\<rparr>"
| "apply_consume_option (WithConcurrency n) o' = o'\<lparr>coConcurrency := n\<rparr>"
| "apply_consume_option (WithPollInterval d) o' = o'\<lparr>coPollInterval := d\<rparr>"

definition applyConsumeOptions :: "ConsumeOption list \<Rightarrow> consumeOpts" where
  "applyConsumeOptions opts =
     fold apply_consume_option opts
       \<lparr>coVisibilityTimeout = defaultVisibilityTimeout, coConcurrency = 0, coPollInterval = 0\<rparr>"

datatype NackOption = WithRetryDelay duration

fun apply_nack_option :: "NackOption \<Rightarrow> duration \<Rightarrow> duration" where
  "apply_nack_option (WithRetryDelay d) _ = d"

definition resolveNackRetryDelay :: "NackOption list \<Rightarrow> duration" where
  "resolveNackRetryDelay opts = fold apply_nack_option opts 0"

definition nackChannelWithOpts ::
    "Queue \<Rightarrow> env \<Rightarrow> string \<Rightarrow> Receipt \<Rightarrow> string \<Rightarrow> NackOption list \<Rightarrow> (sys, unit) txm" where
  "nackChannelWithOpts pq env channelName r errorMsg opts =
     nackChannelImpl pq env channelName r errorMsg (resolveNackRetryDelay opts)"

definition nackTopicWithOpts ::
    "Queue \<Rightarrow> env \<Rightarrow> string \<Rightarrow> string \<Rightarrow> Receipt \<Rightarrow> string \<Rightarrow> NackOption list \<Rightarrow> (sys, unit) txm" where
  "nackTopicWithOpts pq env topicName subscriberID r errorMsg opts =
     nackTopicImpl pq env topicName subscriberID r errorMsg (resolveNackRetryDelay opts)"

definition validateConsumeOptions :: "consumeOpts \<Rightarrow> err + unit" where
  "validateConsumeOptions o' =
     (if coConcurrency o' < 0 then Inl ErrInvalidConfig
      else if coPollInterval o' < 0 then Inl ErrInvalidConfig
      else Inr ())"

section \<open>Single messages\<close>

definition ReceiveChannel :: "Queue \<Rightarrow> env \<Rightarrow> string \<Rightarrow> ConsumeOption list \<Rightarrow> (sys, Message) txm" where
  "ReceiveChannel pq env name opts =
     bindT (checkClosed pq) (\<lambda>_.
     bindT (consumeFromChannel pq env name (coVisibilityTimeout (applyConsumeOptions opts))) (\<lambda>msg.
       case msg of
         None \<Rightarrow> failT ErrQueueEmpty
       | Some m \<Rightarrow>
           returnT (SetReceipt m
             \<lparr>MessageID = msgID m, ClaimID = msgClaimID m, ReceiptQueueName = name,
              ReceiptQueueType = QueueTypeChannel, SubscriberID = ''''\<rparr>)))"

definition ReceiveTopic ::
    "Queue \<Rightarrow> env \<Rightarrow> string \<Rightarrow> string \<Rightarrow> ConsumeOption list \<Rightarrow> (sys, Message) txm" where
  "ReceiveTopic pq env name subscriberID opts =
     bindT (checkClosed pq) (\<lambda>_.
     bindT (consumeFromTopic pq env name subscriberID (coVisibilityTimeout (applyConsumeOptions opts))) (\<lambda>msg.
       case msg of
         None \<Rightarrow> failT ErrQueueEmpty
       | Some m \<Rightarrow>
           returnT (SetReceipt m
             \<lparr>MessageID = msgID m, ClaimID = msgClaimID m, ReceiptQueueName = name,
              ReceiptQueueType = QueueTypePubSub, SubscriberID = subscriberID\<rparr>)))"

definition ackReceipt :: "env \<Rightarrow> Receipt \<Rightarrow> (sys, unit) txm" where
  "ackReceipt env r =
     (case ReceiptQueueType r of
        QueueTypeChannel \<Rightarrow> ackChannel env (ReceiptQueueName r) r
      | QueueTypePubSub \<Rightarrow> ackTopic env (ReceiptQueueName r) (SubscriberID r) r
      | OtherQueueType _ \<Rightarrow> failT ErrReceiptMissingQueueType)"

definition Ack :: "Queue \<Rightarrow> env \<Rightarrow> Receipt \<Rightarrow> (sys, unit) txm" where
  "Ack pq env r = bindT (checkClosed pq) (\<lambda>_. ackReceipt env r)"

definition nackReceipt :: "Queue \<Rightarrow> env \<Rightarrow> Receipt \<Rightarrow> string \<Rightarrow> NackOption list \<Rightarrow> (sys, unit) txm" where
  "nackReceipt pq env r reason opts =
     (case ReceiptQueueType r of
        QueueTypeChannel \<Rightarrow> nackChannelWithOpts pq env (ReceiptQueueName r) r reason opts
      | QueueTypePubSub \<Rightarrow> nackTopicWithOpts pq env (ReceiptQueueName r) (SubscriberID r) r reason opts
      | OtherQueueType _ \<Rightarrow> failT ErrReceiptMissingQueueType)"

definition Nack :: "Queue \<Rightarrow> env \<Rightarrow> Receipt \<Rightarrow> string \<Rightarrow> NackOption list \<Rightarrow> (sys, unit) txm" where
  "Nack pq env r reason opts = bindT (checkClosed pq) (\<lambda>_. nackReceipt pq env r reason opts)"

definition ExtendVisibility :: "Queue \<Rightarrow> env \<Rightarrow> Receipt \<Rightarrow> duration \<Rightarrow> (sys, unit) txm" where
  "ExtendVisibility pq env r d =
     bindT (checkClosed pq) (\<lambda>_.
     bindT (liftE (validateVisibilityTimeout d)) (\<lambda>_.
       case ReceiptQueueType r of
         QueueTypeChannel \<Rightarrow> extendChannelVisibility env (ReceiptQueueName r) r d
       | QueueTypePubSub \<Rightarrow> extendTopicVisibility env (ReceiptQueueName r) (SubscriberID r) r d
       | OtherQueueType _ \<Rightarrow> failT ErrReceiptMissingQueueType))"

section \<open>Batches over several queues\<close>

type_synonym receiptGroupKey = "QueueType \<times> string \<times> string"

definition group_key :: "Receipt \<Rightarrow> receiptGroupKey" where
  "group_key r = (ReceiptQueueType r, ReceiptQueueName r, SubscriberID r)"

definition bound_receipt :: "Receipt \<Rightarrow> bool" where
  "bound_receipt r \<longleftrightarrow> ReceiptQueueType r = QueueTypeChannel \<or> ReceiptQueueType r = QueueTypePubSub"

fun groupReceipts ::
    "Receipt list \<Rightarrow> Receipt list \<Rightarrow> (receiptGroupKey \<times> Receipt list) list \<Rightarrow>
     err + (receiptGroupKey \<times> Receipt list) list" where
  "groupReceipts [] seen groups = Inr groups"
| "groupReceipts (r # rs) seen groups =
     (if \<not> bound_receipt r then Inl ErrReceiptMissingQueueType
      else if r \<in> set seen then groupReceipts rs seen groups
      else groupReceipts rs (r # seen) (AList.map_default (group_key r) [r] (\<lambda>g. g @ [r]) groups))"

definition groupReceiptsByQueue :: "Receipt list \<Rightarrow> err + (receiptGroupKey \<times> Receipt list) list" where
  "groupReceiptsByQueue rs = groupReceipts rs [] []"

definition combine :: "BatchResult \<Rightarrow> BatchResult \<Rightarrow> BatchResult" where
  "combine a b = \<lparr>Succeeded = Succeeded a @ Succeeded b, Failed = Failed a @ Failed b\<rparr>"

text \<open>
  The loop over the groups.  The result carries the committed groups and the errors that
  \<^verbatim>\<open>errors.Join\<close> joins, the empty list standing for a nil error.
\<close>

fun batchGroups ::
    "(receiptGroupKey \<Rightarrow> Receipt list \<Rightarrow> ('s, BatchResult) txm) \<Rightarrow> (receiptGroupKey \<times> Receipt list) list \<Rightarrow>
     BatchResult \<Rightarrow> err list \<Rightarrow> ('s, BatchResult \<times> err list) txm" where
  "batchGroups run [] combined errs = returnT (combined, errs)"
| "batchGroups run ((k, rs) # groups) combined errs = (\<lambda>ns.
     case run k rs ns of
       (Inl e, ns') \<Rightarrow> batchGroups run groups combined (errs @ [e]) ns'
     | (Inr res, ns') \<Rightarrow> batchGroups run groups (combine combined res) errs ns')"

definition ackGroup ::
    "env \<Rightarrow> (receiptGroupKey \<Rightarrow> nat \<Rightarrow> bool) \<Rightarrow> receiptGroupKey \<Rightarrow> Receipt list \<Rightarrow> (sys, BatchResult) txm" where
  "ackGroup env cancelled k rs =
     (case k of (qt, queueName, subscriberID) \<Rightarrow>
        if qt = QueueTypeChannel
        then withBatchRetry (cancelled k) (ackChannelBatch env queueName rs) 0
        else withBatchRetry (cancelled k) (ackTopicBatch env queueName subscriberID rs) 0)"

definition AckBatch ::
    "Queue \<Rightarrow> env \<Rightarrow> ((receiptGroupKey \<times> Receipt list) list \<Rightarrow> (receiptGroupKey \<times> Receipt list) list) \<Rightarrow>
     (receiptGroupKey \<Rightarrow> nat \<Rightarrow> bool) \<Rightarrow> Receipt list \<Rightarrow> (sys, BatchResult \<times> err list) txm" where
  "AckBatch pq env map_order cancelled rs =
     bindT (checkClosed pq) (\<lambda>_.
       if rs = [] then returnT (emptyBatch, [])
       else bindT (liftE (groupReceiptsByQueue rs)) (\<lambda>groups.
         batchGroups (ackGroup env cancelled) (map_order groups) emptyBatch []))"

definition nackGroup ::
    "Queue \<Rightarrow> env \<Rightarrow> (receiptGroupKey \<Rightarrow> nat \<Rightarrow> bool) \<Rightarrow> string \<Rightarrow> NackOption list \<Rightarrow>
     receiptGroupKey \<Rightarrow> Receipt list \<Rightarrow> (sys, BatchResult) txm" where
  "nackGroup pq env cancelled reason opts k rs =
     (case k of (qt, queueName, subscriberID) \<Rightarrow>
        if qt = QueueTypeChannel
        then withBatchRetry (cancelled k)
               (nackChannelBatch pq env queueName rs reason (resolveNackRetryDelay opts)) 0
        else withBatchRetry (cancelled k)
               (nackTopicBatch pq env queueName subscriberID rs reason (resolveNackRetryDelay opts)) 0)"

definition NackBatch ::
    "Queue \<Rightarrow> env \<Rightarrow> ((receiptGroupKey \<times> Receipt list) list \<Rightarrow> (receiptGroupKey \<times> Receipt list) list) \<Rightarrow>
     (receiptGroupKey \<Rightarrow> nat \<Rightarrow> bool) \<Rightarrow> Receipt list \<Rightarrow> string \<Rightarrow> NackOption list \<Rightarrow>
     (sys, BatchResult \<times> err list) txm" where
  "NackBatch pq env map_order cancelled rs reason opts =
     bindT (checkClosed pq) (\<lambda>_.
       if rs = [] then returnT (emptyBatch, [])
       else bindT (liftE (groupReceiptsByQueue rs)) (\<lambda>groups.
         batchGroups (nackGroup pq env cancelled reason opts) (map_order groups) emptyBatch []))"

section \<open>The fetch loop\<close>

definition defaultPollInterval :: duration where
  "defaultPollInterval = 1 * time_Second"

definition effectivePoll :: "Queue \<Rightarrow> consumeOpts \<Rightarrow> duration" where
  "effectivePoll pq o' =
     (if coPollInterval o' > 0 then coPollInterval o'
      else if safetyNetPoll (cfg pq) > 0 then safetyNetPoll (cfg pq)
      else defaultPollInterval)"

definition maxConsumeTransientRetries :: nat where
  "maxConsumeTransientRetries = 5"

definition transientBackoff :: "nat \<Rightarrow> duration" where
  "transientBackoff attempt =
     (let d = int attempt * (200 * time_Millisecond) in
      if d > 5 * time_Second then 5 * time_Second else d)"

definition isEmptySignal :: "err \<Rightarrow> bool" where
  "isEmptySignal e \<longleftrightarrow> errors_Is e ErrQueueEmpty \<or> errors_Is e ErrQueuePaused"

definition isStopSignal :: "bool \<Rightarrow> err \<Rightarrow> bool" where
  "isStopSignal ended e \<longleftrightarrow> ended \<or> errors_Is e context_Canceled \<or> errors_Is e context_DeadlineExceeded"

datatype fetchOutcome = Deliver Message | Fatal err | Stop

text \<open>
  What the loop observes of its context in iteration \<open>i\<close>: \<open>ctx_head\<close> at the loop head, \<open>ctx_after\<close>
  after the receive, and whether a wait of \<open>d\<close> ended without the context ending.
\<close>

record loop_ctx =
  ctx_head :: "nat \<Rightarrow> bool"
  ctx_after :: "nat \<Rightarrow> bool"
  waitForWork :: "nat \<Rightarrow> duration \<Rightarrow> bool"

text \<open>\<open>Inl\<close> ends the loop, \<open>Inr\<close> is the new count of consecutive failures.\<close>

definition retryTransient :: "loop_ctx \<Rightarrow> nat \<Rightarrow> err \<Rightarrow> nat \<Rightarrow> fetchOutcome + nat" where
  "retryTransient c i e fails =
     (if Suc fails > maxConsumeTransientRetries then Inl (Fatal e)
      else if \<not> waitForWork c i (transientBackoff (Suc fails)) then Inl Stop
      else Inr (Suc fails))"

text \<open>The loop has no bound of its own: \<open>None\<close> is a loop that never returns.\<close>

partial_function (option) fetchNext ::
    "loop_ctx \<Rightarrow> duration \<Rightarrow> (nat \<Rightarrow> ('s, Message) txm) \<Rightarrow> nat \<Rightarrow> nat \<Rightarrow> nat \<times> 's \<Rightarrow>
     (fetchOutcome \<times> nat \<times> nat \<times> nat \<times> 's) option" where
  "fetchNext c poll receive i fails ns =
     (if ctx_head c i then Some (Stop, fails, i, ns)
      else case receive i ns of
        (Inr m, ns') \<Rightarrow> Some (Deliver m, 0, i, ns')
      | (Inl e, ns') \<Rightarrow>
          if isEmptySignal e then
            (if waitForWork c i poll then fetchNext c poll receive (Suc i) 0 ns'
             else Some (Stop, 0, i, ns'))
          else if isStopSignal (ctx_after c i) e then Some (Stop, fails, i, ns')
          else if isTransientError e then
            (case retryTransient c i e fails of
               Inl o' \<Rightarrow> Some (o', Suc fails, i, ns')
             | Inr fails' \<Rightarrow> fetchNext c poll receive (Suc i) fails' ns')
          else Some (Fatal e, fails, i, ns'))"

section \<open>Handlers\<close>

text \<open>
  A handler's error: a plain one, the wrapper \<^verbatim>\<open>RetryAfter\<close> returns (\<^verbatim>\<open>handler_retry.go\<close>), or another
  wrapper of an error.
\<close>

datatype handler_error =
    PlainError string
  | RetryAfter duration "handler_error option"
  | WrappedError string handler_error

text \<open>\<^verbatim>\<open>Error()\<close>; \<open>dur\<close> is \<^verbatim>\<open>time.Duration.String\<close>.\<close>

fun handler_error_text :: "(duration \<Rightarrow> string) \<Rightarrow> handler_error \<Rightarrow> string" where
  "handler_error_text dur (PlainError s) = s"
| "handler_error_text dur (RetryAfter d None) = ''retry after '' @ dur d"
| "handler_error_text dur (RetryAfter d (Some cause)) =
     ''retry after '' @ dur d @ '': '' @ handler_error_text dur cause"
| "handler_error_text dur (WrappedError s e) = s @ '': '' @ handler_error_text dur e"

fun nackOptionsForHandlerError :: "handler_error \<Rightarrow> NackOption list" where
  "nackOptionsForHandlerError (PlainError _) = []"
| "nackOptionsForHandlerError (RetryAfter d _) = [WithRetryDelay d]"
| "nackOptionsForHandlerError (WrappedError _ e) = nackOptionsForHandlerError e"

datatype handler_result = Returned "handler_error option" | PanickedError handler_error | PanickedValue string

fun callHandler :: "handler_result \<Rightarrow> handler_error option" where
  "callHandler (Returned e) = e"
| "callHandler (PanickedError e) = Some (WrappedError ''handler panic'' e)"
| "callHandler (PanickedValue v) = Some (WrappedError ''handler panic'' (PlainError v))"

text \<open>The result is the count reported to \<^verbatim>\<open>recordAckAfterExpired\<close>; other errors are only logged.\<close>

definition logged :: "('s, unit) txm \<Rightarrow> ('s, nat) txm" where
  "logged m = (\<lambda>ns. case m ns of
     (Inr _, ns') \<Rightarrow> (Inr 0, ns')
   | (Inl e, ns') \<Rightarrow> (Inr (if errors_Is e ErrClaimExpired then 1 else 0), ns'))"

definition dispatchToHandler ::
    "Queue \<Rightarrow> env \<Rightarrow> (duration \<Rightarrow> string) \<Rightarrow> (Message \<Rightarrow> handler_result) \<Rightarrow> Message \<Rightarrow> (sys, nat) txm" where
  "dispatchToHandler pq env dur h msg =
     (let receipt = Message_Receipt msg in
      case callHandler (h msg) of
        Some herr \<Rightarrow> logged (nackReceipt pq env receipt (handler_error_text dur herr) (nackOptionsForHandlerError herr))
      | None \<Rightarrow> logged (ackReceipt env receipt))"

definition maxConcurrency :: int where
  "maxConcurrency = 1024"

text \<open>The number of workers \<^verbatim>\<open>runHandlerLoop\<close> starts.\<close>

definition loop_workers :: "consumeOpts \<Rightarrow> int" where
  "loop_workers o' =
     (let workers = coConcurrency o' in
      let workers = (if workers \<le> 0 then 1 else workers) in
      if workers > maxConcurrency then maxConcurrency else workers)"

partial_function (option) handlerWorker ::
    "loop_ctx \<Rightarrow> duration \<Rightarrow> (nat \<Rightarrow> ('s, Message) txm) \<Rightarrow> (nat \<Rightarrow> Message \<Rightarrow> ('s, nat) txm) \<Rightarrow>
     nat \<Rightarrow> nat \<Rightarrow> nat \<times> 's \<Rightarrow> (err option \<times> nat \<times> 's) option" where
  "handlerWorker c poll receive dispatch i fails ns =
     (case fetchNext c poll receive i fails ns of
        None \<Rightarrow> None
      | Some (Deliver m, fails', j, ns') \<Rightarrow>
          handlerWorker c poll receive dispatch (Suc j) fails' (snd (dispatch j m ns'))
      | Some (Fatal e, fails', j, ns') \<Rightarrow> Some (Some e, ns')
      | Some (Stop, fails', j, ns') \<Rightarrow> Some (None, ns'))"

declare fetchNext.simps [code] handlerWorker.simps [code]

end
