(* ===== verification/ConsumeProps.thy ===== *)
theory ConsumeProps
  imports Consume BatchProps "HOL-Library.Multiset"
begin

text \<open>
  Properties of the public consume calls: batches over several queues report every receipt once,
  the fetch loop ends with its context and gives up on a bounded number of transient failures,
  and a message that is received and handled is settled.
\<close>

section \<open>What a call returns\<close>

definition yields :: "('s, 'a) txm \<Rightarrow> ('a \<Rightarrow> bool) \<Rightarrow> bool" where
  "yields m Q \<longleftrightarrow> (\<forall>ns a ns'. m ns = (Inr a, ns') \<longrightarrow> Q a)"

lemma yieldsI: "(\<And>ns a ns'. m ns = (Inr a, ns') \<Longrightarrow> Q a) \<Longrightarrow> yields m Q"
  by (simp add: yields_def)

lemma yieldsD: "yields m Q \<Longrightarrow> m ns = (Inr a, ns') \<Longrightarrow> Q a"
  unfolding yields_def by blast

lemma yields_return: "Q a \<Longrightarrow> yields (returnT a) Q"
  by (simp add: yields_def returnT_def split: prod.splits)

lemma yields_bind: "yields m P \<Longrightarrow> (\<And>a. P a \<Longrightarrow> yields (k a) Q) \<Longrightarrow> yields (bindT m k) Q"
  unfolding yields_def bindT_def by (auto split: prod.splits sum.splits) blast

lemma yields_any: "yields m (\<lambda>_. True)"
  by (simp add: yields_def)

lemma yields_zoom: "yields m Q \<Longrightarrow> yields (zoom get put m) Q"
  unfolding yields_def zoom_def by (fastforce split: prod.splits)

lemma yields_withTx: "yields m Q \<Longrightarrow> yields (withTx env m) Q"
  unfolding yields_def withTx_def by (fastforce split: prod.splits sum.splits option.splits fault.splits if_splits)

lemma yields_onChannel: "yields m Q \<Longrightarrow> yields (onChannel env tbl m) Q"
  unfolding yields_def onChannel_def by (fastforce split: prod.splits sum.splits option.splits)

lemma yields_onTopic: "yields m Q \<Longrightarrow> yields (onTopic env tbl m) Q"
  unfolding yields_def onTopic_def by (fastforce split: prod.splits sum.splits option.splits)

lemma yields_tries: "yields m Q \<Longrightarrow> tries m k ns = (Inr a, ns') \<Longrightarrow> Q a"
  by (induction m k ns rule: tries.induct) (auto dest: yieldsD)

lemma yields_retry: "yields m Q \<Longrightarrow> yields (withBatchRetry cancelled m i) Q"
proof (rule yieldsI)
  fix ns a ns'
  assume m: "yields m Q" and run: "withBatchRetry cancelled m i ns = (Inr a, ns')"
  obtain k where "withBatchRetry cancelled m i ns = tries m k ns"
    using batchRetry_tries by metis
  with run show "Q a" using yields_tries [OF m] by metis
qed

section \<open>Every receipt is reported once\<close>

definition reported :: "BatchResult \<Rightarrow> Receipt multiset" where
  "reported res = mset (Succeeded res) + mset (map frReceipt (Failed res))"

lemma reported_combine [simp]: "reported (combine a b) = reported a + reported b"
  by (simp add: reported_def combine_def)

lemma reported_empty [simp]: "reported emptyBatch = {#}"
  by (simp add: reported_def emptyBatch_def)

lemma yields_finish:
  assumes "\<And>misses. yields (classify misses) (\<lambda>failed. map frReceipt failed = misses)"
  shows "yields (finishBatch rs matched classify) (\<lambda>res. reported res = mset rs)"
proof -
  let ?misses = "filter (\<lambda>r. receiptMatchKey r \<notin> set matched) rs"
  have part: "mset (filter (\<lambda>r. receiptMatchKey r \<in> set matched) rs) + mset ?misses = mset rs"
    by (metis mset_filter multiset_partition)
  show ?thesis
  proof (cases "?misses = []")
    case True
    then have "mset ?misses = {#}" by (simp only: mset.simps)
    with part True show ?thesis by (simp add: finishBatch_def Let_def reported_def yields_return)
  next
    case False
    have "yields (bindT (classify ?misses) (\<lambda>failed. returnT
        \<lparr>Succeeded = filter (\<lambda>r. receiptMatchKey r \<in> set matched) rs, Failed = failed\<rparr>))
        (\<lambda>res. reported res = mset rs)"
      by (rule yields_bind [OF assms], rule yields_return)
        (use part in \<open>simp add: reported_def del: mset_map\<close>)
    with False show ?thesis by (simp add: finishBatch_def Let_def)
  qed
qed

lemma yields_classify: "yields (classifyBatchMisses env rows key st cl misses) (\<lambda>failed. map frReceipt failed = misses)"
  unfolding classifyBatchMisses_def
  by (auto intro!: yields_return yields_bind [OF yields_any] simp: comp_def)

lemma yields_finish_channel:
  "yields (finishBatch rs matched (classifyChannelBatchMisses env)) (\<lambda>res. reported res = mset rs)"
  by (rule yields_finish) (simp add: classifyChannelBatchMisses_def yields_classify)

lemma yields_finish_topic:
  "yields (finishBatch rs matched (classifyTopicBatchMisses env sid)) (\<lambda>res. reported res = mset rs)"
  by (rule yields_finish) (simp add: classifyTopicBatchMisses_def yields_classify)

lemma yields_batches:
  "yields (ackChannelBatch env q rs) (\<lambda>res. reported res = mset rs)"
  "yields (ackTopicBatch env q sid rs) (\<lambda>res. reported res = mset rs)"
  "yields (nackChannelBatch pq env q rs e d) (\<lambda>res. reported res = mset rs)"
  "yields (nackTopicBatch pq env q sid rs e d) (\<lambda>res. reported res = mset rs)"
  unfolding ackChannelBatch_def ackTopicBatch_def nackChannelBatch_def nackTopicBatch_def
    ackChannelBatchBody_def ackTopicBatchBody_def nackChannelBatchBody_def nackTopicBatchBody_def onDb_def Let_def
  by (auto intro!: yields_return yields_bind [OF yields_any] yields_zoom yields_withTx yields_onChannel
      yields_onTopic yields_finish_channel yields_finish_topic)

lemma yields_groups:
  "yields (ackGroup env cancelled k rs) (\<lambda>res. reported res = mset rs)"
  "yields (nackGroup pq env cancelled reason opts k rs) (\<lambda>res. reported res = mset rs)"
  by (simp_all add: ackGroup_def nackGroup_def yields_retry yields_batches split: prod.split)

text \<open>Receipts of the groups whose call failed are in none of the lists; the others are in one.\<close>

lemma batchGroups_reported:
  assumes "\<And>k rs. yields (run k rs) (\<lambda>res. reported res = mset rs)"
    and "batchGroups run groups combined errs ns = (Inr (res, errs'), ns')"
  shows "length errs \<le> length errs' \<and>
         reported res \<subseteq># reported combined + (\<Sum>g\<leftarrow>groups. mset (snd g)) \<and>
         (length errs' = length errs \<longrightarrow> reported res = reported combined + (\<Sum>g\<leftarrow>groups. mset (snd g)))"
  using assms(2)
proof (induction groups arbitrary: combined errs ns)
  case Nil
  then show ?case by (cases ns) auto
next
  case (Cons g groups)
  obtain k rs where g: "g = (k, rs)" by (cases g)
  obtain r n1 where run: "run k rs ns = (r, n1)" by (cases "run k rs ns")
  show ?case
  proof (cases r)
    case (Inl e)
    with Cons.prems run g have "batchGroups run groups combined (errs @ [e]) n1 = (Inr (res, errs'), ns')" by simp
    from Cons.IH [OF this] have "length errs < length errs'"
        "reported res \<subseteq># reported combined + (\<Sum>g\<leftarrow>groups. mset (snd g))"
      by simp_all
    then show ?thesis
      by (auto simp: g union_assoc [symmetric] add.commute [of "reported combined"]
          intro: subset_mset.order_trans)
  next
    case (Inr b)
    then have "reported b = mset rs" using yieldsD [OF assms(1) run [unfolded Inr]] by simp
    moreover from Cons.prems run g Inr have "batchGroups run groups (combine combined b) errs n1 = (Inr (res, errs'), ns')"
      by simp
    from Cons.IH [OF this] have "length errs \<le> length errs' \<and>
        reported res \<subseteq># reported combined + reported b + (\<Sum>g\<leftarrow>groups. mset (snd g)) \<and>
        (length errs' = length errs \<longrightarrow>
           reported res = reported combined + reported b + (\<Sum>g\<leftarrow>groups. mset (snd g)))"
      by simp
    ultimately show ?thesis by (simp add: g union_assoc)
  qed
qed

lemma batchGroups_total: "\<exists>res errs' n' s'. batchGroups run groups combined errs ns = (Inr (res, errs'), n', s')"
proof (induction groups arbitrary: combined errs ns)
  case Nil
  then show ?case by (cases ns) simp
next
  case (Cons g groups)
  then show ?case by (cases g) (simp split: prod.split sum.split)
qed

lemma map_default_mset:
  "(\<Sum>g\<leftarrow>AList.map_default k [r] (\<lambda>g. g @ [r]) groups. mset (snd g)) =
   (\<Sum>g\<leftarrow>groups. mset (snd g)) + {#r#}"
  by (induction groups) auto

lemma groupReceipts_mset:
  "groupReceipts rs seen groups = Inr groups' \<Longrightarrow>
   (\<Sum>g\<leftarrow>groups'. mset (snd g)) = (\<Sum>g\<leftarrow>groups. mset (snd g)) + mset_set (set rs - set seen)"
proof (induction rs seen groups rule: groupReceipts.induct)
  case (2 r rs seen groups)
  show ?case
  proof (cases "r \<in> set seen")
    case True
    with 2 show ?thesis by (auto simp: insert_Diff_if split: if_splits)
  next
    case False
    then have "set (r # rs) - set seen = insert r (set rs - set (r # seen))" by auto
    then have "mset_set (set (r # rs) - set seen) = add_mset r (mset_set (set rs - set (r # seen)))"
      by (simp only:) (rule mset_set.insert, auto)
    with 2 False show ?thesis by (auto simp: map_default_mset split: if_splits)
  qed
qed simp

text \<open>
  C28.  \<^verbatim>\<open>AckBatch\<close> reports each distinct receipt at most once, and when it returns no error each
  exactly once, as succeeded or failed, whatever the driver does and in whatever order the groups
  are visited.
\<close>

theorem AckBatch_reports:
  assumes "\<And>g. mset (map_order g) = mset g"
    and "AckBatch pq env map_order cancelled rs (n, s) = (Inr (res, errs), n', s')"
  shows "mset (Succeeded res) + mset (map frReceipt (Failed res)) \<subseteq># mset (remdups rs) \<and>
         (errs = [] \<longrightarrow> mset (Succeeded res) + mset (map frReceipt (Failed res)) = mset (remdups rs))"
proof (cases "rs = []")
  case True
  with assms(2) show ?thesis
    by (auto simp: AckBatch_def checkClosed_def guardT_def emptyBatch_def split: if_splits)
next
  case False
  then obtain groups where groups: "groupReceiptsByQueue rs = Inr groups"
      and run: "batchGroups (ackGroup env cancelled) (map_order groups) emptyBatch [] (n, s) = (Inr (res, errs), n', s')"
    using assms(2) by (auto simp: AckBatch_def checkClosed_def guardT_def split: if_splits)
      (cases "groupReceiptsByQueue rs"; simp)
  have "mset_set (set rs) = mset (remdups rs)" by (metis mset_set_set distinct_remdups set_remdups)
  moreover have "(\<Sum>g\<leftarrow>map_order groups. mset (snd g)) = (\<Sum>g\<leftarrow>groups. mset (snd g))"
    by (simp add: assms(1) flip: sum_mset_sum_list)
  moreover have "(\<Sum>g\<leftarrow>groups. mset (snd g)) = mset_set (set rs)"
    using groupReceipts_mset [of rs "[]" "[]" groups] groups by (simp add: groupReceiptsByQueue_def)
  ultimately show ?thesis
    using batchGroups_reported [OF yields_groups(1) run] by (simp add: reported_def emptyBatch_def)
qed

theorem AckBatch_reports_witness:
  "\<exists>res errs n' s'. AckBatch pq0 env0 (\<lambda>g. g) (\<lambda>_ _. False) [receipt0, receipt0] (0, sys_with claimed_tables) =
       (Inr (res, errs), n', s') \<and>
     mset (Succeeded res) + mset (map frReceipt (Failed res)) \<subseteq># {#receipt0#}"
proof -
  let ?run = "AckBatch pq0 env0 (\<lambda>g. g) (\<lambda>_ _. False) [receipt0, receipt0] (0, sys_with claimed_tables)"
  have "\<not> isl (groupReceiptsByQueue [receipt0, receipt0])" by code_simp
  then obtain groups where "groupReceiptsByQueue [receipt0, receipt0] = Inr groups"
    by (cases "groupReceiptsByQueue [receipt0, receipt0]") auto
  then have "?run = batchGroups (ackGroup env0 (\<lambda>_ _. False)) groups emptyBatch [] (0, sys_with claimed_tables)"
    by (simp add: AckBatch_def checkClosed_def)
  then obtain res errs n' s' where run: "?run = (Inr (res, errs), n', s')"
    using batchGroups_total by metis
  from AckBatch_reports [OF refl run] have "mset (Succeeded res) + mset (map frReceipt (Failed res)) \<subseteq># {#receipt0#}"
    by simp
  with run show ?thesis by blast
qed

section \<open>The fetch loop\<close>

lemma fetch_loop:
  assumes "ctx_head c j" and "i \<le> j" and "fails \<le> maxConsumeTransientRetries"
  shows "\<exists>out fails' k ns'. fetchNext c poll receive i fails ns = Some (out, fails', k, ns') \<and> k \<le> j \<and>
           (\<forall>e. out = Fatal e \<longrightarrow> \<not> isEmptySignal e \<and> (isTransientError e \<longrightarrow> fails' = Suc maxConsumeTransientRetries))"
  using assms(2,3)
proof (induction "j - i" arbitrary: i fails ns)
  case 0
  then have "ctx_head c i" using assms(1) by (simp add: le_antisym)
  then show ?case using 0 by (subst fetchNext.simps) auto
next
  case (Suc d)
  have step: "\<exists>out fails'' k ns''. fetchNext c poll receive (Suc i) fails' ns' = Some (out, fails'', k, ns'') \<and> k \<le> j \<and>
      (\<forall>e. out = Fatal e \<longrightarrow> \<not> isEmptySignal e \<and> (isTransientError e \<longrightarrow> fails'' = Suc maxConsumeTransientRetries))"
    if "fails' \<le> maxConsumeTransientRetries" for fails' ns'
    using Suc.hyps(2) Suc.prems that by (intro Suc.hyps(1)) auto
  obtain res ns' where run: "receive i ns = (res, ns')" by (cases "receive i ns")
  have "fetchNext c poll receive i fails ns =
      (if ctx_head c i then Some (Stop, fails, i, ns)
       else case res of
         Inr m \<Rightarrow> Some (Deliver m, 0, i, ns')
       | Inl e \<Rightarrow>
           if isEmptySignal e then
             (if waitForWork c i poll then fetchNext c poll receive (Suc i) 0 ns' else Some (Stop, 0, i, ns'))
           else if isStopSignal (ctx_after c i) e then Some (Stop, fails, i, ns')
           else if isTransientError e then
             (case retryTransient c i e fails of
                Inl o' \<Rightarrow> Some (o', Suc fails, i, ns')
              | Inr fails' \<Rightarrow> fetchNext c poll receive (Suc i) fails' ns')
           else Some (Fatal e, fails, i, ns'))"
    by (subst fetchNext.simps) (simp add: run split: sum.split)
  then show ?case
    using Suc.prems step [of 0 ns'] step [of "Suc fails" ns']
    by (auto simp: retryTransient_def split: sum.splits if_splits)
qed

text \<open>
  The fetch loop returns: once the context has ended at some iteration the loop has ended by
  then, whatever the queue and the driver do before.  It ends in a fatal error only for an error
  that is not an empty or paused queue, and for a transient one only after six in a row.
\<close>

theorem fetchNext_returns:
  assumes "ctx_head c j"
  shows "\<exists>out fails k ns'. fetchNext c poll receive 0 0 ns = Some (out, fails, k, ns') \<and> k \<le> j \<and>
           (\<forall>e. out = Fatal e \<longrightarrow> \<not> isEmptySignal e \<and> (isTransientError e \<longrightarrow> fails = 6))"
  using fetch_loop [OF assms, of 0 0] by (simp add: maxConsumeTransientRetries_def)

theorem fetchNext_returns_witness:
  "\<exists>out fails k ns'. fetchNext \<lparr>ctx_head = (\<lambda>i. i = 3), ctx_after = (\<lambda>_. False), waitForWork = (\<lambda>_ _. True)\<rparr>
     0 (\<lambda>_. failT ErrQueueEmpty) 0 0 (0, ()) = Some (out, fails, k, ns') \<and> k \<le> 3"
  using fetchNext_returns [of "\<lparr>ctx_head = (\<lambda>i. i = 3), ctx_after = (\<lambda>_. False), waitForWork = (\<lambda>_ _. True)\<rparr>" 3
      0 "\<lambda>_. failT ErrQueueEmpty" "(0, ())"] by auto

section \<open>Receive, handle, acknowledge\<close>

lemma consume_state:
  assumes "no_faults env" and "can_consume pq s name vt"
    and "find (is_queue QueueTypeChannel name) (pgqueue_metadata (store s)) = Some meta"
    and "channels (store s) (metaTableName meta) = Some t"
    and "fetchPendingChannelMessage pq env vt (ttl_of pq s name) 0 (Suc (Suc n), t) = (Inr m, n', t')"
  shows "consumeFromChannel pq env name vt (n, s) =
           (Inr (map_option (\<lambda>(msg, vis). msg\<lparr>msgVisibilityTimeout := Some vis\<rparr>) m), Suc n',
            s\<lparr>mdcache := cache_set (time_Now env) QueueTypeChannel name (metaTableName meta) (mdcache s),
              store := put_channel (metaTableName meta) t' (store s)\<rparr>)"
  using assms
  by (simp add: consumeFromChannel_def checkClosed_def can_consume_def bindT_app notFoundAs_def
      mapErrT_app getQueueMetadata_ok onDb_app withTx_onChannel ttl_of_def)

lemma cache_get_after_set:
  "cache_get now qt name (cache_set now qt name tbl mc) = (Some tbl, cache_set now qt name tbl mc)"
  by (simp add: cache_get_def cache_set_def Let_def update_conv' cache_expired_def metadataCacheTTL_def)

lemma ack_after_get:
  assumes "no_faults env" and "channels d tbl = Some t"
  shows "\<exists>n'. ackChannel env name r (n, \<lparr>store = d, mdcache = cache_set (time_Now env) QueueTypeChannel name tbl mc\<rparr>) =
    (if claimed r t then Inr () else Inl (miss_reason r t), n',
     \<lparr>store = put_channel tbl (if claimed r t then
              t\<lparr>msgs := sql_update (live_row (MessageID r) (ClaimID r)) (ack_row (NOW env)) (msgs t)\<rparr> else t) d,
      mdcache = cache_set (time_Now env) QueueTypeChannel name tbl mc\<rparr>)"
  using assms
  by (auto simp: ackChannel_def notFoundAs_def mapErrT_app bindT_app cachedTableName_def onCache_def cache_get_after_set
      onDb_app withTx_onChannel fenced_run put_channel_same)

text \<open>
  C13.  End to end on a channel: when the least due pending message is received and its handler
  returns nil, the automatic ack finds its claim live and that message, and no other, is completed.
\<close>

theorem receive_then_handle:
  assumes "no_faults env" and "channel_of s name = Some t"
    and "can_consume pq s name (coVisibilityTimeout (applyConsumeOptions opts))"
    and "next_pending env (ttl_of pq s name) t = Some row" and "\<And>m. h m = Returned None"
  shows "\<exists>c d. case bindT (ReceiveChannel pq env name opts) (dispatchToHandler pq env dur h) (n, s) of (res, _, s') \<Rightarrow>
           res = Inr 0 \<and>
           channel_of s' name =
             Some (t\<lparr>msgs := sql_update (\<lambda>r. id r = id row)
                              (\<lambda>r. ack_row (NOW env) (claim_row (retry_count row) c d r)) (msgs t)\<rparr>)"
proof -
  let ?vt = "coVisibilityTimeout (applyConsumeOptions opts)"
  let ?c = "uuidv7 env (Suc (Suc (Suc n))) 0" and ?d = "NOW env + make_interval env ?vt"
  let ?claim = "claim_row (retry_count row) ?c ?d"
  let ?t' = "t\<lparr>msgs := sql_update (\<lambda>r. id r = id row) ?claim (msgs t)\<rparr>"
  let ?m = "(message_of pq env row (retry_count row) ?c)\<lparr>msgVisibilityTimeout := Some ?d\<rparr>"
  let ?r = "\<lparr>MessageID = id row, ClaimID = ?c, ReceiptQueueName = name, ReceiptQueueType = QueueTypeChannel,
             SubscriberID = ''''\<rparr>"
  obtain meta where meta: "find (is_queue QueueTypeChannel name) (pgqueue_metadata (store s)) = Some meta"
      "channels (store s) (metaTableName meta) = Some t"
    using assms(2) by (rule channel_ofE)
  have row: "row \<in> set (msgs t)" using assms(4) by (auto simp: next_pending_def dest: sql_first_Some)
  let ?s' = "s\<lparr>mdcache := cache_set (time_Now env) QueueTypeChannel name (metaTableName meta) (mdcache s),
              store := put_channel (metaTableName meta) ?t' (store s)\<rparr>"
  obtain k where "consumeFromChannel pq env name ?vt (n, s) = (Inr (Some ?m), k, ?s')"
    using consume_state [OF assms(1,3) meta fetch_pending [OF assms(1,4)]] by (simp del: fetchPendingChannelMessage.simps)
  then have recv: "ReceiveChannel pq env name opts (n, s) = (Inr (SetReceipt ?m ?r), k, ?s')"
    using assms(3) by (simp add: ReceiveChannel_def checkClosed_def can_consume_def bindT_app message_of_def)
  have live: "claimed ?r ?t'"
  proof -
    have "?claim row \<in> set (msgs ?t')" using row by (force simp: set_sql_update)
    then show ?thesis unfolding claimed_def by (rule bexI [rotated]) (simp add: live_row_def claim_row_def)
  qed
  have "sql_update (live_row (id row) ?c) f (sql_update (\<lambda>r. id r = id row) ?claim rows) =
      sql_update (\<lambda>r. id r = id row) (\<lambda>r. f (?claim r)) rows" for f rows
    by (induction rows) (auto simp: live_row_def claim_row_def)
  note only = this
  have tbl: "channels (store ?s') (metaTableName meta) = Some ?t'" by (simp add: put_channel_def)
  obtain k' where ack: "ackChannel env name ?r (k, ?s') =
      (Inr (), k', ?s'\<lparr>store := put_channel (metaTableName meta)
        (?t'\<lparr>msgs := sql_update (live_row (id row) ?c) (ack_row (NOW env)) (msgs ?t')\<rparr>) (store ?s')\<rparr>)"
    using ack_after_get [OF assms(1) tbl, of name ?r k "mdcache s"] live by (cases s) auto
  have "dispatchToHandler pq env dur h (SetReceipt ?m ?r) (k, ?s') =
      (Inr 0, k', ?s'\<lparr>store := put_channel (metaTableName meta)
        (?t'\<lparr>msgs := sql_update (live_row (id row) ?c) (ack_row (NOW env)) (msgs ?t')\<rparr>) (store ?s')\<rparr>)"
    using ack by (simp add: dispatchToHandler_def assms(5) Message_Receipt_def SetReceipt_def ackReceipt_def logged_def)
  then have "bindT (ReceiveChannel pq env name opts) (dispatchToHandler pq env dur h) (n, s) =
      (Inr 0, k', ?s'\<lparr>store := put_channel (metaTableName meta)
        (?t'\<lparr>msgs := sql_update (live_row (id row) ?c) (ack_row (NOW env)) (msgs ?t')\<rparr>) (store ?s')\<rparr>)"
    by (simp only: bindT_app recv prod.case sum.case)
  moreover have "channel_of (?s'\<lparr>store := put_channel (metaTableName meta)
        (?t'\<lparr>msgs := sql_update (live_row (id row) ?c) (ack_row (NOW env)) (msgs ?t')\<rparr>) (store ?s')\<rparr>) name =
      Some (t\<lparr>msgs := sql_update (\<lambda>r. id r = id row) (\<lambda>r. ack_row (NOW env) (?claim r)) (msgs t)\<rparr>)"
    using meta(1) by (simp add: channel_of_def put_channel_def only)
  ultimately show ?thesis by (intro exI [of _ ?c] exI [of _ ?d]) (simp only: prod.case simp_thms)
qed

theorem receive_then_handle_witness:
  "\<exists>c d. case bindT (ReceiveChannel pq0 env0 ''orders'' []) (dispatchToHandler pq0 env0 (\<lambda>_. '''') (\<lambda>_. Returned None))
            (0, sys_with pending_tables) of (res, _, s') \<Rightarrow>
     res = Inr 0 \<and>
     channel_of s' ''orders'' = Some (pending_tables\<lparr>msgs := [ack_row 1000000 (claim_row 0 c d row0)]\<rparr>)"
proof -
  have pre: "channel_of (sys_with pending_tables) ''orders'' = Some pending_tables"
    "can_consume pq0 (sys_with pending_tables) ''orders'' (coVisibilityTimeout (applyConsumeOptions []))"
    "next_pending env0 (ttl_of pq0 (sys_with pending_tables) ''orders'') pending_tables = Some row0"
    by code_simp+
  have eq: "sql_update (\<lambda>r. id r = id row0) f (msgs pending_tables) = [f row0]" for f
    by (simp add: pending_tables_def)
  have rc: "retry_count row0 = 0" by code_simp
  show ?thesis
    using receive_then_handle [OF no_faults_env0 pre, of "\<lambda>_. Returned None" "\<lambda>_. []" 0]
    unfolding eq rc env0_simps(1) by (simp only:)
qed

end
