(* ===== verification/Mailbox.thy ===== *)
theory Mailbox
  imports Prelude
begin

text \<open>
  What a queue promises its users, without tables or slices: a message waits, is leased under a
  claim token, or is dead.  \<^verbatim>\<open>waiting\<close> and \<^verbatim>\<open>leased\<close> carry the failed deliveries so far and the number
  allowed.  A lease that ends without an ack is a failed delivery, whether by a nack or by its
  deadline: the message waits again, or is buried when its deliveries are used up.  A replay starts
  a waiting message over, or brings a dead one back.
\<close>

record mailbox =
  waiting :: "uuid \<rightharpoonup> int \<times> int"
  leased :: "uuid \<rightharpoonup> uuid \<times> int \<times> int"
  dead :: "uuid set"

definition empty_mailbox :: mailbox where
  "empty_mailbox = \<lparr>waiting = Map.empty, leased = Map.empty, dead = {}\<rparr>"

inductive mailbox_step :: "mailbox \<Rightarrow> mailbox \<Rightarrow> bool" where
  put: "waiting m i = None \<Longrightarrow> leased m i = None \<Longrightarrow> 0 \<le> mx \<Longrightarrow>
    mailbox_step m (m\<lparr>waiting := (waiting m)(i \<mapsto> (0, mx))\<rparr>)"
| take: "waiting m i = Some (k, mx) \<Longrightarrow>
    mailbox_step m (m\<lparr>waiting := (waiting m)(i := None), leased := (leased m)(i \<mapsto> (c, k, mx))\<rparr>)"
| ack: "leased m i = Some (c, k, mx) \<Longrightarrow> mailbox_step m (m\<lparr>leased := (leased m)(i := None)\<rparr>)"
| retry: "leased m i = Some (c, k, mx) \<Longrightarrow> k + 1 \<le> mx \<Longrightarrow>
    mailbox_step m (m\<lparr>leased := (leased m)(i := None), waiting := (waiting m)(i \<mapsto> (k + 1, mx))\<rparr>)"
| bury: "leased m i = Some (c, k, mx) \<Longrightarrow> mx < k + 1 \<Longrightarrow>
    mailbox_step m (m\<lparr>leased := (leased m)(i := None), dead := insert i (dead m)\<rparr>)"
| restart: "waiting m i = Some (k, mx) \<Longrightarrow> mailbox_step m (m\<lparr>waiting := (waiting m)(i \<mapsto> (0, mx))\<rparr>)"
| revive: "i \<in> dead m \<Longrightarrow> waiting m i = None \<Longrightarrow> leased m i = None \<Longrightarrow> 0 \<le> mx \<Longrightarrow>
    mailbox_step m (m\<lparr>waiting := (waiting m)(i \<mapsto> (0, mx)), dead := dead m - {i}\<rparr>)"

abbreviation mailbox_steps :: "mailbox \<Rightarrow> mailbox \<Rightarrow> bool" where
  "mailbox_steps \<equiv> mailbox_step\<^sup>*\<^sup>*"

text \<open>No message waits and is leased at once, and none is delivered more often than allowed.\<close>

definition mailbox_ok :: "mailbox \<Rightarrow> bool" where
  "mailbox_ok m \<longleftrightarrow>
     dom (waiting m) \<inter> dom (leased m) = {} \<and>
     (\<forall>i k mx. waiting m i = Some (k, mx) \<longrightarrow> 0 \<le> k \<and> k \<le> mx) \<and>
     (\<forall>i c k mx. leased m i = Some (c, k, mx) \<longrightarrow> 0 \<le> k \<and> k \<le> mx)"

lemma mailbox_step_ok: "mailbox_step m m' \<Longrightarrow> mailbox_ok m \<Longrightarrow> mailbox_ok m'"
  by (induction rule: mailbox_step.induct) (fastforce simp: mailbox_ok_def dom_def split: if_splits)+

lemma mailbox_steps_ok: "mailbox_steps m m' \<Longrightarrow> mailbox_ok m \<Longrightarrow> mailbox_ok m'"
  by (induction rule: rtranclp_induct) (auto intro: mailbox_step_ok)

section \<open>One message at a time\<close>

text \<open>
  The steps act on one message each, so a state change whose effect on every single message is
  allowed is a run of the mailbox.
\<close>

type_synonym cell = "(int \<times> int) option \<times> (uuid \<times> int \<times> int) option \<times> bool"

inductive cell_step :: "cell \<Rightarrow> cell \<Rightarrow> bool" where
  "0 \<le> mx \<Longrightarrow> cell_step (None, None, d) (Some (0, mx), None, d)"
| "cell_step (Some (k, mx), l, d) (None, Some (c, k, mx), d)"
| "cell_step (w, Some (c, k, mx), d) (w, None, d)"
| "k + 1 \<le> mx \<Longrightarrow> cell_step (w, Some (c, k, mx), d) (Some (k + 1, mx), None, d)"
| "mx < k + 1 \<Longrightarrow> cell_step (w, Some (c, k, mx), d) (w, None, True)"
| "cell_step (Some (k, mx), l, d) (Some (0, mx), l, d)"
| "0 \<le> mx \<Longrightarrow> cell_step (None, None, True) (Some (0, mx), None, False)"

abbreviation cell_steps :: "cell \<Rightarrow> cell \<Rightarrow> bool" where
  "cell_steps \<equiv> cell_step\<^sup>*\<^sup>*"

definition cell_at :: "mailbox \<Rightarrow> uuid \<Rightarrow> cell" where
  "cell_at m i = (waiting m i, leased m i, i \<in> dead m)"

fun put_cell :: "uuid \<Rightarrow> cell \<Rightarrow> mailbox \<Rightarrow> mailbox" where
  "put_cell i (w, l, d) m =
     m\<lparr>waiting := (waiting m)(i := w), leased := (leased m)(i := l), dead := (if d then insert i (dead m) else dead m - {i})\<rparr>"

lemma cell_at_put: "cell_at (put_cell i c m) j = (if j = i then c else cell_at m j)"
  by (cases c) (auto simp: cell_at_def)

lemma mailbox_eqI:
  assumes "\<And>i. cell_at m i = cell_at m' i"
  shows "m = m'"
proof (rule mailbox.equality)
  show "waiting m = waiting m'" "leased m = leased m'" "dead m = dead m'"
    using assms by (auto simp: cell_at_def fun_eq_iff)
qed simp

lemma cell_step_lift:
  assumes "cell_step (cell_at m i) c"
  shows "mailbox_step m (put_cell i c m)"
proof -
  have same: "(if i \<in> dead m then insert i (dead m) else dead m - {i}) = dead m" by auto
  from assms show ?thesis
  proof (cases rule: cell_step.cases)
    case (1 mx d)
    then have "put_cell i c m = m\<lparr>waiting := (waiting m)(i \<mapsto> (0, mx))\<rparr>"
      using same by (auto simp: cell_at_def fun_upd_idem)
    then show ?thesis using 1 put [of m i mx] by (simp add: cell_at_def)
  next
    case (2 k mx l d c')
    then have "put_cell i c m = m\<lparr>waiting := (waiting m)(i := None), leased := (leased m)(i \<mapsto> (c', k, mx))\<rparr>"
      using same by (auto simp: cell_at_def)
    then show ?thesis using 2 take [of m i k mx c'] by (simp add: cell_at_def)
  next
    case (3 w c' k mx d)
    then have "put_cell i c m = m\<lparr>leased := (leased m)(i := None)\<rparr>"
      using same by (auto simp: cell_at_def fun_upd_idem)
    then show ?thesis using 3 ack [of m i c' k mx] by (simp add: cell_at_def)
  next
    case (4 k mx w c' d)
    then have "put_cell i c m = m\<lparr>leased := (leased m)(i := None), waiting := (waiting m)(i \<mapsto> (k + 1, mx))\<rparr>"
      using same by (auto simp: cell_at_def)
    then show ?thesis using 4 retry [of m i c' k mx] by (simp add: cell_at_def)
  next
    case (5 mx k w c' d)
    then have "put_cell i c m = m\<lparr>leased := (leased m)(i := None), dead := insert i (dead m)\<rparr>"
      by (auto simp: cell_at_def fun_upd_idem)
    then show ?thesis using 5 bury [of m i c' k mx] by (simp add: cell_at_def)
  next
    case (6 k mx l d)
    then have "put_cell i c m = m\<lparr>waiting := (waiting m)(i \<mapsto> (0, mx))\<rparr>"
      using same by (auto simp: cell_at_def fun_upd_idem)
    then show ?thesis using 6 restart [of m i k mx] by (simp add: cell_at_def)
  next
    case (7 mx)
    then have "put_cell i c m = m\<lparr>waiting := (waiting m)(i \<mapsto> (0, mx)), dead := dead m - {i}\<rparr>"
      by (auto simp: cell_at_def fun_upd_idem)
    then show ?thesis using 7 revive [of i m mx] by (simp add: cell_at_def)
  qed
qed

lemma cell_steps_lift: "cell_steps (cell_at m i) c \<Longrightarrow> mailbox_steps m (put_cell i c m)"
proof (induction rule: rtranclp_induct)
  case base
  have "put_cell i (cell_at m i) m = m" by (rule mailbox_eqI) (simp add: cell_at_put)
  then show ?case by simp
next
  case (step c c')
  have "put_cell i c' (put_cell i c m) = put_cell i c' m" by (rule mailbox_eqI) (simp add: cell_at_put)
  moreover have "mailbox_step (put_cell i c m) (put_cell i c' (put_cell i c m))"
    using step.hyps(2) by (intro cell_step_lift) (simp add: cell_at_put)
  ultimately show ?case using step.IH by simp
qed

lemma cells_run:
  assumes "finite D" and "\<And>i. i \<notin> D \<Longrightarrow> cell_at m i = cell_at m' i"
    and "\<And>i. cell_steps (cell_at m i) (cell_at m' i)"
  shows "mailbox_steps m m'"
  using assms
proof (induction D arbitrary: m' rule: finite_induct)
  case empty
  then have "m = m'" by (intro mailbox_eqI) simp
  then show ?case by simp
next
  case (insert i D)
  let ?m = "put_cell i (cell_at m i) m'"
  have "mailbox_steps m ?m"
    using insert.prems by (intro insert.IH) (auto simp: cell_at_put)
  moreover have "put_cell i (cell_at m' i) ?m = m'" by (rule mailbox_eqI) (simp add: cell_at_put)
  then have "mailbox_steps ?m m'"
    using cell_steps_lift [of ?m i "cell_at m' i"] insert.prems(2) [of i] by (simp add: cell_at_put)
  ultimately show ?case by (rule rtranclp_trans)
qed

section \<open>Refinement\<close>

text \<open>
  An implementation: its steps, its invariant and the mailbox a state stands for.  Every step of the
  implementation is a run of the mailbox, so every reachable state stands for a mailbox
  that the promises allow.
\<close>

locale mailbox_refinement =
  fixes step :: "'s \<Rightarrow> 's \<Rightarrow> bool" and inv :: "'s \<Rightarrow> bool" and abs :: "'s \<Rightarrow> mailbox"
  assumes step_inv: "inv s \<Longrightarrow> step s s' \<Longrightarrow> inv s'"
    and step_sim: "inv s \<Longrightarrow> step s s' \<Longrightarrow> mailbox_steps (abs s) (abs s')"
begin

lemma steps_sim:
  assumes "step\<^sup>*\<^sup>* s s'" and "inv s"
  shows "inv s' \<and> mailbox_steps (abs s) (abs s')"
  using assms
proof (induction rule: rtranclp_induct)
  case (step y z)
  then show ?case using step_inv [of y z] step_sim [of y z] by (meson rtranclp_trans)
qed simp

lemma steps_ok:
  assumes "step\<^sup>*\<^sup>* s s'" and "inv s" and "mailbox_ok (abs s)"
  shows "mailbox_ok (abs s')"
  using steps_sim [OF assms(1,2)] assms(3) mailbox_steps_ok by blast

end

end
