(* ===== verification/ChannelRefines.thy ===== *)
theory ChannelRefines
  imports ChannelMachine Mailbox
begin

text \<open>
  A channel's tables refine the mailbox: every transaction that writes them, whatever its clock, locks
  and driver, is a run of mailbox steps on the messages it touches.
\<close>

section \<open>The mailbox of a channel\<close>

definition row_of :: "channel_row list \<Rightarrow> uuid \<Rightarrow> channel_row option" where
  "row_of rows = map_of (map (\<lambda>r. (id r, r)) rows)"

definition row_waiting :: "Queue \<Rightarrow> channel_row \<Rightarrow> (int \<times> int) option" where
  "row_waiting pq r = (if status r = MessageStatusPending then Some (retry_count r, effective_max pq r) else None)"

definition row_leased :: "Queue \<Rightarrow> channel_row \<Rightarrow> (uuid \<times> int \<times> int) option" where
  "row_leased pq r =
     (if status r = MessageStatusProcessing then Some (the (claim_id r), retry_count r, effective_max pq r) else None)"

definition channel_abs :: "Queue \<Rightarrow> channel_tables \<Rightarrow> mailbox" where
  "channel_abs pq t =
     \<lparr>waiting = (\<lambda>i. Option.bind (row_of (msgs t) i) (row_waiting pq)),
      leased = (\<lambda>i. Option.bind (row_of (msgs t) i) (row_leased pq)),
      dead = d_original_message_id ` set (dlq t)\<rparr>"

definition row_cell :: "Queue \<Rightarrow> bool \<Rightarrow> channel_row option \<Rightarrow> cell" where
  "row_cell pq d r = (Option.bind r (row_waiting pq), Option.bind r (row_leased pq), d)"


definition evolves :: "Queue \<Rightarrow> channel_tables \<Rightarrow> channel_tables \<Rightarrow> bool" where
  "evolves pq t t' \<longleftrightarrow> (\<forall>i. cell_steps (cell_at (channel_abs pq t) i) (cell_at (channel_abs pq t') i))"

lemma evolves_refl [simp]: "evolves pq t t"
  by (simp add: evolves_def)






section \<open>Row changes\<close>







lemma row_cell_Some [simp]: "row_cell pq d (Some r) = (row_waiting pq r, row_leased pq r, d)"
  by (simp add: row_cell_def)








section \<open>Burying and inserting\<close>








section \<open>Operations\<close>









section \<open>A scan\<close>








section \<open>Batches and the collector\<close>









section \<open>Every run\<close>





end
