(* ===== verification/Stats.thy ===== *)
theory Stats
  imports Pubsub Names
begin

text \<open>
  \<^verbatim>\<open>stats.go\<close>: the aggregate queries on a queue and on its subscribers.  An aggregate over no rows is
  NULL, here \<open>None\<close>.  Seconds are float64 values, which may be infinite or NaN; the finite ones are
  rationals, rounded by the environment's \<^verbatim>\<open>float64\<close>.
\<close>

section \<open>Aggregates\<close>

datatype go_float = Fin rat | PosInf | NegInf | NaN

definition sql_min :: "int list \<Rightarrow> int option" where
  "sql_min xs = (case xs of [] \<Rightarrow> None | y # ys \<Rightarrow> Some (fold min ys y))"

definition sql_max :: "int list \<Rightarrow> int option" where
  "sql_max xs = (case xs of [] \<Rightarrow> None | y # ys \<Rightarrow> Some (fold max ys y))"

definition sql_avg :: "rat list \<Rightarrow> rat option" where
  "sql_avg xs = (if xs = [] then None else Some (sum_list xs / of_nat (length xs)))"

text \<open>\<^verbatim>\<open>EXTRACT(EPOCH FROM d)\<close> of an interval in microseconds, and a NULL or numeric column read as float64.\<close>

definition epoch :: "int \<Rightarrow> rat" where
  "epoch d = of_int d / 1000000"

definition scan_float :: "env \<Rightarrow> rat option \<Rightarrow> go_float option" where
  "scan_float env x = map_option (\<lambda>v. Fin (float64 env v)) x"

section \<open>Durations\<close>

definition maxProcessingTimeSeconds :: rat where
  "maxProcessingTimeSeconds = 100 * (36525 / 100) * 24 * 3600"

fun clampSeconds :: "go_float \<Rightarrow> rat" where
  "clampSeconds (Fin v) = (if v < 0 then 0 else if v > maxProcessingTimeSeconds then maxProcessingTimeSeconds else v)"
| "clampSeconds PosInf = maxProcessingTimeSeconds"
| "clampSeconds NegInf = 0"
| "clampSeconds NaN = 0"

definition secondsToProcessingTime :: "env \<Rightarrow> go_float option \<Rightarrow> duration option" where
  "secondsToProcessingTime env secs =
     map_option (\<lambda>v. float64_to_int64 env (float64 env (clampSeconds v * of_int time_Second))) secs"

definition secondsToAge :: "env \<Rightarrow> go_float option \<Rightarrow> duration option" where
  "secondsToAge env secs =
     map_option (\<lambda>v. float64_to_int64 env (float64 env (clampSeconds v * of_int time_Second))) secs"

section \<open>Queue statistics\<close>

record QueueStats =
  statsQueueName :: string
  PendingCount :: int
  ProcessingCount :: int
  CompletedCount :: int
  DLQCount :: int
  AvgProcessingTime :: "duration option"
  OldestPendingAge :: "duration option"

definition getChannelStats :: "env \<Rightarrow> string \<Rightarrow> (channel_tables, QueueStats) txm" where
  "getChannelStats env name =
     autocommit env (\<lambda>n t.
       (\<lparr>statsQueueName = name,
         PendingCount = int (sql_count (\<lambda>r. status r = MessageStatusPending) (msgs t)),
         ProcessingCount = int (sql_count (\<lambda>r. status r = MessageStatusProcessing) (msgs t)),
         CompletedCount = int (sql_count (\<lambda>r. status r = MessageStatusCompleted) (msgs t)),
         DLQCount = int (length (dlq t)),
         AvgProcessingTime = secondsToProcessingTime env (scan_float env (sql_avg
           [epoch (p - created_at r). r \<leftarrow> msgs t, Some p \<leftarrow> [processed_at r]])),
         OldestPendingAge = secondsToAge env (scan_float env (map_option (\<lambda>c. epoch (NOW env - c))
           (sql_min (map created_at (filter (\<lambda>r. status r = MessageStatusPending) (msgs t))))))\<rparr>, t))"

definition getPubSubStats :: "env \<Rightarrow> string \<Rightarrow> (topic_tables, QueueStats) txm" where
  "getPubSubStats env name =
     autocommit env (\<lambda>n t.
       (\<lparr>statsQueueName = name,
         PendingCount = int (sql_count (\<lambda>s. s_status s = MessageStatusPending) (subs t)),
         ProcessingCount = int (sql_count (\<lambda>s. s_status s = MessageStatusProcessing) (subs t)),
         CompletedCount = int (sql_count (\<lambda>s. s_status s = MessageStatusAcked) (subs t)),
         DLQCount = int (length (tdlq t)),
         AvgProcessingTime = secondsToProcessingTime env (scan_float env (sql_avg
           [epoch (p - s_created_at s). s \<leftarrow> subs t, Some p \<leftarrow> [s_acked_at s]])),
         OldestPendingAge = secondsToAge env (scan_float env (map_option (\<lambda>c. epoch (NOW env - c))
           (sql_min (map s_created_at (filter (\<lambda>s. s_status s = MessageStatusPending) (subs t))))))\<rparr>, t))"

text \<open>\<^verbatim>\<open>queueDepthQuery\<close>: the delivery predicate of the consume queries, without their row locks.\<close>

definition channelDepth :: "env \<Rightarrow> duration \<Rightarrow> channel_tables \<Rightarrow> int" where
  "channelDepth env ttl t =
     int (sql_count (\<lambda>r. status r = MessageStatusPending \<and> available_at r \<le> NOW env \<and>
       (ttl > 0 \<longrightarrow> created_at r > NOW env - make_interval env ttl)) (msgs t))"

definition topicDepth :: "env \<Rightarrow> duration \<Rightarrow> topic_tables \<Rightarrow> int" where
  "topicDepth env ttl t =
     (if ttl > 0 then
        int (sql_count (\<lambda>(s, m). s_status s = MessageStatusPending \<and> s_available_at s \<le> NOW env \<and>
          t_created_at m > NOW env - make_interval env ttl) (joined t))
      else int (sql_count (\<lambda>s. s_status s = MessageStatusPending \<and> s_available_at s \<le> NOW env) (subs t)))"

definition consumableDepth :: "Queue \<Rightarrow> env \<Rightarrow> string \<Rightarrow> QueueType \<Rightarrow> config_json \<Rightarrow> (db, int) txm" where
  "consumableDepth pq env tbl qt config =
     (let ttl = getQueueTTL pq config in
      if qt = QueueTypeChannel then onChannel env tbl (autocommit env (\<lambda>n t. (channelDepth env ttl t, t)))
      else onTopic env tbl (autocommit env (\<lambda>n t. (topicDepth env ttl t, t))))"

definition QueueDepth :: "Queue \<Rightarrow> env \<Rightarrow> string \<Rightarrow> QueueType \<Rightarrow> (sys, int) txm" where
  "QueueDepth pq env name qt =
     bindT (checkClosed pq) (\<lambda>_.
     bindT (getQueueMetadata env qt name) (\<lambda>meta.
       onDb (consumableDepth pq env (metaTableName meta) qt (metaConfig meta))))"

definition queueStats :: "Queue \<Rightarrow> env \<Rightarrow> string \<Rightarrow> QueueType \<Rightarrow> (sys, QueueStats) txm" where
  "queueStats pq env name qt =
     bindT (checkClosed pq) (\<lambda>_.
     bindT (getQueueMetadata env qt name) (\<lambda>meta.
     bindT (onDb (if qt = QueueTypeChannel then onChannel env (metaTableName meta) (getChannelStats env name)
                  else onTopic env (metaTableName meta) (getPubSubStats env name))) (\<lambda>stats.
     bindT (onDb (consumableDepth pq env (metaTableName meta) qt (metaConfig meta))) (\<lambda>depth.
     returnT stats))))"

section \<open>Dead letters\<close>

record DLQStats =
  dsQueueName :: string
  TotalCount :: int
  OldestMovedAt :: "timestamp option"
  NewestMovedAt :: "timestamp option"
  AvgRetryCount :: rat

definition dlqAggregate :: "env \<Rightarrow> string \<Rightarrow> dlq_row list \<Rightarrow> DLQStats" where
  "dlqAggregate env name rows =
     \<lparr>dsQueueName = name, TotalCount = int (length rows), OldestMovedAt = sql_min (map d_moved_at rows),
      NewestMovedAt = sql_max (map d_moved_at rows),
      AvgRetryCount = (case sql_avg (map (\<lambda>d. of_int (d_retry_count d)) rows) of None \<Rightarrow> 0 | Some v \<Rightarrow> float64 env v)\<rparr>"

definition queueDLQStats :: "Queue \<Rightarrow> env \<Rightarrow> string \<Rightarrow> QueueType \<Rightarrow> (sys, DLQStats) txm" where
  "queueDLQStats pq env name qt =
     bindT (checkClosed pq) (\<lambda>_.
     bindT (getQueueMetadata env qt name) (\<lambda>meta.
       onDb (if qt = QueueTypePubSub
             then onTopic env (metaTableName meta) (autocommit env (\<lambda>n t. (dlqAggregate env name (tdlq t), t)))
             else onChannel env (metaTableName meta) (autocommit env (\<lambda>n t. (dlqAggregate env name (dlq t), t))))))"

section \<open>Subscribers\<close>

record SubscriberLag =
  lagSubscriberID :: string
  lagTopicName :: string
  lagPending :: int
  lagProcessing :: int
  lagAcked :: int
  lagOldestPendingAge :: "duration option"

definition lagAggregate :: "env \<Rightarrow> string \<Rightarrow> string \<Rightarrow> sub_row list \<Rightarrow> SubscriberLag" where
  "lagAggregate env topicName sid rows =
     (let mine = filter (\<lambda>s. s_subscriber_id s = sid) rows in
      \<lparr>lagSubscriberID = sid, lagTopicName = topicName,
       lagPending = int (sql_count (\<lambda>s. s_status s = MessageStatusPending) mine),
       lagProcessing = int (sql_count (\<lambda>s. s_status s = MessageStatusProcessing) mine),
       lagAcked = int (sql_count (\<lambda>s. s_status s = MessageStatusAcked) mine),
       lagOldestPendingAge = secondsToAge env (scan_float env (map_option (\<lambda>c. epoch (NOW env - c))
         (sql_min (map s_created_at (filter (\<lambda>s. s_status s = MessageStatusPending) mine)))))\<rparr>)"

definition topicQuery ::
    "Queue \<Rightarrow> env \<Rightarrow> string \<Rightarrow> string \<Rightarrow> (sub_row list \<Rightarrow> 'a) \<Rightarrow> (sys, 'a) txm" where
  "topicQuery pq env topicName sid f =
     bindT (checkClosed pq) (\<lambda>_.
     bindT (liftE (validateSubscriberID sid)) (\<lambda>_.
     bindT (notFoundAs ErrTopicNotFound (getQueueMetadata env QueueTypePubSub topicName)) (\<lambda>meta.
       onDb (onTopic env (metaTableName meta) (autocommit env (\<lambda>n t. (f (subs t), t)))))))"

definition subscriberLag :: "Queue \<Rightarrow> env \<Rightarrow> string \<Rightarrow> string \<Rightarrow> (sys, SubscriberLag) txm" where
  "subscriberLag pq env topicName sid = topicQuery pq env topicName sid (lagAggregate env topicName sid)"

record SubscriberHealth =
  shTopicName :: string
  shSubscriberID :: string
  PendingMessages :: int
  StuckMessages :: int
  OldestPending :: "timestamp option"
  LastActivity :: "timestamp option"

definition stuck :: "env \<Rightarrow> sub_row \<Rightarrow> bool" where
  "stuck env s \<longleftrightarrow> s_status s = MessageStatusProcessing \<and> expired_at (NOW env) (s_visibility_timeout s)"

definition healthAggregate :: "env \<Rightarrow> string \<Rightarrow> string \<Rightarrow> sub_row list \<Rightarrow> SubscriberHealth" where
  "healthAggregate env topicName sid rows =
     (let mine = filter (\<lambda>s. s_subscriber_id s = sid) rows in
      \<lparr>shTopicName = topicName, shSubscriberID = sid,
       PendingMessages = int (sql_count (\<lambda>s. s_status s = MessageStatusPending) mine),
       StuckMessages = int (sql_count (stuck env) mine),
       OldestPending = sql_min (map s_created_at (filter (\<lambda>s. s_status s = MessageStatusPending) mine)),
       LastActivity = sql_max [a. s \<leftarrow> mine, Some a \<leftarrow> [s_acked_at s]]\<rparr>)"

definition subscriberHealth :: "Queue \<Rightarrow> env \<Rightarrow> string \<Rightarrow> string \<Rightarrow> (sys, SubscriberHealth) txm" where
  "subscriberHealth pq env topicName sid = topicQuery pq env topicName sid (healthAggregate env topicName sid)"

text \<open>
  The HAVING clause, and the groups of \<^verbatim>\<open>GROUP BY subscriber_id\<close>, which SQL may list in any order; a
  comparison with NULL does not hold.
\<close>

definition unhealthy :: "env \<Rightarrow> duration \<Rightarrow> SubscriberHealth \<Rightarrow> bool" where
  "unhealthy env threshold h \<longleftrightarrow>
     StuckMessages h > 0 \<or>
     (case OldestPending h of None \<Rightarrow> False | Some c \<Rightarrow> c < NOW env - make_interval env threshold)"

definition findUnhealthyForTopic :: "env \<Rightarrow> string \<Rightarrow> string \<Rightarrow> duration \<Rightarrow> (db, SubscriberHealth list) txm" where
  "findUnhealthyForTopic env topicName tbl threshold =
     onTopic env tbl (autocommit env (\<lambda>n t.
       (filter (unhealthy env threshold)
          (map (\<lambda>sid. healthAggregate env topicName sid (subs t)) (remdups (map s_subscriber_id (subs t)))), t)))"

fun unhealthyTopics ::
    "env \<Rightarrow> duration \<Rightarrow> queueMetadata list \<Rightarrow> SubscriberHealth list \<Rightarrow> (db, SubscriberHealth list) txm" where
  "unhealthyTopics env threshold [] acc = returnT acc"
| "unhealthyTopics env threshold (m # ms) acc =
     bindT (findUnhealthyForTopic env (metaQueueName m) (metaTableName m) threshold)
       (\<lambda>subs. unhealthyTopics env threshold ms (acc @ subs))"

definition UnhealthySubscribers :: "Queue \<Rightarrow> env \<Rightarrow> duration \<Rightarrow> (sys, SubscriberHealth list) txm" where
  "UnhealthySubscribers pq env threshold =
     bindT (checkClosed pq) (\<lambda>_.
     onDb (bindT (autocommit env (\<lambda>n d.
             (filter (\<lambda>m. metaQueueType m = QueueTypePubSub) (pgqueue_metadata d), d)))
           (\<lambda>topics. unhealthyTopics env threshold topics [])))"

end
