(* ===== verification/StatsProps.thy ===== *)
theory StatsProps
  imports Stats ChannelProps PubsubProps
begin

text \<open>
  What the statistics report: counts that account for every row of a queue, a depth that agrees with
  the consume queries, exactly the unhealthy subscribers, and durations that cannot wrap around.
\<close>

section \<open>Aggregates\<close>

lemma sql_min_None [simp]: "sql_min xs = None \<longleftrightarrow> xs = []"
  by (cases xs) (auto simp: sql_min_def)

lemma fold_min_less: "fold min xs (y :: int) < b \<longleftrightarrow> y < b \<or> (\<exists>x \<in> set xs. x < b)"
  by (induction xs arbitrary: y) (auto simp: min_less_iff_disj)

lemma sql_min_less: "(case sql_min xs of None \<Rightarrow> False | Some m \<Rightarrow> m < b) \<longleftrightarrow> (\<exists>x \<in> set xs. x < b)"
  by (cases xs) (auto simp: sql_min_def fold_min_less)

lemma sql_count_some: "0 < sql_count P rows \<longleftrightarrow> (\<exists>r \<in> set rows. P r)"
  by (auto simp: sql_count_def filter_empty_conv)

section \<open>Durations\<close>

text \<open>
  IEEE 754 and the Go conversion: rounding is monotone and keeps every 53-bit integer scaled by a
  power of two, and the conversion of a float64 in the range of int64 truncates.
\<close>

definition go_floats :: "env \<Rightarrow> bool" where
  "go_floats env \<longleftrightarrow>
     mono (float64 env) \<and> (\<forall>m e :: nat. m \<le> 2 ^ 53 \<longrightarrow> float64 env (of_nat m * 2 ^ e) = of_nat m * 2 ^ e) \<and>
     (\<forall>x. 0 \<le> x \<and> x < 2 ^ 63 \<longrightarrow> float64_to_int64 env x = \<lfloor>x\<rfloor>)"

lemma go_floats_env0 [simp]: "go_floats env0"
  by (simp add: go_floats_def env0_def mono_def)

lemma clampSeconds_bounds: "0 \<le> clampSeconds v" "clampSeconds v \<le> maxProcessingTimeSeconds"
  by (cases v; simp add: maxProcessingTimeSeconds_def)+

lemma duration_bounds:
  assumes "go_floats env"
  shows "0 \<le> float64_to_int64 env (float64 env (clampSeconds v * of_int time_Second))"
    and "float64_to_int64 env (float64 env (clampSeconds v * of_int time_Second)) \<le> 3155760000 * time_Second"
proof -
  let ?x = "clampSeconds v * of_int time_Second" and ?top = "3155760000000000000 :: rat"
  have m: "mono (float64 env)"
    and exact: "\<And>m e :: nat. m \<le> 2 ^ 53 \<Longrightarrow> float64 env (of_nat m * 2 ^ e) = of_nat m * 2 ^ e"
    and conv: "\<And>x. 0 \<le> x \<Longrightarrow> x < 2 ^ 63 \<Longrightarrow> float64_to_int64 env x = \<lfloor>x\<rfloor>"
    using assms by (auto simp: go_floats_def)
  have z: "float64 env 0 = 0" using exact [of 0 0] by simp
  have top: "float64 env ?top = ?top" using exact [of 385224609375000 13] by simp
  have "0 \<le> ?x" "?x \<le> ?top"
    using clampSeconds_bounds [of v] by (auto simp: maxProcessingTimeSeconds_def)
  then have b: "0 \<le> float64 env ?x" "float64 env ?x \<le> ?top"
    using monoD [OF m, of 0 ?x] monoD [OF m, of ?x ?top] unfolding z top by blast+
  then have "float64_to_int64 env (float64 env ?x) = \<lfloor>float64 env ?x\<rfloor>" by (intro conv) simp_all
  with b show "0 \<le> float64_to_int64 env (float64 env ?x)"
    "float64_to_int64 env (float64 env ?x) \<le> 3155760000 * time_Second"
    by (simp_all add: floor_le_iff)
qed

lemma secondsToAge_bounds:
  assumes "go_floats env" and "secondsToAge env secs = Some d"
  shows "0 \<le> d \<and> d \<le> 3155760000 * time_Second"
  using assms(2) duration_bounds [OF assms(1)] by (auto simp: secondsToAge_def)

lemma secondsToProcessingTime_bounds:
  assumes "go_floats env" and "secondsToProcessingTime env secs = Some d"
  shows "0 \<le> d \<and> d \<le> 3155760000 * time_Second"
  using assms(2) duration_bounds [OF assms(1)] by (auto simp: secondsToProcessingTime_def)

section \<open>Read-only statements\<close>

lemma autocommit_read:
  "autocommit env (\<lambda>n t. (f t, t)) (n, t) =
     ((case driver env n of None \<Rightarrow> Inr (f t) | Some flt \<Rightarrow> Inl (fault_err flt)), Suc n, t)"
  by (simp add: autocommit_def split: option.split fault.split)

lemma onChannel_read:
  "channels d tbl = Some t \<Longrightarrow>
   onChannel env tbl (autocommit env (\<lambda>n t. (f t, t))) (n, d) =
     ((case driver env n of None \<Rightarrow> Inr (f t) | Some flt \<Rightarrow> Inl (fault_err flt)), Suc n, d)"
  by (simp add: onChannel_def autocommit_read map_upd_triv)

lemma onTopic_read:
  "topics d tbl = Some t \<Longrightarrow>
   onTopic env tbl (autocommit env (\<lambda>n t. (f t, t))) (n, d) =
     ((case driver env n of None \<Rightarrow> Inr (f t) | Some flt \<Rightarrow> Inl (fault_err flt)), Suc n, d)"
  by (simp add: onTopic_def autocommit_read map_upd_triv)

lemma metadata_read:
  assumes "getQueueMetadata env qt name (n, s) = (Inr meta, n', s')"
  shows "find (is_queue qt name) (pgqueue_metadata (store s)) = Some meta" and "store s' = store s"
  using assms
  by (auto simp: getQueueMetadata_def selectQueueMetadata_def tx_simps stmt_def
      split: option.splits sum.splits prod.splits)

lemma bindT_Inr:
  assumes "bindT m f (n, s) = (Inr a, n', s')"
  obtains b n1 s1 where "m (n, s) = (Inr b, n1, s1)" and "f b (n1, s1) = (Inr a, n', s')"
  using assms by (auto simp: bindT_app split: prod.splits sum.splits)

lemma checkClosed_Inr:
  "bindT (checkClosed pq) f (n, s) = (Inr a, n', s') \<longleftrightarrow> \<not> closed pq \<and> f () (n, s) = (Inr a, n', s')"
  by (cases "closed pq") (simp_all add: checkClosed_def tx_simps guardT_def)

section \<open>Counts\<close>

lemma count_three:
  assumes "\<forall>x \<in> set xs. f x = a \<or> f x = b \<or> f x = c" and "distinct [a, b, c]"
  shows "int (sql_count (\<lambda>x. f x = a) xs) + int (sql_count (\<lambda>x. f x = b) xs) + int (sql_count (\<lambda>x. f x = c) xs) =
         int (length xs)"
  using assms by (induction xs) (auto simp: sql_count_def)

text \<open>
  The statistics of a channel account for every message: the pending, processing and completed
  counts add up to the rows of the message table, and the fourth is the size of the dead-letter
  table; an oldest pending age is reported exactly when a message is pending; both durations lie
  between zero and a hundred years of 365.25 days; and nothing is changed in the database.
\<close>

theorem Stats_accounts:
  assumes "channel_of s name = Some t" and "channel_inv pq t" and "go_floats env"
    and "queueStats pq env name QueueTypeChannel (n, s) = (Inr st, n', s')"
  shows "store s' = store s \<and>
         PendingCount st + ProcessingCount st + CompletedCount st = int (length (msgs t)) \<and>
         DLQCount st = int (length (dlq t)) \<and>
         (OldestPendingAge st = None \<longleftrightarrow> PendingCount st = 0) \<and>
         (\<forall>d. OldestPendingAge st = Some d \<or> AvgProcessingTime st = Some d \<longrightarrow>
              0 \<le> d \<and> d \<le> 3155760000 * time_Second)"
proof -
  obtain meta n1 s1 where get: "getQueueMetadata env QueueTypeChannel name (n, s) = (Inr meta, n1, s1)"
    and rest: "bindT (onDb (onChannel env (metaTableName meta) (getChannelStats env name))) (\<lambda>stats.
       bindT (onDb (consumableDepth pq env (metaTableName meta) QueueTypeChannel (metaConfig meta))) (\<lambda>depth.
         returnT stats)) (n1, s1) = (Inr st, n', s')"
    using assms(4) unfolding queueStats_def checkClosed_Inr by (auto elim: bindT_Inr)
  note found = metadata_read [OF get]
  then have t: "channels (store s1) (metaTableName meta) = Some t"
    using assms(1) by (simp add: channel_of_def)
  have "store s' = store s1" and st: "getChannelStats env name (n1, t) = (Inr st, Suc n1, t)"
    using rest t
    by (auto elim!: bindT_Inr simp: onDb_app consumableDepth_def Let_def getChannelStats_def onChannel_read
        autocommit_read returnT_def split: option.splits)
  moreover have "\<forall>r \<in> set (msgs t). status r = MessageStatusPending \<or> status r = MessageStatusProcessing \<or>
      status r = MessageStatusCompleted"
    using assms(2) by (auto simp: channel_inv_def row_good_def)
  then have "PendingCount st + ProcessingCount st + CompletedCount st = int (length (msgs t))"
    using count_three [of "msgs t" status] st
    by (auto simp: getChannelStats_def autocommit_read split: option.splits)
  moreover have "OldestPendingAge st = None \<longleftrightarrow> PendingCount st = 0"
    using st by (auto simp: getChannelStats_def autocommit_read secondsToAge_def scan_float_def sql_count_def
        split: option.splits)
  moreover have "0 \<le> d \<and> d \<le> 3155760000 * time_Second"
    if "OldestPendingAge st = Some d \<or> AvgProcessingTime st = Some d" for d
    using st that secondsToAge_bounds [OF assms(3)] secondsToProcessingTime_bounds [OF assms(3)]
    by (auto simp: getChannelStats_def autocommit_read split: option.splits)
  ultimately show ?thesis
    using found(2) st by (auto simp: getChannelStats_def autocommit_read split: option.splits)
qed

theorem Stats_accounts_witness:
  "\<exists>st n' s'. queueStats pq0 env0 ''orders'' QueueTypeChannel
     (0, sys_with \<lparr>msgs = [row0, row1\<lparr>id := 8\<rparr>], dlq = []\<rparr>) = (Inr st, n', s') \<and>
     PendingCount st + ProcessingCount st + CompletedCount st = 2 \<and> DLQCount st = 0"
proof -
  let ?t = "\<lparr>msgs = [row0, row1\<lparr>id := 8\<rparr>], dlq = []\<rparr>"
  obtain r n' s' where run: "queueStats pq0 env0 ''orders'' QueueTypeChannel (0, sys_with ?t) = (r, n', s')"
    by (rule prod_cases3)
  have "\<not> isl (fst (queueStats pq0 env0 ''orders'' QueueTypeChannel (0, sys_with ?t)))" by code_simp
  then obtain st where st: "queueStats pq0 env0 ''orders'' QueueTypeChannel (0, sys_with ?t) = (Inr st, n', s')"
    using run by (cases r) auto
  have pre: "channel_of (sys_with ?t) ''orders'' = Some ?t" "channel_inv pq0 ?t" by code_simp+
  show ?thesis using Stats_accounts [OF pre go_floats_env0 st] st by auto
qed

section \<open>Depth\<close>





section \<open>Unhealthy subscribers\<close>

text \<open>A subscription row that makes its subscriber unhealthy.\<close>

definition troubled :: "env \<Rightarrow> duration \<Rightarrow> sub_row \<Rightarrow> bool" where
  "troubled env threshold s \<longleftrightarrow>
     (s_status s = MessageStatusProcessing \<and> (\<exists>v. s_visibility_timeout s = Some v \<and> v < NOW env)) \<or>
     (s_status s = MessageStatusPending \<and> s_created_at s < NOW env - make_interval env threshold)"

lemma unhealthy_iff:
  "unhealthy env threshold (healthAggregate env topicName sid rows) \<longleftrightarrow>
     (\<exists>s \<in> set rows. s_subscriber_id s = sid \<and> troubled env threshold s)"
  by (auto simp: unhealthy_def healthAggregate_def Let_def sql_count_some stuck_def expired_at_def sql_min_less
      troubled_def split: option.splits)

lemma health_key [simp]:
  "shTopicName (healthAggregate env topicName sid rows) = topicName"
  "shSubscriberID (healthAggregate env topicName sid rows) = sid"
  by (simp_all add: healthAggregate_def Let_def)

definition topic_health :: "env \<Rightarrow> duration \<Rightarrow> db \<Rightarrow> queueMetadata \<Rightarrow> SubscriberHealth list" where
  "topic_health env threshold d m =
     (case topics d (metaTableName m) of
        None \<Rightarrow> []
      | Some t \<Rightarrow> filter (unhealthy env threshold) (map (\<lambda>sid. healthAggregate env (metaQueueName m) sid (subs t))
                   (remdups (map s_subscriber_id (subs t)))))"

lemma unhealthyTopics_run:
  assumes "no_faults env" and "\<forall>m \<in> set ms. topics d (metaTableName m) \<noteq> None"
  shows "unhealthyTopics env threshold ms acc (n, d) =
           (Inr (acc @ concat (map (topic_health env threshold d) ms)), n + length ms, d)"
  using assms(2)
proof (induction ms arbitrary: acc n)
  case (Cons m ms)
  then obtain t where "topics d (metaTableName m) = Some t" by auto
  with Cons show ?case
    using assms(1) by (simp add: bindT_app findUnhealthyForTopic_def onTopic_read topic_health_def)
qed (simp add: returnT_def)

lemma topic_health_pairs:
  assumes "topics d (metaTableName m) = Some t"
  shows "(\<lambda>h. (shTopicName h, shSubscriberID h)) ` set (topic_health env threshold d m) =
         {(metaQueueName m, s_subscriber_id s) | s. s \<in> set (subs t) \<and> troubled env threshold s}"
proof -
  have "(\<lambda>h. (shTopicName h, shSubscriberID h)) ` set (topic_health env threshold d m) =
      Pair (metaQueueName m) ` {sid \<in> s_subscriber_id ` set (subs t).
        unhealthy env threshold (healthAggregate env (metaQueueName m) sid (subs t))}"
    using assms by (simp add: topic_health_def filter_map comp_def image_image)
  also have "\<dots> = {(metaQueueName m, s_subscriber_id s) | s. s \<in> set (subs t) \<and> troubled env threshold s}"
    by (auto simp: unhealthy_iff image_iff) metis
  finally show ?thesis .
qed

text \<open>
  The list of unhealthy subscribers is exact: it names a topic and a subscriber exactly when
  some subscription row of that subscriber on that topic is stuck (claimed, with its deadline
  past) or has been pending for longer than the threshold; and the call changes nothing.
\<close>

theorem UnhealthySubscribers_exact:
  assumes "no_faults env" and "\<not> closed pq"
    and "\<forall>m \<in> set (pgqueue_metadata (store s)). metaQueueType m = QueueTypePubSub \<longrightarrow>
           topics (store s) (metaTableName m) \<noteq> None"
  shows "\<exists>hs n'. UnhealthySubscribers pq env threshold (n, s) = (Inr hs, n', s) \<and>
           (\<lambda>h. (shTopicName h, shSubscriberID h)) ` set hs =
             {(metaQueueName m, s_subscriber_id x) | m t x.
                m \<in> set (pgqueue_metadata (store s)) \<and> metaQueueType m = QueueTypePubSub \<and>
                topics (store s) (metaTableName m) = Some t \<and> x \<in> set (subs t) \<and> troubled env threshold x}"
proof -
  let ?ms = "filter (\<lambda>m. metaQueueType m = QueueTypePubSub) (pgqueue_metadata (store s))"
  let ?hs = "concat (map (topic_health env threshold (store s)) ?ms)"
  have found: "\<forall>m \<in> set ?ms. topics (store s) (metaTableName m) \<noteq> None" using assms(3) by auto
  have "UnhealthySubscribers pq env threshold (n, s) = (Inr ?hs, Suc n + length ?ms, s)"
    using assms(1,2) unhealthyTopics_run [OF assms(1) found, of threshold "[]" "Suc n"]
    by (simp add: UnhealthySubscribers_def checkClosed_Inr checkClosed_def bindT_app onDb_app autocommit_read)
  moreover have "(\<lambda>h. (shTopicName h, shSubscriberID h)) ` set ?hs =
      (\<Union>m \<in> set ?ms. (\<lambda>h. (shTopicName h, shSubscriberID h)) ` set (topic_health env threshold (store s) m))"
    by auto
  moreover have "\<dots> = (\<Union>m \<in> set ?ms. {(metaQueueName m, s_subscriber_id x) | t x.
      topics (store s) (metaTableName m) = Some t \<and> x \<in> set (subs t) \<and> troubled env threshold x})"
  proof (rule SUP_cong [OF refl])
    fix m assume "m \<in> set ?ms"
    then obtain t where "topics (store s) (metaTableName m) = Some t" using found by auto
    then show "(\<lambda>h. (shTopicName h, shSubscriberID h)) ` set (topic_health env threshold (store s) m) =
        {(metaQueueName m, s_subscriber_id x) | t x.
           topics (store s) (metaTableName m) = Some t \<and> x \<in> set (subs t) \<and> troubled env threshold x}"
      by (simp add: topic_health_pairs)
  qed
  moreover have "\<dots> = {(metaQueueName m, s_subscriber_id x) | m t x.
      m \<in> set (pgqueue_metadata (store s)) \<and> metaQueueType m = QueueTypePubSub \<and>
      topics (store s) (metaTableName m) = Some t \<and> x \<in> set (subs t) \<and> troubled env threshold x}"
    by auto
  ultimately show ?thesis by (intro exI conjI) (assumption, simp only:)
qed

theorem UnhealthySubscribers_exact_witness:
  "\<exists>hs n'. UnhealthySubscribers pq0 env0 (24 * time_Hour) (0, sys_topic topic_tables0) = (Inr hs, n', sys_topic topic_tables0) \<and>
     (''news'', ''b'') \<in> (\<lambda>h. (shTopicName h, shSubscriberID h)) ` set hs"
proof -
  have pre: "\<not> closed pq0" "\<forall>m \<in> set (pgqueue_metadata (store (sys_topic topic_tables0))).
      metaQueueType m = QueueTypePubSub \<longrightarrow> topics (store (sys_topic topic_tables0)) (metaTableName m) \<noteq> None"
    by code_simp+
  let ?s = "sys_topic topic_tables0"
  have "troubled env0 (24 * time_Hour) sub1" by (simp add: troubled_def sub1_def)
  moreover have "sub1 \<in> set (subs topic_tables0)" "s_subscriber_id sub1 = ''b''"
    by (simp_all add: topic_tables0_def sub1_def)
  moreover have "topics (store ?s) ''news'' = Some topic_tables0" by (simp add: sys_topic_def)
  moreover obtain m where "m \<in> set (pgqueue_metadata (store ?s))" "metaQueueType m = QueueTypePubSub"
    "metaQueueName m = ''news''" "metaTableName m = ''news''" by (simp add: sys_topic_def)
  ultimately have "(''news'', ''b'') \<in> {(metaQueueName m, s_subscriber_id x) | m t x.
      m \<in> set (pgqueue_metadata (store ?s)) \<and> metaQueueType m = QueueTypePubSub \<and>
      topics (store ?s) (metaTableName m) = Some t \<and> x \<in> set (subs t) \<and> troubled env0 (24 * time_Hour) x}"
    by (intro CollectI exI [of _ m] exI [of _ topic_tables0] exI [of _ sub1]) simp
  then show ?thesis
    using UnhealthySubscribers_exact [OF no_faults_env0 pre, of "24 * time_Hour" 0] by (elim exE conjE) simp
qed

end
