(* ===== verification/Notify.thy ===== *)
theory Notify
  imports Prelude "HOL-Library.AList"
begin

text \<open>
  \<^verbatim>\<open>notify.go\<close>: the notifier, which hands consumers a channel to wait on, confirms one LISTEN per
  notification channel in the background, and fans the listener's stream out to the wakers.
  A \<^verbatim>\<open>*waker\<close> is an address; its heap cell holds the generation of its channel, and closing the
  channel is moving to the next generation.  Goroutines are part of the state, and every critical
  section of \<^verbatim>\<open>n.mu\<close> is one step.
\<close>

section \<open>State\<close>

type_synonym waker_ref = nat
type_synonym wake_chan = "waker_ref \<times> nat"

datatype log_level = Warn | Error

datatype pump_state =
    PumpNotStarted | PumpRunning | PumpHolds waker_ref | PumpWaking "waker_ref list" | PumpDone

datatype close_state =
    CloseNotCalled | CloseMarked | CloseCancelled | CloseListenerClosed
  | CloseWaking "waker_ref list" | CloseWaiting | CloseReturned

record notifier =
  wakers :: "(string \<times> waker_ref) list"
  waker_gen :: "waker_ref \<Rightarrow> nat"
  next_waker :: waker_ref
  listening :: "string \<Rightarrow> bool"
  listenInFlight :: "string \<Rightarrow> bool"
  listenFailures :: "string \<Rightarrow> nat"
  notifierClosed :: bool
  confirming :: "(string \<times> waker_ref) list"
  pumping :: pump_state
  closing :: close_state
  listenLog :: "(log_level \<times> string \<times> nat) list"
  missed :: "string list"

definition newNotifier :: notifier where
  "newNotifier =
     \<lparr>wakers = [], waker_gen = (\<lambda>_. 0), next_waker = 0, listening = (\<lambda>_. False), listenInFlight = (\<lambda>_. False),
      listenFailures = (\<lambda>_. 0), notifierClosed = False, confirming = [], pumping = PumpNotStarted,
      closing = CloseNotCalled, listenLog = [], missed = []\<rparr>"

section \<open>Wakers\<close>

definition newWaker :: "notifier \<Rightarrow> waker_ref \<times> notifier" where
  "newWaker n =
     (next_waker n, n\<lparr>waker_gen := (waker_gen n)(next_waker n := 0), next_waker := Suc (next_waker n)\<rparr>)"

definition waker_wait :: "waker_ref \<Rightarrow> notifier \<Rightarrow> wake_chan" where
  "waker_wait w n = (w, waker_gen n w)"

definition waker_signal :: "waker_ref \<Rightarrow> notifier \<Rightarrow> notifier" where
  "waker_signal w n = n\<lparr>waker_gen := (waker_gen n)(w := Suc (waker_gen n w))\<rparr>"

text \<open>A consumer blocked on a channel returns from it when the channel has been closed.\<close>

definition released :: "wake_chan \<Rightarrow> notifier \<Rightarrow> bool" where
  "released c n \<longleftrightarrow> snd c < waker_gen n (fst c)"

section \<open>Operations\<close>

definition listenEscalateThreshold :: nat where
  "listenEscalateThreshold = 10"

definition lookupWaker :: "string \<Rightarrow> notifier \<Rightarrow> waker_ref \<times> notifier" where
  "lookupWaker ch n =
     (case map_of (wakers n) ch of
        Some w \<Rightarrow> (w, n)
      | None \<Rightarrow> let (w, n) = newWaker n in (w, n\<lparr>wakers := AList.update ch w (wakers n)\<rparr>))"

definition startPump :: "notifier \<Rightarrow> notifier" where
  "startPump n = (if pumping n = PumpNotStarted then n\<lparr>pumping := PumpRunning\<rparr> else n)"

definition startConfirm :: "string \<Rightarrow> waker_ref \<Rightarrow> notifier \<Rightarrow> notifier" where
  "startConfirm ch w n =
     (if \<not> listening n ch \<and> \<not> listenInFlight n ch
      then n\<lparr>listenInFlight := (listenInFlight n)(ch := True), confirming := confirming n @ [(ch, w)]\<rparr>
      else n)"

definition wakeChan :: "string \<Rightarrow> notifier \<Rightarrow> wake_chan option \<times> notifier" where
  "wakeChan ch n =
     (if notifierClosed n then (None, n)
      else
        let (w, n) = lookupWaker ch n; n = startConfirm ch w (startPump n) in (Some (waker_wait w n), n))"

definition logListenFailure :: "string \<Rightarrow> nat \<Rightarrow> notifier \<Rightarrow> notifier" where
  "logListenFailure ch attempt n =
     n\<lparr>listenLog := listenLog n @ [(Warn, ch, attempt)] @
         (if attempt mod listenEscalateThreshold = 0 then [(Error, ch, attempt)] else [])\<rparr>"

text \<open>
  \<^verbatim>\<open>confirmListen\<close> after its Listen call has returned; \<open>ok\<close> is \<^verbatim>\<open>err == nil\<close>, and a panic of the
  listener counts as an error.
\<close>

datatype call_result = CallOk | CallErr | CallPanic

definition safeListenerCall :: "call_result \<Rightarrow> bool" where
  "safeListenerCall r = (case r of CallOk \<Rightarrow> True | CallErr \<Rightarrow> False | CallPanic \<Rightarrow> False)"

definition confirmListen :: "string \<Rightarrow> waker_ref \<Rightarrow> call_result \<Rightarrow> notifier \<Rightarrow> notifier" where
  "confirmListen ch capturedWaker r n =
     (if map_of (wakers n) ch \<noteq> Some capturedWaker then n
      else
        let n = n\<lparr>listenInFlight := (listenInFlight n)(ch := False)\<rparr> in
        if safeListenerCall r then
          n\<lparr>listening := (listening n)(ch := True), listenFailures := (listenFailures n)(ch := 0)\<rparr>
        else
          let k = Suc (listenFailures n ch);
              n = logListenFailure ch k (n\<lparr>listenFailures := (listenFailures n)(ch := k)\<rparr>)
          in n\<lparr>missed := missed n @ [ch]\<rparr>)"

definition forget :: "string \<Rightarrow> notifier \<Rightarrow> notifier" where
  "forget ch n =
     n\<lparr>wakers := AList.delete ch (wakers n), listening := (listening n)(ch := False),
       listenInFlight := (listenInFlight n)(ch := False), listenFailures := (listenFailures n)(ch := 0)\<rparr>"

text \<open>Whether \<^verbatim>\<open>forget\<close> goes on to call the listener's Unlisten.\<close>

definition forgetUnlistens :: "bool \<Rightarrow> notifier \<Rightarrow> bool" where
  "forgetUnlistens isUnlistener n \<longleftrightarrow> \<not> notifierClosed n \<and> isUnlistener"

definition pumpLookup :: "string \<Rightarrow> notifier \<Rightarrow> notifier" where
  "pumpLookup ch n =
     (case map_of (wakers n) ch of None \<Rightarrow> n | Some w \<Rightarrow> n\<lparr>pumping := PumpHolds w\<rparr>)"

definition pumpSignal :: "waker_ref \<Rightarrow> notifier \<Rightarrow> notifier" where
  "pumpSignal w n = (waker_signal w n)\<lparr>pumping := PumpRunning\<rparr>"

text \<open>\<^verbatim>\<open>wakeAll\<close> takes a snapshot of the registered wakers under the lock and signals them one by one.\<close>

definition wakeAll :: "notifier \<Rightarrow> waker_ref list" where
  "wakeAll n = map snd (wakers n)"

section \<open>Interleaving\<close>

inductive notifier_step :: "notifier \<Rightarrow> notifier \<Rightarrow> bool" where
  wake: "notifier_step n (snd (wakeChan ch n))"
| confirm: "(ch, w) \<in> set (confirming n) \<Longrightarrow>
    notifier_step n (confirmListen ch w r (n\<lparr>confirming := remove1 (ch, w) (confirming n)\<rparr>))"
| forget: "notifier_step n (forget ch n)"
| pump_lookup: "pumping n = PumpRunning \<Longrightarrow> notifier_step n (pumpLookup ch n)"
| pump_signal: "pumping n = PumpHolds w \<Longrightarrow> notifier_step n (pumpSignal w n)"
| pump_end: "pumping n = PumpRunning \<Longrightarrow> notifier_step n (n\<lparr>pumping := PumpDone\<rparr>)"
| pump_panic: "pumping n = PumpRunning \<Longrightarrow> notifier_step n (n\<lparr>pumping := PumpWaking (wakeAll n)\<rparr>)"
| pump_wake: "pumping n = PumpWaking (w # ws) \<Longrightarrow> notifier_step n ((waker_signal w n)\<lparr>pumping := PumpWaking ws\<rparr>)"
| pump_woke: "pumping n = PumpWaking [] \<Longrightarrow> notifier_step n (n\<lparr>pumping := PumpDone\<rparr>)"
| close_mark: "\<not> notifierClosed n \<Longrightarrow> notifier_step n (n\<lparr>notifierClosed := True, closing := CloseMarked\<rparr>)"
| close_cancel: "closing n = CloseMarked \<Longrightarrow> notifier_step n (n\<lparr>closing := CloseCancelled\<rparr>)"
| close_listener: "closing n = CloseCancelled \<Longrightarrow> notifier_step n (n\<lparr>closing := CloseListenerClosed\<rparr>)"
| close_snapshot: "closing n = CloseListenerClosed \<Longrightarrow> notifier_step n (n\<lparr>closing := CloseWaking (wakeAll n)\<rparr>)"
| close_wake: "closing n = CloseWaking (w # ws) \<Longrightarrow> notifier_step n ((waker_signal w n)\<lparr>closing := CloseWaking ws\<rparr>)"
| close_woke: "closing n = CloseWaking [] \<Longrightarrow> notifier_step n (n\<lparr>closing := CloseWaiting\<rparr>)"
| close_join: "closing n = CloseWaiting \<Longrightarrow> confirming n = [] \<Longrightarrow> pumping n \<in> {PumpNotStarted, PumpDone} \<Longrightarrow>
    notifier_step n (n\<lparr>closing := CloseReturned\<rparr>)"

abbreviation notifier_steps :: "notifier \<Rightarrow> notifier \<Rightarrow> bool" where
  "notifier_steps \<equiv> notifier_step\<^sup>*\<^sup>*"

end
