(* ===== verification/NotifyProps.thy ===== *)
theory NotifyProps
  imports Notify
begin

text \<open>
  The notifier under every interleaving of consumers, confirmations, deletions, the pump and the
  shutdown: one live confirmation per channel, no lost wake-up, and a shutdown that joins every
  goroutine and releases every consumer of a registered queue.
\<close>

section \<open>The bookkeeping invariant\<close>

definition notifier_inv :: "notifier \<Rightarrow> bool" where
  "notifier_inv n \<longleftrightarrow>
     distinct (confirming n) \<and>
     (\<forall>ch w. map_of (wakers n) ch = Some w \<longrightarrow> w < next_waker n) \<and>
     (\<forall>(ch, w) \<in> set (confirming n). w < next_waker n) \<and>
     (\<forall>ch. listenInFlight n ch \<longleftrightarrow> (\<exists>w. map_of (wakers n) ch = Some w \<and> (ch, w) \<in> set (confirming n))) \<and>
     (\<forall>ch. listening n ch \<longrightarrow> map_of (wakers n) ch \<noteq> None \<and> \<not> listenInFlight n ch) \<and>
     (\<forall>ch. 0 < listenFailures n ch \<longrightarrow> map_of (wakers n) ch \<noteq> None)"

lemma map_of_deleted [simp]: "map_of (AList.delete k xs) = (map_of xs)(k := None)"
  by (simp add: delete_conv')

lemma inv_frame:
  assumes "notifier_inv n" and "wakers n' = wakers n" "confirming n' = confirming n" "next_waker n' = next_waker n"
    "listening n' = listening n" "listenInFlight n' = listenInFlight n" "listenFailures n' = listenFailures n"
  shows "notifier_inv n'"
  using assms(1) unfolding notifier_inv_def assms(2-) .

lemma inv_register:
  assumes "notifier_inv n" and "map_of (wakers n) ch = None"
  shows "notifier_inv (n\<lparr>waker_gen := g, next_waker := Suc (next_waker n), wakers := AList.update ch (next_waker n) (wakers n)\<rparr>)"
proof -
  have "\<And>w. (ch, w) \<in> set (confirming n) \<Longrightarrow> w \<noteq> next_waker n" "\<not> listenInFlight n ch" "\<not> listening n ch"
    "listenFailures n ch = 0"
    using assms by (auto simp: notifier_inv_def)
  with assms show ?thesis
    unfolding notifier_inv_def
    by (simp add: update_conv') (intro conjI; auto intro: less_SucI)
qed

lemma inv_lookup:
  assumes "notifier_inv n" and "lookupWaker ch n = (w, n')"
  shows "notifier_inv n'" and "map_of (wakers n') ch = Some w"
  using assms inv_register [OF assms(1), of ch "(waker_gen n)(next_waker n := 0)"]
  by (auto simp: lookupWaker_def newWaker_def update_conv' split: option.splits)

lemma inv_startConfirm:
  assumes "notifier_inv n" and "map_of (wakers n) ch = Some w"
  shows "notifier_inv (startConfirm ch w n)"
  using assms unfolding notifier_inv_def startConfirm_def by auto

lemma inv_startPump: "notifier_inv n \<Longrightarrow> notifier_inv (startPump n)"
  by (auto simp: startPump_def elim: inv_frame)

lemma startPump_wakers [simp]: "wakers (startPump n) = wakers n"
  by (simp add: startPump_def)

lemma inv_wake:
  assumes "notifier_inv n"
  shows "notifier_inv (snd (wakeChan ch n))"
proof -
  obtain w n' where look: "lookupWaker ch n = (w, n')" by fastforce
  note inv = inv_lookup [OF assms look]
  have "notifier_inv (startConfirm ch w (startPump n'))"
    by (rule inv_startConfirm [OF inv_startPump]) (simp_all add: inv)
  then show ?thesis using assms by (simp add: wakeChan_def look Let_def)
qed

lemma inv_confirm:
  assumes "notifier_inv n" and "(ch, w) \<in> set (confirming n)"
  shows "notifier_inv (confirmListen ch w r (n\<lparr>confirming := remove1 (ch, w) (confirming n)\<rparr>))"
proof (cases "map_of (wakers n) ch = Some w")
  case True
  with assms show ?thesis
    unfolding notifier_inv_def confirmListen_def logListenFailure_def Let_def
    by (auto simp: set_remove1_eq split: if_splits)
next
  case False
  with assms show ?thesis
    unfolding notifier_inv_def confirmListen_def by (auto simp: set_remove1_eq)
qed

lemma inv_forget: "notifier_inv n \<Longrightarrow> notifier_inv (forget ch n)"
  unfolding notifier_inv_def forget_def by auto

lemma inv_step: "notifier_step n n' \<Longrightarrow> notifier_inv n \<Longrightarrow> notifier_inv n'"
proof (induction rule: notifier_step.induct)
  case (pump_lookup n ch)
  then show ?case by (elim inv_frame) (auto simp: pumpLookup_def split: option.split)
qed (auto intro: inv_wake inv_confirm inv_forget elim: inv_frame simp: pumpSignal_def waker_signal_def)

lemma inv_new: "notifier_inv newNotifier"
  by (simp add: notifier_inv_def newNotifier_def)

lemma inv_steps: "notifier_steps n n' \<Longrightarrow> notifier_inv n \<Longrightarrow> notifier_inv n'"
  by (induction rule: rtranclp_induct) (auto dest: inv_step)

text \<open>
  C18.  However consumers, deletions and shutdown interleave, at most one confirmation that still owns a
  channel is running: the in-flight flag is set exactly when one is, a channel marked as
  listening is registered and has none, and a confirmation outlived by a deletion of its queue,
  with or without a new queue of the same name, changes nothing when it returns.
\<close>

theorem notifier_confirmations:
  assumes "notifier_steps newNotifier n"
  shows "length (filter (\<lambda>(c, w). c = ch \<and> map_of (wakers n) ch = Some w) (confirming n)) =
           (if listenInFlight n ch then 1 else 0) \<and>
         (listening n ch \<longrightarrow> map_of (wakers n) ch \<noteq> None \<and> \<not> listenInFlight n ch) \<and>
         (map_of (wakers n) ch \<noteq> Some w \<longrightarrow> confirmListen ch w r n = n)"
proof -
  have inv: "notifier_inv n" using inv_steps [OF assms inv_new] .
  let ?live = "filter (\<lambda>(c, w). c = ch \<and> map_of (wakers n) ch = Some w) (confirming n)"
  have "distinct ?live" using inv by (simp add: notifier_inv_def)
  then have "length ?live = card (set ?live)" by (rule distinct_card [symmetric])
  also have "set ?live = {(ch, w) | w. map_of (wakers n) ch = Some w \<and> (ch, w) \<in> set (confirming n)}" by auto
  also have "card \<dots> = (if listenInFlight n ch then 1 else 0)"
  proof (cases "listenInFlight n ch")
    case True
    then obtain w where "map_of (wakers n) ch = Some w" "(ch, w) \<in> set (confirming n)"
      using inv by (auto simp: notifier_inv_def)
    then have "{(ch, w) | w. map_of (wakers n) ch = Some w \<and> (ch, w) \<in> set (confirming n)} = {(ch, w)}" by auto
    then show ?thesis using True by simp
  next
    case False
    then have "{(ch, w) | w. map_of (wakers n) ch = Some w \<and> (ch, w) \<in> set (confirming n)} = {}"
      using inv by (auto simp: notifier_inv_def)
    then show ?thesis using False by (simp only: card.empty if_False)
  qed
  finally have "length ?live = (if listenInFlight n ch then 1 else 0)" .
  moreover have "listening n ch \<longrightarrow> map_of (wakers n) ch \<noteq> None \<and> \<not> listenInFlight n ch"
    using inv unfolding notifier_inv_def by blast
  ultimately show ?thesis by (simp add: confirmListen_def)
qed

text \<open>A consumer that asks, a queue that is deleted and recreated while the first LISTEN is still blocked.\<close>

definition recreated :: notifier where
  "recreated = snd (wakeChan ''pgqueue_a'' (forget ''pgqueue_a'' (snd (wakeChan ''pgqueue_a'' newNotifier))))"

lemma recreated_reached: "notifier_steps newNotifier recreated"
  unfolding recreated_def
  by (rule rtranclp.rtrancl_into_rtrancl [OF rtranclp.rtrancl_into_rtrancl [OF r_into_rtranclp]])
    (rule wake, rule notifier_step.forget, rule wake)

theorem notifier_confirmations_witness:
  "confirming recreated = [(''pgqueue_a'', 0), (''pgqueue_a'', 1)] \<and>
   length (filter (\<lambda>(c, w). c = ''pgqueue_a'' \<and> map_of (wakers recreated) ''pgqueue_a'' = Some w) (confirming recreated)) = 1 \<and>
   confirmListen ''pgqueue_a'' 0 CallOk recreated = recreated"
proof -
  have "confirming recreated = [(''pgqueue_a'', 0), (''pgqueue_a'', 1)]" "listenInFlight recreated ''pgqueue_a''"
    "map_of (wakers recreated) ''pgqueue_a'' \<noteq> Some 0" by code_simp+
  then show ?thesis
    using notifier_confirmations [OF recreated_reached, of "''pgqueue_a''" 0 CallOk] by simp
qed

section \<open>Wake-ups\<close>

lemma gen_wake: "w < next_waker n \<Longrightarrow> waker_gen (snd (wakeChan ch n)) w = waker_gen n w"
  by (auto simp: wakeChan_def lookupWaker_def newWaker_def startPump_def startConfirm_def Let_def
      split: option.split prod.split)

lemma next_wake: "next_waker n \<le> next_waker (snd (wakeChan ch n))"
  by (auto simp: wakeChan_def lookupWaker_def newWaker_def startPump_def startConfirm_def Let_def
      split: option.split prod.split)

lemma confirmListen_frame [simp]:
  "waker_gen (confirmListen ch w r n) = waker_gen n" "next_waker (confirmListen ch w r n) = next_waker n"
  "wakers (confirmListen ch w r n) = wakers n" "pumping (confirmListen ch w r n) = pumping n"
  "closing (confirmListen ch w r n) = closing n" "notifierClosed (confirmListen ch w r n) = notifierClosed n"
  "confirming (confirmListen ch w r n) = confirming n"
  by (simp_all add: confirmListen_def logListenFailure_def Let_def)

lemma pumpLookup_frame [simp]:
  "waker_gen (pumpLookup ch n) = waker_gen n" "next_waker (pumpLookup ch n) = next_waker n"
  "wakers (pumpLookup ch n) = wakers n" "closing (pumpLookup ch n) = closing n"
  "notifierClosed (pumpLookup ch n) = notifierClosed n" "confirming (pumpLookup ch n) = confirming n"
  by (simp_all add: pumpLookup_def split: option.split)

lemma gen_mono_step:
  assumes "notifier_step n n'" and "w < next_waker n"
  shows "waker_gen n w \<le> waker_gen n' w \<and> w < next_waker n'"
  using assms
proof (induction rule: notifier_step.induct)
  case (wake n ch)
  then show ?case using next_wake [of n ch] by (simp add: gen_wake)
qed (auto simp: forget_def pumpSignal_def waker_signal_def)

lemma gen_mono:
  assumes "notifier_steps n n'" and "w < next_waker n"
  shows "waker_gen n w \<le> waker_gen n' w \<and> w < next_waker n'"
  using assms by (induction rule: rtranclp_induct) (auto dest: gen_mono_step intro: order_trans)

lemma released_mono:
  assumes "notifier_steps n n'" and "fst c < next_waker n" and "released c n"
  shows "released c n'"
  using gen_mono [OF assms(1,2)] assms(3) by (simp add: released_def)

lemma wakeChan_result:
  assumes "notifier_inv n" and "wakeChan ch n = (Some c, n')"
  shows "map_of (wakers n') ch = Some (fst c)" and "fst c < next_waker n'" and "snd c = waker_gen n' (fst c)"
    and "\<not> notifierClosed n"
proof -
  obtain w m where look: "lookupWaker ch n = (w, m)" by fastforce
  note inv = inv_lookup [OF assms(1) look]
  have n': "n' = startConfirm ch w (startPump m)" "c = waker_wait w n'" and open_: "\<not> notifierClosed n"
    using assms(2) by (auto simp: wakeChan_def look Let_def split: if_splits)
  then have "wakers n' = wakers m" "next_waker n' = next_waker m" by (auto simp: startConfirm_def startPump_def)
  with inv n' open_ show "map_of (wakers n') ch = Some (fst c)" "fst c < next_waker n'" "snd c = waker_gen n' (fst c)"
    "\<not> notifierClosed n"
    by (auto simp: waker_wait_def notifier_inv_def)
qed

lemma held_signalled:
  assumes "notifier_step n n'" and "pumping n = PumpHolds w"
  shows "pumping n' = PumpHolds w \<or> waker_gen n w < waker_gen n' w"
  using assms
  by (induction rule: notifier_step.induct)
    (auto simp: pumpSignal_def waker_signal_def wakeChan_def lookupWaker_def newWaker_def startPump_def startConfirm_def
      Let_def forget_def split: option.split prod.split)

lemma held_released:
  assumes "notifier_steps n n'" and "pumping n = PumpHolds w" and "w < next_waker n" and "snd c \<le> waker_gen n w" and "fst c = w"
  shows "pumping n' = PumpHolds w \<or> released c n'"
  using assms(1)
proof (induction rule: rtranclp_induct)
  case (step m k)
  have m: "waker_gen n w \<le> waker_gen m w" "w < next_waker m" using gen_mono [OF step.hyps(1) assms(3)] by auto
  note k = gen_mono_step [OF step.hyps(2) m(2)]
  from step.IH show ?case
  proof
    assume "pumping m = PumpHolds w"
    from held_signalled [OF step.hyps(2) this] show ?thesis
      using assms(4,5) m by (auto simp: released_def)
  next
    assume "released c m"
    then show ?thesis using k assms(5) by (auto simp: released_def)
  qed
qed (simp add: assms(2))

text \<open>
  C19.  No notification is lost on its way to a consumer: when the pump takes a notification off the
  stream for a channel on which a consumer is waiting, and the queue has not been deleted since
  the consumer asked, the consumer's channel is closed once the pump has moved on, whatever else
  runs in between, and it stays closed.
\<close>

theorem notification_wakes_consumer:
  assumes "notifier_steps newNotifier n0" and "wakeChan ch n0 = (Some c, n1)"
    and "notifier_steps n1 n2" and "map_of (wakers n2) ch = Some (fst c)"
    and "pumping n2 = PumpRunning" and "notifier_steps (pumpLookup ch n2) n3" and "pumping n3 \<noteq> PumpHolds (fst c)"
  shows "released c n3 \<and> (\<forall>n4. notifier_steps n3 n4 \<longrightarrow> released c n4)"
proof -
  have "notifier_inv n0" using inv_steps [OF assms(1) inv_new] .
  note c = wakeChan_result [OF this assms(2)]
  note mono = gen_mono [OF assms(3) c(2)]
  have "pumping (pumpLookup ch n2) = PumpHolds (fst c)" using assms(4) by (simp add: pumpLookup_def)
  from held_released [OF assms(6) this, of c] have "released c n3"
    using mono c(3) assms(7) by simp
  moreover have "fst c < next_waker n3" using gen_mono [OF assms(6), of "fst c"] mono by simp
  ultimately show ?thesis using released_mono by blast
qed

theorem notification_wakes_consumer_witness:
  "released (0, 0) (pumpSignal 0 (pumpLookup ''pgqueue_a'' (snd (wakeChan ''pgqueue_a'' newNotifier))))"
proof -
  let ?n1 = "snd (wakeChan ''pgqueue_a'' newNotifier)"
  have run: "fst (wakeChan ''pgqueue_a'' newNotifier) = Some (0, 0)" by code_simp
  have n1: "map_of (wakers ?n1) ''pgqueue_a'' = Some 0" "pumping ?n1 = PumpRunning"
    "pumping (pumpLookup ''pgqueue_a'' ?n1) = PumpHolds 0" by code_simp+
  have "notifier_steps (pumpLookup ''pgqueue_a'' ?n1) (pumpSignal 0 (pumpLookup ''pgqueue_a'' ?n1))"
    using n1(3) by (intro r_into_rtranclp pump_signal)
  moreover have "wakeChan ''pgqueue_a'' newNotifier = (Some (0, 0), ?n1)" using run by (cases "wakeChan ''pgqueue_a'' newNotifier") simp
  moreover have "pumping (pumpSignal 0 (pumpLookup ''pgqueue_a'' ?n1)) \<noteq> PumpHolds (fst (0, 0))" by (simp add: pumpSignal_def)
  ultimately show ?thesis
    using notification_wakes_consumer [OF rtranclp.rtrancl_refl _ rtranclp.rtrancl_refl, of "''pgqueue_a''" "(0, 0)" ?n1] n1(1,2)
    by auto
qed

section \<open>Shutdown\<close>

text \<open>What holds of the shutdown sequence and of one consumer's channel.\<close>

definition shutdown_inv :: "notifier \<Rightarrow> bool" where
  "shutdown_inv n \<longleftrightarrow>
     (notifierClosed n \<longleftrightarrow> closing n \<noteq> CloseNotCalled) \<and>
     (closing n = CloseReturned \<longrightarrow> confirming n = [] \<and> pumping n \<in> {PumpNotStarted, PumpDone})"

definition to_be_woken :: "string \<Rightarrow> wake_chan \<Rightarrow> notifier \<Rightarrow> bool" where
  "to_be_woken ch c n \<longleftrightarrow>
     fst c < next_waker n \<and> snd c \<le> waker_gen n (fst c) \<and>
     (map_of (wakers n) ch = Some (fst c) \<longrightarrow>
        released c n \<or> closing n \<in> {CloseNotCalled, CloseMarked, CloseCancelled, CloseListenerClosed} \<or>
        (\<exists>ws. closing n = CloseWaking ws \<and> fst c \<in> set ws))"

lemma wakeChan_frame:
  "closing (snd (wakeChan ch n)) = closing n" "notifierClosed (snd (wakeChan ch n)) = notifierClosed n"
  "notifierClosed n \<Longrightarrow> wakeChan ch n = (None, n)"
  by (auto simp: wakeChan_def lookupWaker_def newWaker_def startPump_def startConfirm_def Let_def
      split: option.split prod.split)

lemma wakeChan_registered:
  "map_of (wakers (snd (wakeChan ch n))) c =
     (if c = ch \<and> \<not> notifierClosed n \<and> map_of (wakers n) ch = None then Some (next_waker n) else map_of (wakers n) c)"
  by (auto simp: wakeChan_def lookupWaker_def newWaker_def startPump_def startConfirm_def Let_def update_conv'
      split: option.split prod.split)

lemma shutdown_step: "notifier_step n n' \<Longrightarrow> shutdown_inv n \<Longrightarrow> shutdown_inv n'"
proof (induction rule: notifier_step.induct)
  case (wake n ch)
  then show ?case
    by (cases "notifierClosed n") (auto simp: shutdown_inv_def wakeChan_frame)
qed (auto simp: shutdown_inv_def forget_def pumpSignal_def waker_signal_def)

lemma shutdown_steps: "notifier_steps n n' \<Longrightarrow> shutdown_inv n \<Longrightarrow> shutdown_inv n'"
  by (induction rule: rtranclp_induct) (auto dest: shutdown_step)

lemma woken_step: "notifier_step n n' \<Longrightarrow> to_be_woken ch c n \<Longrightarrow> to_be_woken ch c n'"
proof (induction rule: notifier_step.induct)
  case (wake n ch')
  then show ?case
    using next_wake [of n ch']
    by (auto simp: to_be_woken_def wakeChan_frame wakeChan_registered gen_wake released_def split: if_splits)
next
  case (close_snapshot n)
  then show ?case by (force simp: to_be_woken_def wakeAll_def released_def dest: map_of_SomeD)
qed (auto simp: to_be_woken_def released_def forget_def pumpSignal_def waker_signal_def)

lemma woken_steps: "notifier_steps n n' \<Longrightarrow> to_be_woken ch c n \<Longrightarrow> to_be_woken ch c n'"
  by (induction rule: rtranclp_induct) (auto dest: woken_step)

lemma shutdown_new: "shutdown_inv newNotifier"
  by (simp add: shutdown_inv_def newNotifier_def)

lemma returned_stays:
  assumes "notifier_steps n n'" and "closing n = CloseReturned" and "shutdown_inv n"
  shows "closing n' = CloseReturned \<and> shutdown_inv n'"
  using assms(1)
proof (induction rule: rtranclp_induct)
  case (step m k)
  then have "shutdown_inv k" by (blast intro: shutdown_step)
  moreover have "closing k = CloseReturned"
    using step.hyps(2) step.IH by (cases rule: notifier_step.cases)
      (auto simp: wakeChan_frame forget_def pumpSignal_def waker_signal_def shutdown_inv_def)
  ultimately show ?case by simp
qed (use assms in simp)

text \<open>
  C20.  Once the notifier's close has returned, no confirmation and no pump is running and none is ever
  started again, a consumer that asks for a channel gets none, and every consumer that was waiting
  on a queue that is still registered has been released.
\<close>

theorem notifier_shutdown:
  assumes "notifier_steps newNotifier n0" and "wakeChan ch n0 = (Some c, n1)"
    and "notifier_steps n1 n2" and "closing n2 = CloseReturned" and "notifier_steps n2 n3"
  shows "confirming n3 = [] \<and> pumping n3 \<in> {PumpNotStarted, PumpDone} \<and> wakeChan ch' n3 = (None, n3) \<and>
         (map_of (wakers n2) ch = Some (fst c) \<longrightarrow> released c n3)"
proof -
  have "notifier_inv n0" using inv_steps [OF assms(1) inv_new] .
  note c = wakeChan_result [OF this assms(2)]
  have inv0: "shutdown_inv n0" using shutdown_steps [OF assms(1) shutdown_new] .
  have "notifier_step n0 n1" using wake [of n0 ch] assms(2) by simp
  then have inv1: "shutdown_inv n1" using inv0 by (rule shutdown_step)
  then have inv2: "shutdown_inv n2" using shutdown_steps [OF assms(3)] by blast
  note end3 = returned_stays [OF assms(5,4) inv2]
  have "closing n1 = CloseNotCalled"
    using wakeChan_frame(1) [of ch n0] assms(2) inv0 c(4) by (simp add: shutdown_inv_def)
  then have "to_be_woken ch c n1" using c by (simp add: to_be_woken_def)
  from woken_steps [OF assms(3) this] have "map_of (wakers n2) ch = Some (fst c) \<longrightarrow> released c n2" "fst c < next_waker n2"
    using assms(4) by (auto simp: to_be_woken_def)
  then have "map_of (wakers n2) ch = Some (fst c) \<longrightarrow> released c n3" using released_mono [OF assms(5)] by blast
  moreover have "notifierClosed n3" using end3 by (simp add: shutdown_inv_def)
  ultimately show ?thesis using end3 by (simp add: shutdown_inv_def wakeChan_frame(3))
qed

definition shut :: notifier where
  "shut =
     (let a = snd (wakeChan ''pgqueue_a'' newNotifier);
          b = confirmListen ''pgqueue_a'' 0 CallOk (a\<lparr>confirming := remove1 (''pgqueue_a'', 0) (confirming a)\<rparr>);
          c = b\<lparr>pumping := PumpDone\<rparr>;
          d = c\<lparr>notifierClosed := True, closing := CloseListenerClosed\<rparr>;
          e = (waker_signal 0 d)\<lparr>closing := CloseReturned\<rparr>
      in e)"

lemma shut_reached: "notifier_steps (snd (wakeChan ''pgqueue_a'' newNotifier)) shut"
proof -
  let ?a = "snd (wakeChan ''pgqueue_a'' newNotifier)"
  let ?b = "confirmListen ''pgqueue_a'' 0 CallOk (?a\<lparr>confirming := remove1 (''pgqueue_a'', 0) (confirming ?a)\<rparr>)"
  let ?c = "?b\<lparr>pumping := PumpDone\<rparr>"
  let ?d = "?c\<lparr>notifierClosed := True, closing := CloseListenerClosed\<rparr>"
  have a: "(''pgqueue_a'', 0) \<in> set (confirming ?a)" and b: "pumping ?b = PumpRunning" "\<not> notifierClosed ?b"
    and d: "wakeAll ?d = [0]" and e: "confirming ?b = []" by code_simp+
  note run = rtranclp.rtrancl_into_rtrancl
  have "notifier_steps ?a ?c"
    using notifier_step.confirm [OF a] pump_end [OF b(1)] by (blast intro: run)
  then have "notifier_steps ?a (?c\<lparr>notifierClosed := True, closing := CloseMarked\<rparr>)"
    using b(2) by (elim run) (intro close_mark, simp)
  then have "notifier_steps ?a (?c\<lparr>notifierClosed := True, closing := CloseCancelled\<rparr>)"
    by (rule run) (use close_cancel [of "?c\<lparr>notifierClosed := True, closing := CloseMarked\<rparr>"] in simp)
  then have "notifier_steps ?a ?d"
    by (rule run) (use close_listener [of "?c\<lparr>notifierClosed := True, closing := CloseCancelled\<rparr>"] in simp)
  then have "notifier_steps ?a (?d\<lparr>closing := CloseWaking [0]\<rparr>)"
    by (rule run) (use close_snapshot [of ?d] d in simp)
  then have "notifier_steps ?a ((waker_signal 0 ?d)\<lparr>closing := CloseWaking []\<rparr>)"
    by (rule run) (use close_wake [of "?d\<lparr>closing := CloseWaking [0]\<rparr>" 0 "[]"] in \<open>simp add: waker_signal_def\<close>)
  then have "notifier_steps ?a ((waker_signal 0 ?d)\<lparr>closing := CloseWaiting\<rparr>)"
    by (rule run) (use close_woke [of "(waker_signal 0 ?d)\<lparr>closing := CloseWaking []\<rparr>"] in simp)
  then have "notifier_steps ?a ((waker_signal 0 ?d)\<lparr>closing := CloseReturned\<rparr>)"
    by (rule run) (use close_join [of "(waker_signal 0 ?d)\<lparr>closing := CloseWaiting\<rparr>"] e in \<open>simp add: waker_signal_def\<close>)
  then show ?thesis by (simp only: shut_def Let_def)
qed

theorem notifier_shutdown_witness: "confirming shut = [] \<and> released (0, 0) shut"
proof -
  let ?n1 = "snd (wakeChan ''pgqueue_a'' newNotifier)"
  have "fst (wakeChan ''pgqueue_a'' newNotifier) = Some (0, 0)" by code_simp
  then have "wakeChan ''pgqueue_a'' newNotifier = (Some (0, 0), ?n1)" by (cases "wakeChan ''pgqueue_a'' newNotifier") simp
  moreover have "closing shut = CloseReturned" "map_of (wakers shut) ''pgqueue_a'' = Some (fst (0, 0 :: nat))" by code_simp+
  ultimately show ?thesis
    using notifier_shutdown [OF rtranclp.rtrancl_refl _ shut_reached _ rtranclp.rtrancl_refl, of "''pgqueue_a''" "(0, 0)" "''pgqueue_a''"]
    by blast
qed

end
