(* ===== verification/Listener.thy ===== *)
theory Listener
  imports Tx "HOL-Library.Multiset"
begin

text \<open>
  \<^verbatim>\<open>pglisten/listener.go\<close>: the connection that receives notifications.  One goroutine, \<^verbatim>\<open>run\<close>, owns the
  connection; callers queue LISTEN and UNLISTEN requests under a mutex and wait for an answer.
  The state is the struct, the place the \<^verbatim>\<open>run\<close> goroutine has reached, the registrations of the
  server session, and histories: the waiters queued and answered, the notifications received and
  consumed.  A step is one critical section of a caller or one action of \<^verbatim>\<open>run\<close>.
\<close>

section \<open>Configuration\<close>

record ReconnectPolicy =
  rpBaseDelay :: duration
  rpMaxDelay :: duration
  rpMultiplier :: rat

definition defaultReconnectBaseDelay :: duration where
  "defaultReconnectBaseDelay = 1 * time_Second"

definition defaultReconnectMaxDelay :: duration where
  "defaultReconnectMaxDelay = 30 * time_Second"

definition defaultReconnectMultiplier :: rat where
  "defaultReconnectMultiplier = 2"

definition maxReconnectBackoffSteps :: nat where
  "maxReconnectBackoffSteps = 32"

definition defaultKeepaliveInterval :: duration where
  "defaultKeepaliveInterval = 30 * time_Second"

definition notifyBuffer :: nat where
  "notifyBuffer = 64"

definition normalizeKeepaliveInterval :: "duration \<Rightarrow> duration" where
  "normalizeKeepaliveInterval d = (if d \<le> 0 then defaultKeepaliveInterval else d)"

definition reconnectNormalized :: "ReconnectPolicy \<Rightarrow> ReconnectPolicy" where
  "reconnectNormalized p =
     (let p = (if rpBaseDelay p \<le> 0 then p\<lparr>rpBaseDelay := defaultReconnectBaseDelay\<rparr> else p);
          p = (if rpMultiplier p < 1 then p\<lparr>rpMultiplier := defaultReconnectMultiplier\<rparr> else p);
          p = (if rpMaxDelay p < rpBaseDelay p then p\<lparr>rpMaxDelay := defaultReconnectMaxDelay\<rparr> else p);
          p = (if rpMaxDelay p < rpBaseDelay p then p\<lparr>rpMaxDelay := rpBaseDelay p\<rparr> else p)
      in p)"

datatype ListenerOption =
    WithReconnectPolicy ReconnectPolicy
  | WithListenerLogger
  | WithKeepaliveInterval duration
  | WithOnReconnect

record listenerConfig =
  reconnectPolicy :: ReconnectPolicy
  keepaliveInterval :: duration
  hasLogger :: bool
  hasOnReconnect :: bool

fun applyListenerOption :: "ListenerOption \<Rightarrow> listenerConfig \<Rightarrow> listenerConfig" where
  "applyListenerOption (WithReconnectPolicy p) c = c\<lparr>reconnectPolicy := reconnectNormalized p\<rparr>"
| "applyListenerOption WithListenerLogger c = c\<lparr>hasLogger := True\<rparr>"
| "applyListenerOption (WithKeepaliveInterval d) c = c\<lparr>keepaliveInterval := normalizeKeepaliveInterval d\<rparr>"
| "applyListenerOption WithOnReconnect c = c\<lparr>hasOnReconnect := True\<rparr>"

definition newListenerConfig :: "ListenerOption list \<Rightarrow> listenerConfig" where
  "newListenerConfig opts =
     fold applyListenerOption opts
       \<lparr>reconnectPolicy = reconnectNormalized \<lparr>rpBaseDelay = 0, rpMaxDelay = 0, rpMultiplier = 0\<rparr>,
        keepaliveInterval = defaultKeepaliveInterval, hasLogger = False, hasOnReconnect = False\<rparr>"

text \<open>The loop of \<^verbatim>\<open>reconnectBackoff\<close>, which leaves at the first window that reaches the maximum.\<close>

fun reconnectWindow :: "env \<Rightarrow> ReconnectPolicy \<Rightarrow> nat \<Rightarrow> rat \<Rightarrow> rat" where
  "reconnectWindow env p 0 window = window"
| "reconnectWindow env p (Suc k) window =
     (let w = float64 env (window * rpMultiplier p) in
      if w \<ge> float64 env (of_int (rpMaxDelay p)) then float64 env (of_int (rpMaxDelay p))
      else reconnectWindow env p k w)"

definition reconnectBackoff :: "env \<Rightarrow> ReconnectPolicy \<Rightarrow> rat \<Rightarrow> nat \<Rightarrow> duration" where
  "reconnectBackoff env p rnd attempt =
     float64_to_int64 env (float64 env (rnd *
       reconnectWindow env p (min attempt maxReconnectBackoffSteps) (float64 env (of_int (rpBaseDelay p)))))"

section \<open>Identifiers\<close>

text \<open>\<^verbatim>\<open>quoteListenIdent\<close>; \<^verbatim>\<open>quoteIdent\<close> of \<^verbatim>\<open>index_repair.go\<close> is the same function.\<close>

definition quote_char :: char where
  "quote_char = CHR 0x22"

fun double_quotes :: "string \<Rightarrow> string" where
  "double_quotes [] = []"
| "double_quotes (c # cs) =
     (if c = quote_char then quote_char # quote_char # double_quotes cs else c # double_quotes cs)"

definition quoteListenIdent :: "string \<Rightarrow> string" where
  "quoteListenIdent ch = quote_char # double_quotes ch @ [quote_char]"

section \<open>State\<close>

datatype lerr =
    errListenerClosed
  | errChannelContainsNUL
  | listenFailed string
  | listenCanceled string

type_synonym waiter = nat

type_synonym listenReq = "string \<times> waiter option"

datatype runpc =
    RunTop
  | RunDrain "listenReq list" "string list"
  | RunReceive
  | RunWait
  | RunProbe
  | RunDeliver string
  | RunBlocked string
  | RunReconnect nat
  | RunStopped

record Listener =
  lchannels :: "string set"
  confirmed :: "string set"
  lpending :: "listenReq list"
  unpending :: "string list"
  lclosed :: bool
  connOpen :: bool
  connAlive :: bool
  interruptPending :: bool
  notifs :: "string list"
  notifBlocked :: bool
  runPC :: runpc
  session :: "string set"
  issued :: "waiter list"
  answered :: "(waiter \<times> lerr option) list"
  onReconnects :: "nat list"
  received :: "string list"
  consumed :: "string list"

definition newListener :: Listener where
  "newListener =
     \<lparr>lchannels = {}, confirmed = {}, lpending = [], unpending = [], lclosed = False, connOpen = True, connAlive = True,
      interruptPending = False, notifs = [], notifBlocked = False, runPC = RunTop, session = {},
      issued = [], answered = [], onReconnects = [], received = [], consumed = []\<rparr>"

section \<open>Calls\<close>

definition requestInterrupt :: "Listener \<Rightarrow> Listener" where
  "requestInterrupt l = l\<lparr>interruptPending := True\<rparr>"

definition has_NUL :: "string \<Rightarrow> bool" where
  "has_NUL ch \<longleftrightarrow> CHR 0x00 \<in> set ch"

text \<open>A call of \<^verbatim>\<open>Listen\<close> up to its wait: it is refused, already satisfied, or queued under a new waiter.\<close>

datatype listenStart = Refused lerr | AlreadyConfirmed | Queued

definition Listen :: "string \<Rightarrow> waiter \<Rightarrow> Listener \<Rightarrow> listenStart \<times> Listener" where
  "Listen ch w l =
     (if has_NUL ch then (Refused errChannelContainsNUL, l)
      else if lclosed l then (Refused errListenerClosed, l)
      else if ch \<in> confirmed l then (AlreadyConfirmed, l)
      else (Queued, requestInterrupt
             (l\<lparr>lchannels := insert ch (lchannels l), lpending := lpending l @ [(ch, Some w)],
                issued := issued l @ [w]\<rparr>)))"

text \<open>The results the final \<^verbatim>\<open>select\<close> of a queued call may choose from; none means it still waits.\<close>

definition Listen_results :: "string \<Rightarrow> waiter \<Rightarrow> bool \<Rightarrow> Listener \<Rightarrow> lerr option list" where
  "Listen_results ch w ctxDone l =
     (case map_of (answered l) w of Some r \<Rightarrow> [r] | None \<Rightarrow> []) @
     (if ctxDone then [Some (listenCanceled ch)] else []) @
     (if lclosed l then [Some errListenerClosed] else [])"

definition Unlisten :: "string \<Rightarrow> Listener \<Rightarrow> lerr option \<times> Listener" where
  "Unlisten ch l =
     (if has_NUL ch then (Some errChannelContainsNUL, l)
      else if lclosed l then (Some errListenerClosed, l)
      else if ch \<notin> lchannels l then (None, l)
      else (None, requestInterrupt
             (l\<lparr>lchannels := lchannels l - {ch}, confirmed := confirmed l - {ch},
                unpending := unpending l @ [ch]\<rparr>)))"

definition CloseListener :: "Listener \<Rightarrow> Listener" where
  "CloseListener l = (if lclosed l then l else requestInterrupt (l\<lparr>lclosed := True\<rparr>))"

section \<open>The run loop\<close>

fun signal :: "waiter option \<Rightarrow> lerr option \<Rightarrow> Listener \<Rightarrow> Listener" where
  "signal None r l = l"
| "signal (Some w) r l = l\<lparr>answered := answered l @ [(w, r)]\<rparr>"

definition requeue :: "listenReq list \<Rightarrow> Listener \<Rightarrow> Listener" where
  "requeue reqs l = l\<lparr>lpending := reqs @ lpending l\<rparr>"

definition markConfirmed :: "string \<Rightarrow> Listener \<Rightarrow> Listener" where
  "markConfirmed ch l = l\<lparr>confirmed := insert ch (confirmed l)\<rparr>"

text \<open>Closing the connection ends the session and with it every registration.\<close>

definition closeConn :: "Listener \<Rightarrow> Listener" where
  "closeConn l = l\<lparr>connOpen := False, connAlive := False, session := {}\<rparr>"

definition drainPending :: "Listener \<Rightarrow> Listener" where
  "drainPending l = l\<lparr>runPC := RunDrain (lpending l) (unpending l), lpending := [], unpending := []\<rparr>"

definition drainListenOk :: "string \<Rightarrow> waiter option \<Rightarrow> listenReq list \<Rightarrow> string list \<Rightarrow> Listener \<Rightarrow> Listener" where
  "drainListenOk ch w reqs us l =
     signal w None (markConfirmed ch (l\<lparr>session := insert ch (session l), runPC := RunDrain reqs us\<rparr>))"

definition drainListenFails :: "string \<Rightarrow> waiter option \<Rightarrow> listenReq list \<Rightarrow> Listener \<Rightarrow> Listener" where
  "drainListenFails ch w reqs l =
     closeConn (requeue reqs (signal w (Some (listenFailed ch)) (l\<lparr>runPC := RunReconnect 0\<rparr>)))"

text \<open>UNLISTEN is best effort: \<open>ok\<close> says whether the server carried it out.\<close>

definition drainUnlisten :: "bool \<Rightarrow> string \<Rightarrow> string list \<Rightarrow> Listener \<Rightarrow> Listener" where
  "drainUnlisten ok ch us l =
     l\<lparr>session := (if ok then session l - {ch} else session l), runPC := RunDrain [] us\<rparr>"

definition waiters_of :: "string \<Rightarrow> listenReq list \<Rightarrow> waiter list" where
  "waiters_of ch reqs = [w. (c, Some w) \<leftarrow> reqs, c = ch]"

definition relisten :: "listenReq list \<Rightarrow> string \<Rightarrow> listenReq list" where
  "relisten reqs ch =
     (case waiters_of ch reqs of
        [] \<Rightarrow> [(ch, None)]
      | ws \<Rightarrow> map (\<lambda>w. (ch, Some w)) ws)"

text \<open>\<open>order\<close> is the order in which the map of channels is ranged over.\<close>

definition rebuildPendingForReconnect :: "string list \<Rightarrow> Listener \<Rightarrow> Listener" where
  "rebuildPendingForReconnect order l =
     (let leftover = [w. (c, Some w) \<leftarrow> lpending l, c \<notin> set order] in
      l\<lparr>lpending := concat (map (relisten (lpending l)) order),
        answered := answered l @ map (\<lambda>w. (w, None)) leftover\<rparr>)"

definition reconnected :: "string list \<Rightarrow> nat \<Rightarrow> Listener \<Rightarrow> Listener" where
  "reconnected order attempt l =
     (rebuildPendingForReconnect order
        (l\<lparr>connOpen := True, connAlive := True, session := {}, confirmed := {}, unpending := []\<rparr>))
     \<lparr>onReconnects := onReconnects l @ [attempt + 1], runPC := RunTop\<rparr>"

definition stopRun :: "Listener \<Rightarrow> Listener" where
  "stopRun l = (closeConn l)\<lparr>runPC := RunStopped\<rparr>"

definition startReconnect :: "Listener \<Rightarrow> Listener" where
  "startReconnect l = (closeConn l)\<lparr>runPC := RunReconnect 0\<rparr>"

text \<open>The entry of \<^verbatim>\<open>receiveOne\<close>: a remembered interrupt is consumed instead of waiting.\<close>

definition receiveOne :: "Listener \<Rightarrow> Listener" where
  "receiveOne l =
     (if interruptPending l then l\<lparr>interruptPending := False, runPC := RunTop\<rparr> else l\<lparr>runPC := RunWait\<rparr>)"

text \<open>
  How \<^verbatim>\<open>WaitForNotification\<close> returns: a notification, or an error with the error of the wait
  context.
\<close>

datatype waitResult = Notification string | WaitCanceled | WaitDeadline | ConnectionError

fun receiveResult :: "waitResult \<Rightarrow> Listener \<Rightarrow> Listener" where
  "receiveResult res l =
     (if lclosed l then stopRun l
      else case res of
        Notification ch \<Rightarrow> l\<lparr>runPC := RunDeliver ch, received := received l @ [ch]\<rparr>
      | WaitCanceled \<Rightarrow> l\<lparr>runPC := RunTop\<rparr>
      | WaitDeadline \<Rightarrow> if interruptPending l then l\<lparr>runPC := RunTop\<rparr> else l\<lparr>runPC := RunProbe\<rparr>
      | ConnectionError \<Rightarrow> if interruptPending l then l\<lparr>runPC := RunTop\<rparr> else startReconnect l)"

definition keepaliveProbe :: "bool \<Rightarrow> Listener \<Rightarrow> Listener" where
  "keepaliveProbe pong l = (if pong then l\<lparr>runPC := RunTop\<rparr> else startReconnect l)"

text \<open>
  The two selects of \<^verbatim>\<open>deliverNotification\<close>: the send that does not block, and the blocking one,
  which does not reset \<^verbatim>\<open>notifBlocked\<close>.
\<close>

definition deliverNotification :: "string \<Rightarrow> Listener \<Rightarrow> Listener" where
  "deliverNotification ch l =
     (if length (notifs l) < notifyBuffer
      then l\<lparr>notifs := notifs l @ [ch], notifBlocked := False, runPC := RunTop\<rparr>
      else l\<lparr>notifBlocked := True, runPC := RunBlocked ch\<rparr>)"

definition deliverBlocked :: "string \<Rightarrow> Listener \<Rightarrow> Listener" where
  "deliverBlocked ch l = l\<lparr>notifs := notifs l @ [ch], runPC := RunTop\<rparr>"

section \<open>Steps\<close>

text \<open>
  The steps of a listener used by any number of goroutines; \<open>unlistens\<close> says whether \<^verbatim>\<open>Unlisten\<close> is
  called.  In \<open>dropped\<close> the connection dies without the client noticing.
\<close>

inductive listener_step :: "bool \<Rightarrow> Listener \<Rightarrow> Listener \<Rightarrow> bool" for unlistens where
  listen: "w \<notin> set (issued l) \<Longrightarrow> listener_step unlistens l (snd (Listen ch w l))"
| unlisten: "unlistens \<Longrightarrow> listener_step unlistens l (snd (Unlisten ch l))"
| close: "listener_step unlistens l (CloseListener l)"
| consume: "notifs l = ch # rest \<Longrightarrow>
    listener_step unlistens l (l\<lparr>notifs := rest, consumed := consumed l @ [ch]\<rparr>)"
| dropped: "listener_step unlistens l (l\<lparr>connAlive := False, session := {}\<rparr>)"
| stop: "runPC l = RunTop \<Longrightarrow> lclosed l \<Longrightarrow> listener_step unlistens l (stopRun l)"
| drain: "runPC l = RunTop \<Longrightarrow> \<not> lclosed l \<Longrightarrow> listener_step unlistens l (drainPending l)"
| listen_ok: "runPC l = RunDrain ((ch, w) # reqs) us \<Longrightarrow> connAlive l \<Longrightarrow>
    listener_step unlistens l (drainListenOk ch w reqs us l)"
| listen_fails: "runPC l = RunDrain ((ch, w) # reqs) us \<Longrightarrow>
    listener_step unlistens l (drainListenFails ch w reqs l)"
| unlisten_done: "runPC l = RunDrain [] (ch # us) \<Longrightarrow> listener_step unlistens l (drainUnlisten ok ch us l)"
| drained: "runPC l = RunDrain [] [] \<Longrightarrow> listener_step unlistens l (l\<lparr>runPC := RunReceive\<rparr>)"
| receive: "runPC l = RunReceive \<Longrightarrow> listener_step unlistens l (receiveOne l)"
| waited: "runPC l = RunWait \<Longrightarrow> res = WaitCanceled \<longrightarrow> interruptPending l \<Longrightarrow>
    listener_step unlistens l (receiveResult res l)"
| probe: "runPC l = RunProbe \<Longrightarrow> listener_step unlistens l (keepaliveProbe pong l)"
| deliver: "runPC l = RunDeliver ch \<Longrightarrow> listener_step unlistens l (deliverNotification ch l)"
| unblock: "runPC l = RunBlocked ch \<Longrightarrow> length (notifs l) < notifyBuffer \<Longrightarrow>
    listener_step unlistens l (deliverBlocked ch l)"
| blocked_stop: "runPC l = RunBlocked ch \<Longrightarrow> lclosed l \<Longrightarrow> listener_step unlistens l (stopRun l)"
| reconnect_stop: "runPC l = RunReconnect k \<Longrightarrow> lclosed l \<Longrightarrow> listener_step unlistens l (stopRun l)"
| reconnect_fails: "runPC l = RunReconnect k \<Longrightarrow> listener_step unlistens l (l\<lparr>runPC := RunReconnect (Suc k)\<rparr>)"
| reconnect_ok: "runPC l = RunReconnect k \<Longrightarrow> set order = lchannels l \<Longrightarrow> distinct order \<Longrightarrow>
    listener_step unlistens l (reconnected order k l)"

abbreviation listener_reach :: "bool \<Rightarrow> Listener \<Rightarrow> bool" where
  "listener_reach unlistens \<equiv> (listener_step unlistens)\<^sup>*\<^sup>* newListener"

lemmas listener_defs =
  Listen_def Unlisten_def CloseListener_def requestInterrupt_def stopRun_def closeConn_def drainPending_def
  drainListenOk_def drainListenFails_def drainUnlisten_def requeue_def markConfirmed_def receiveOne_def
  startReconnect_def keepaliveProbe_def deliverNotification_def deliverBlocked_def reconnected_def
  rebuildPendingForReconnect_def Let_def

end
