(* ===== verification/ListenerProps.thy ===== *)
theory ListenerProps
  imports Listener "HOL-Library.Sublist"
begin

text \<open>
  Properties of the listener over every interleaving of its callers, the server and the
  \<^verbatim>\<open>run\<close> goroutine.
\<close>

section \<open>Invariants\<close>

text \<open>The requests the \<^verbatim>\<open>run\<close> goroutine has taken and not yet issued, and its undelivered notification.\<close>

fun in_hand :: "runpc \<Rightarrow> listenReq list" where
  "in_hand (RunDrain reqs us) = reqs"
| "in_hand _ = []"

fun unlistening :: "runpc \<Rightarrow> string list" where
  "unlistening (RunDrain reqs us) = us"
| "unlistening _ = []"

fun in_flight :: "runpc \<Rightarrow> string list" where
  "in_flight (RunDeliver ch) = [ch]"
| "in_flight (RunBlocked ch) = [ch]"
| "in_flight _ = []"

definition waiters :: "listenReq list \<Rightarrow> waiter list" where
  "waiters reqs = List.map_filter snd reqs"

lemma waiters_simps [simp]:
  "waiters [] = []" "waiters ((ch, None) # reqs) = waiters reqs"
  "waiters ((ch, Some w) # reqs) = w # waiters reqs" "waiters (xs @ ys) = waiters xs @ waiters ys"
  by (simp_all add: waiters_def List.map_filter_def)

text \<open>Every waiter ever queued is queued, taken by \<^verbatim>\<open>run\<close>, or answered, and never twice.\<close>

definition waiters_ok :: "Listener \<Rightarrow> bool" where
  "waiters_ok l \<longleftrightarrow>
     distinct (issued l) \<and>
     mset (waiters (lpending l)) + mset (waiters (in_hand (runPC l))) + mset (map fst (answered l)) = mset (issued l)"

lemma waiters_of_eq: "waiters_of ch reqs = waiters (filter (\<lambda>r. fst r = ch) reqs)"
proof (induction reqs)
  case (Cons r reqs)
  then show ?case by (cases r; cases "snd r") (auto simp: waiters_of_def)
qed (simp add: waiters_of_def)

lemma waiters_relisten: "waiters (relisten reqs ch) = waiters (filter (\<lambda>r. fst r = ch) reqs)"
proof -
  have "waiters (map (\<lambda>w. (ch, Some w)) ws) = ws" for ws by (induction ws) simp_all
  then show ?thesis by (simp add: relisten_def waiters_of_eq split: list.split)
qed

lemma leftover_eq: "[w. (c, Some w) \<leftarrow> reqs, c \<notin> A] = waiters (filter (\<lambda>r. fst r \<notin> A) reqs)"
proof (induction reqs)
  case (Cons r reqs)
  then show ?case by (cases r; cases "snd r") auto
qed simp

lemma mset_waiters_split:
  "mset (waiters (filter P reqs)) + mset (waiters (filter (\<lambda>r. \<not> P r) reqs)) = mset (waiters reqs)"
proof (induction reqs)
  case (Cons r reqs)
  then show ?case by (cases r; cases "snd r") auto
qed simp

lemma mset_waiters_or:
  "\<forall>r \<in> set reqs. \<not> (P r \<and> Q r) \<Longrightarrow>
   mset (waiters (filter (\<lambda>r. P r \<or> Q r) reqs)) = mset (waiters (filter P reqs)) + mset (waiters (filter Q reqs))"
proof (induction reqs)
  case (Cons r reqs)
  then show ?case by (cases r; cases "snd r") auto
qed simp

lemma mset_rebuild:
  assumes "distinct order"
  shows "mset (waiters (concat (map (relisten reqs) order))) = mset (waiters (filter (\<lambda>r. fst r \<in> set order) reqs))"
  using assms
proof (induction order)
  case (Cons ch order)
  then show ?case
    using mset_waiters_or [of reqs "\<lambda>r. fst r = ch" "\<lambda>r. fst r \<in> set order"] by (auto simp: waiters_relisten)
qed simp

lemma waiters_signal [simp]:
  "issued (signal w r l) = issued l" "lpending (signal w r l) = lpending l" "runPC (signal w r l) = runPC l"
  "answered (signal w r l) = answered l @ (case w of None \<Rightarrow> [] | Some v \<Rightarrow> [(v, r)])"
  "lchannels (signal w r l) = lchannels l" "confirmed (signal w r l) = confirmed l"
  "session (signal w r l) = session l" "connAlive (signal w r l) = connAlive l"
  "unpending (signal w r l) = unpending l" "notifs (signal w r l) = notifs l"
  "received (signal w r l) = received l" "consumed (signal w r l) = consumed l" "lclosed (signal w r l) = lclosed l"
  by (cases w; simp)+

lemma waiters_Cons: "waiters ((ch, w) # reqs) = (case w of None \<Rightarrow> [] | Some v \<Rightarrow> [v]) @ waiters reqs"
  by (cases w) simp_all

lemma waiters_step:
  assumes "listener_step u l l'" and "waiters_ok l"
  shows "waiters_ok l'"
  using assms
proof cases
  case (reconnect_ok k order)
  have "mset (waiters (filter (\<lambda>r. fst r \<in> set order) (lpending l))) +
      mset (waiters (filter (\<lambda>r. fst r \<notin> set order) (lpending l))) = mset (waiters (lpending l))"
    by (rule mset_waiters_split)
  with reconnect_ok assms(2) show ?thesis
    by (simp add: waiters_ok_def listener_defs leftover_eq mset_rebuild comp_def ac_simps)
next
  case (waited res)
  with assms(2) show ?thesis by (cases res) (auto simp: waiters_ok_def listener_defs)
qed (auto simp: waiters_ok_def listener_defs waiters_Cons ac_simps split: option.splits)

section \<open>Nothing registered is forgotten\<close>

fun reconnecting :: "runpc \<Rightarrow> bool" where
  "reconnecting (RunReconnect k) = True"
| "reconnecting RunStopped = True"
| "reconnecting _ = False"

definition covered :: "Listener \<Rightarrow> bool" where
  "covered l \<longleftrightarrow>
     \<not> reconnecting (runPC l) \<longrightarrow>
       lchannels l \<subseteq> confirmed l \<union> fst ` set (lpending l) \<union> fst ` set (in_hand (runPC l))"

lemma fst_relisten: "fst ` set (relisten reqs ch) = {ch}"
  by (auto simp: relisten_def image_iff split: list.splits)

lemma fst_rebuild: "fst ` set (concat (map (relisten reqs) order)) = set order"
  by (induction order) (simp_all add: image_Un fst_relisten)

lemma covered_step:
  assumes "listener_step u l l'" and "covered l"
  shows "covered l'"
  using assms
proof cases
  case (reconnect_ok k order)
  with fst_rebuild [of "lpending l" order] show ?thesis by (simp add: covered_def listener_defs)
next
  case (waited res)
  with assms(2) show ?thesis by (cases res) (auto simp: covered_def listener_defs)
qed (auto simp: covered_def listener_defs)

section \<open>Notifications\<close>

definition delivered_in_order :: "Listener \<Rightarrow> bool" where
  "delivered_in_order l \<longleftrightarrow>
     length (notifs l) \<le> notifyBuffer \<and> prefix (consumed l @ notifs l) (received l) \<and>
     (runPC l \<noteq> RunStopped \<longrightarrow> consumed l @ notifs l @ in_flight (runPC l) = received l)"

lemma delivered_step:
  assumes "listener_step u l l'" and "delivered_in_order l"
  shows "delivered_in_order l'"
  using assms
proof cases
  case (waited res)
  with assms(2) show ?thesis by (cases res) (auto simp: delivered_in_order_def listener_defs)
qed (auto simp: delivered_in_order_def listener_defs split: if_splits)

section \<open>Confirmations\<close>

definition subscribed :: "Listener \<Rightarrow> bool" where
  "subscribed l \<longleftrightarrow> unpending l = [] \<and> unlistening (runPC l) = [] \<and> (connAlive l \<longrightarrow> confirmed l \<subseteq> session l)"

lemma subscribed_step:
  assumes "listener_step False l l'" and "subscribed l"
  shows "subscribed l'"
  using assms
proof cases
  case (waited res)
  with assms(2) show ?thesis by (cases res) (auto simp: subscribed_def listener_defs)
qed (auto simp: subscribed_def listener_defs)

section \<open>Reachable listeners\<close>

lemma listener_inv:
  assumes "listener_reach u l"
  shows "waiters_ok l \<and> covered l \<and> delivered_in_order l"
  using assms
proof (induction rule: rtranclp_induct)
  case base
  show ?case by (simp add: waiters_ok_def covered_def delivered_in_order_def newListener_def)
next
  case (step l l')
  then show ?case by (simp add: waiters_step [of u l] covered_step [of u l] delivered_step [of u l])
qed

lemma waiter_accounted:
  assumes "waiters_ok l" and "w \<in> set (issued l)"
  shows "w \<in> set (waiters (lpending l)) \<or> w \<in> set (waiters (in_hand (runPC l))) \<or> w \<in> fst ` set (answered l)"
proof -
  have "w \<in># mset (waiters (lpending l)) + mset (waiters (in_hand (runPC l))) + mset (map fst (answered l))"
    using assms unfolding waiters_ok_def by simp
  then show ?thesis by auto
qed

lemma answered_once: "waiters_ok l \<Longrightarrow> distinct (map fst (answered l))"
  unfolding waiters_ok_def by (metis distinct_append mset_append mset_eq_imp_distinct_iff)

text \<open>A listener whose one channel is confirmed, and the run that reaches it.\<close>

definition race_listened :: Listener where
  "race_listened =
     (let l = drainPending (snd (Listen ''a'' 0 newListener)) in
      (drainListenOk ''a'' (Some 0) [] [] l)\<lparr>runPC := RunReceive\<rparr>)"

lemma race_listened_reach: "listener_reach u race_listened"
proof -
  let ?l1 = "snd (Listen ''a'' 0 newListener)"
  let ?l3 = "drainListenOk ''a'' (Some 0) [] [] (drainPending ?l1)"
  have "listener_step u newListener ?l1" by (rule listen) (simp add: newListener_def)
  moreover have "listener_step u ?l1 (drainPending ?l1)"
    by (rule drain) (simp_all add: listener_defs newListener_def has_NUL_def)
  moreover have "listener_step u (drainPending ?l1) ?l3"
    by (rule listen_ok) (simp_all add: listener_defs newListener_def has_NUL_def)
  moreover have "listener_step u ?l3 (?l3\<lparr>runPC := RunReceive\<rparr>)"
    by (rule drained) (simp add: listener_defs)
  ultimately show ?thesis
    unfolding race_listened_def Let_def by (meson rtranclp.rtrancl_into_rtrancl rtranclp.rtrancl_refl)
qed

text \<open>
  C29.  However calls, server answers and connection losses interleave, no caller of \<^verbatim>\<open>Listen\<close> is
  stranded: each waiter is still queued, in the hands of the loop, or answered, and
  answered at most once, so that the send on its one-slot channel never blocks; and every
  registered channel is confirmed or about to be listened to, unless a reconnect is under way.
\<close>

theorem listener_waiters:
  assumes "listener_reach u l"
  shows "(\<forall>w \<in> set (issued l). w \<in> set (waiters (lpending l)) \<or>
            w \<in> set (waiters (in_hand (runPC l))) \<or> w \<in> fst ` set (answered l)) \<and>
         distinct (map fst (answered l)) \<and>
         (reconnecting (runPC l) \<or>
          (\<forall>ch \<in> lchannels l. ch \<in> confirmed l \<or> ch \<in> fst ` set (lpending l @ in_hand (runPC l))))"
proof -
  from listener_inv [OF assms] have inv: "waiters_ok l" "covered l" by simp_all
  then show ?thesis using waiter_accounted answered_once by (auto simp: covered_def)
qed

theorem listener_waiters_witness:
  "listener_reach True race_listened \<and> 0 \<in> fst ` set (answered race_listened)"
proof -
  have "0 \<in> set (issued race_listened)" "waiters (lpending race_listened) = []"
    "waiters (in_hand (runPC race_listened)) = []"
    by (simp_all add: race_listened_def listener_defs newListener_def has_NUL_def)
  then show ?thesis using listener_waiters [OF race_listened_reach] race_listened_reach by auto
qed

text \<open>
  Notifications reach the consumer in the order they were received; none is dropped or duplicated
  while the loop runs, and the buffer never exceeds its 64 slots.
\<close>

theorem listener_notifications:
  assumes "listener_reach u l"
  shows "prefix (consumed l @ notifs l) (received l) \<and> length (notifs l) \<le> notifyBuffer \<and>
         (runPC l \<noteq> RunStopped \<longrightarrow> received l = consumed l @ notifs l @ in_flight (runPC l))"
  using listener_inv [OF assms] by (auto simp: delivered_in_order_def)

theorem listener_notifications_witness:
  "received race_listened = consumed race_listened @ notifs race_listened"
proof -
  have "runPC race_listened = RunReceive" by (simp add: race_listened_def Let_def)
  then show ?thesis using listener_notifications [OF race_listened_reach] by auto
qed

lemma subscribed_reach: "listener_reach False l \<Longrightarrow> subscribed l"
proof (induction rule: rtranclp_induct)
  case base
  show ?case by (simp add: subscribed_def newListener_def)
qed (rule subscribed_step)

text \<open>
  As long as no \<^verbatim>\<open>Unlisten\<close> is called, a confirmed channel is registered with the server: on a live
  connection, a \<^verbatim>\<open>Listen\<close> that returns at once because its channel is confirmed is subscribed.
\<close>

theorem listen_confirmed_subscribed:
  assumes "listener_reach False l" and "connAlive l" and "fst (Listen ch w l) = AlreadyConfirmed"
  shows "ch \<in> session l"
  using subscribed_reach [OF assms(1)] assms(2,3) by (auto simp: subscribed_def Listen_def split: if_splits)

theorem listen_confirmed_subscribed_witness:
  "fst (Listen ''a'' 1 race_listened) = AlreadyConfirmed \<and> ''a'' \<in> session race_listened"
proof -
  have pre: "connAlive race_listened" "fst (Listen ''a'' 1 race_listened) = AlreadyConfirmed"
    by (simp_all add: race_listened_def listener_defs newListener_def has_NUL_def)
  with listen_confirmed_subscribed [OF race_listened_reach pre] show ?thesis by simp
qed

text \<open>The run behind the next theorem.\<close>

definition race_requeued :: Listener where
  "race_requeued = drainPending (receiveOne (snd (Listen ''a'' 1 (snd (Unlisten ''a'' race_listened)))))"

definition race_lost :: Listener where
  "race_lost = (drainUnlisten True ''a'' [] (drainListenOk ''a'' (Some 1) [] [''a''] race_requeued))\<lparr>runPC := RunReceive\<rparr>"

lemma race_requeued_reach: "listener_reach True race_requeued"
proof -
  let ?l1 = "snd (Unlisten ''a'' race_listened)"
  let ?l2 = "snd (Listen ''a'' 1 ?l1)"
  have "listener_step True race_listened ?l1" by (rule unlisten) simp
  moreover have "listener_step True ?l1 ?l2"
    by (rule listen) (simp add: race_listened_def listener_defs newListener_def has_NUL_def)
  moreover have "listener_step True ?l2 (receiveOne ?l2)"
    by (rule receive) (simp add: race_listened_def listener_defs newListener_def has_NUL_def)
  moreover have "listener_step True (receiveOne ?l2) race_requeued"
    unfolding race_requeued_def
    by (rule drain) (simp_all add: race_listened_def listener_defs newListener_def has_NUL_def)
  ultimately show ?thesis
    using race_listened_reach by (meson rtranclp.rtrancl_into_rtrancl)
qed

lemmas race_defs = race_lost_def race_requeued_def race_listened_def listener_defs newListener_def has_NUL_def

text \<open>
  C35.  Unlistening and listening again before the loop drains loses the subscription: the loop issues the
  queued LISTEN before the queued UNLISTEN, so the second \<^verbatim>\<open>Listen\<close> is answered with success and its
  channel counts as confirmed while the server has no registration and nothing is queued.
\<close>

theorem relisten_lost:
  "\<exists>l. listener_reach True l \<and> connAlive l \<and> runPC l = RunReceive \<and> lpending l = [] \<and> unpending l = [] \<and>
       (1, None) \<in> set (answered l) \<and> ''a'' \<in> lchannels l \<and> ''a'' \<in> confirmed l \<and> ''a'' \<notin> session l"
proof (intro exI conjI)
  let ?l1 = "drainListenOk ''a'' (Some 1) [] [''a''] race_requeued"
  let ?l2 = "drainUnlisten True ''a'' [] ?l1"
  have "listener_step True race_requeued ?l1" by (rule listen_ok) (simp_all add: race_defs)
  moreover have "listener_step True ?l1 ?l2" by (rule unlisten_done) (simp add: race_defs)
  moreover have "listener_step True ?l2 race_lost"
    unfolding race_lost_def by (rule drained) (simp add: drainUnlisten_def)
  ultimately show "listener_reach True race_lost"
    using race_requeued_reach by (meson rtranclp.rtrancl_into_rtrancl)
qed (simp_all add: race_defs)

section \<open>Quoted identifiers\<close>

text \<open>
  How PostgreSQL reads a quoted identifier, from after its opening quote: a doubled quote is one
  quote, a single one ends it.
\<close>

fun read_quoted :: "string \<Rightarrow> (string \<times> string) option" where
  "read_quoted [] = None"
| "read_quoted (c # cs) =
     (if c = quote_char then
        (case cs of
           d # ds \<Rightarrow> if d = quote_char then map_option (\<lambda>(s, r). (quote_char # s, r)) (read_quoted ds)
                     else Some ([], cs)
         | [] \<Rightarrow> Some ([], []))
      else map_option (\<lambda>(s, r). (c # s, r)) (read_quoted cs))"

lemma read_double_quotes:
  "rest = [] \<or> hd rest \<noteq> quote_char \<Longrightarrow> read_quoted (double_quotes s @ quote_char # rest) = Some (s, rest)"
proof (induction s)
  case Nil
  then show ?case by (cases rest) auto
qed auto

text \<open>
  Whatever the channel name, the quoted identifier spliced into LISTEN is read back as that name and
  ends where it should: no name can add anything to the statement.
\<close>

theorem quoteListenIdent_reads_back:
  assumes "rest = [] \<or> hd rest \<noteq> quote_char"
  shows "\<exists>body. quoteListenIdent ch @ rest = quote_char # body \<and> read_quoted body = Some (ch, rest)"
  using read_double_quotes [of rest ch] assms by (auto simp: quoteListenIdent_def)

theorem quoteListenIdent_reads_back_witness:
  "\<exists>body. quoteListenIdent [CHR 0x22, CHR 0x3B] @ '';'' = quote_char # body \<and>
     read_quoted body = Some ([CHR 0x22, CHR 0x3B], '';'')"
  by (rule quoteListenIdent_reads_back) (simp add: quote_char_def)

section \<open>Reconnecting\<close>

lemma reconnectNormalized_bounds:
  "0 < rpBaseDelay (reconnectNormalized p)" "1 \<le> rpMultiplier (reconnectNormalized p)"
  "rpBaseDelay (reconnectNormalized p) \<le> rpMaxDelay (reconnectNormalized p)"
  by (simp_all add: reconnectNormalized_def Let_def defaultReconnectBaseDelay_def defaultReconnectMaxDelay_def
      defaultReconnectMultiplier_def)

lemma reconnectWindow_max:
  "w \<le> float64 env (of_int (rpMaxDelay p)) \<Longrightarrow> reconnectWindow env p k w \<le> float64 env (of_int (rpMaxDelay p))"
  by (induction k arbitrary: w) (auto simp: Let_def)

lemma reconnect_policy_good:
  "\<exists>q. reconnectPolicy (newListenerConfig opts) = reconnectNormalized q"
proof -
  have "\<exists>q. reconnectPolicy (fold applyListenerOption opts c) = reconnectNormalized q"
    if "\<exists>q. reconnectPolicy c = reconnectNormalized q" for c
    using that
  proof (induction opts arbitrary: c)
    case (Cons x opts)
    have "\<exists>q. reconnectPolicy (applyListenerOption x c) = reconnectNormalized q"
      using Cons.prems by (cases x) auto
    from Cons.IH [OF this] show ?case by simp
  qed simp
  then show ?thesis unfolding newListenerConfig_def by (metis listenerConfig.select_convs(1))
qed

end
