(* ===== verification/Fake.thy ===== *)
theory Fake
  imports Types Mailbox "HOL-Library.AList"
begin

text \<open>
  \<^verbatim>\<open>fake/fake.go\<close>: the in-memory queue for tests.  A Go map is an association list with distinct
  keys; pointers to channels are values written back under their key.  A call that draws a UUID takes
  the result of \<^verbatim>\<open>NewUUIDv7\<close> as an argument.  Each call holds the mutex, so it is one function
  on the state.
\<close>

definition fakeDefaultMaxRetries :: int where
  "fakeDefaultMaxRetries = 3"

record entry =
  eID :: uuid
  eClaimID :: uuid
  ePayload :: bytes
  eMetadata :: "metadata option"
  eStatus :: MessageStatus
  eRetryCount :: int

record fchannel =
  fpaused :: bool
  fpending :: "entry list"
  fclaimed :: "(uuid \<times> entry) list"
  fdlq :: "entry list"

definition newChannel :: fchannel where
  "newChannel = \<lparr>fpaused = False, fpending = [], fclaimed = [], fdlq = []\<rparr>"

definition hasMessage :: "uuid \<Rightarrow> fchannel \<Rightarrow> bool" where
  "hasMessage i c \<longleftrightarrow>
     list_ex (\<lambda>e. eID e = i) (fpending c) \<or> map_of (fclaimed c) i \<noteq> None \<or> list_ex (\<lambda>e. eID e = i) (fdlq c)"

record ftopic =
  ftpaused :: bool
  fsubs :: "(string \<times> fchannel) list"

definition newTopic :: ftopic where
  "newTopic = \<lparr>ftpaused = False, fsubs = []\<rparr>"

record FakeQueue =
  fmaxRetries :: int
  fchannels :: "(string \<times> fchannel) list"
  ftopics :: "(string \<times> ftopic) list"

datatype FakeOption = WithMaxRetries int

fun applyFakeOption :: "FakeOption \<Rightarrow> FakeQueue \<Rightarrow> FakeQueue" where
  "applyFakeOption (WithMaxRetries n) q = (if n \<ge> 0 then q\<lparr>fmaxRetries := n\<rparr> else q)"

definition newFake :: "FakeOption list \<Rightarrow> FakeQueue" where
  "newFake opts =
     fold applyFakeOption opts \<lparr>fmaxRetries = fakeDefaultMaxRetries, fchannels = [], ftopics = []\<rparr>"

section \<open>Registration\<close>

definition fakeCreateChannel :: "string \<Rightarrow> FakeQueue \<Rightarrow> FakeQueue" where
  "fakeCreateChannel name q =
     (if map_of (fchannels q) name = None then q\<lparr>fchannels := AList.update name newChannel (fchannels q)\<rparr> else q)"

definition fakeCreateTopic :: "string \<Rightarrow> FakeQueue \<Rightarrow> FakeQueue" where
  "fakeCreateTopic name q =
     (if map_of (ftopics q) name = None then q\<lparr>ftopics := AList.update name newTopic (ftopics q)\<rparr> else q)"

definition fakeSubscribe :: "string \<Rightarrow> string \<Rightarrow> FakeQueue \<Rightarrow> FakeQueue" where
  "fakeSubscribe topicName subscriberID q =
     (let t = (case map_of (ftopics q) topicName of Some t \<Rightarrow> t | None \<Rightarrow> newTopic);
          t' = (if map_of (fsubs t) subscriberID = None
                then t\<lparr>fsubs := AList.update subscriberID newChannel (fsubs t)\<rparr> else t)
      in q\<lparr>ftopics := AList.update topicName t' (ftopics q)\<rparr>)"

section \<open>Publishing\<close>

definition newEntry :: "uuid \<Rightarrow> bytes \<Rightarrow> metadata option \<Rightarrow> entry" where
  "newEntry i pload md =
     \<lparr>eID = i, eClaimID = uuid_Nil, ePayload = pload, eMetadata = md, eStatus = MessageStatusPending, eRetryCount = 0\<rparr>"

definition appendEntry :: "entry \<Rightarrow> fchannel \<Rightarrow> fchannel" where
  "appendEntry e c = c\<lparr>fpending := fpending c @ [e]\<rparr>"

definition publishFakeID ::
    "string \<Rightarrow> bytes \<Rightarrow> uuid \<Rightarrow> metadata option \<Rightarrow> FakeQueue \<Rightarrow> (err + uuid) \<times> FakeQueue" where
  "publishFakeID name pload i md q =
     (case map_of (ftopics q) name of
        Some t \<Rightarrow>
          if list_ex (\<lambda>(_, sub). hasMessage i sub) (fsubs t) then (Inl ErrDuplicateMessageID, q)
          else (Inr i, q\<lparr>ftopics := AList.update name
                  (t\<lparr>fsubs := map (\<lambda>(s, sub). (s, appendEntry (newEntry i pload md) sub)) (fsubs t)\<rparr>) (ftopics q)\<rparr>)
      | None \<Rightarrow>
          (case map_of (fchannels q) name of
             None \<Rightarrow> (Inl ErrQueueNotFound, q)
           | Some ch \<Rightarrow>
               if hasMessage i ch then (Inl ErrDuplicateMessageID, q)
               else (Inr i, q\<lparr>fchannels :=
                      AList.update name (appendEntry (newEntry i pload md) ch) (fchannels q)\<rparr>)))"

definition fakePublish ::
    "err + uuid \<Rightarrow> string \<Rightarrow> bytes option \<Rightarrow> uuid \<Rightarrow> metadata option \<Rightarrow> FakeQueue \<Rightarrow> (err + uuid) \<times> FakeQueue" where
  "fakePublish draw name pload i md q =
     (case pload of
        None \<Rightarrow> (Inl ErrNilPayload, q)
      | Some p \<Rightarrow>
          if i = uuid_Nil then
            (case draw of Inl e \<Rightarrow> (Inl e, q) | Inr j \<Rightarrow> publishFakeID name p j md q)
          else publishFakeID name p i md q)"

section \<open>Receiving\<close>

definition claimEntry :: "uuid \<Rightarrow> entry \<Rightarrow> entry" where
  "claimEntry c e = e\<lparr>eClaimID := c, eStatus := MessageStatusProcessing\<rparr>"

text \<open>\<^verbatim>\<open>claim\<close> on the slice and the map of one channel; a failed draw puts the head back.\<close>

definition claimHead :: "err + uuid \<Rightarrow> fchannel \<Rightarrow> (err + entry) \<times> fchannel" where
  "claimHead draw ch =
     (case fpending ch of
        [] \<Rightarrow> (Inl ErrQueueEmpty, ch)
      | e # rest \<Rightarrow>
          (case draw of
             Inl err \<Rightarrow> (Inl err, ch)
           | Inr c \<Rightarrow>
               (Inr (claimEntry c e),
                ch\<lparr>fpending := rest, fclaimed := AList.update (eID e) (claimEntry c e) (fclaimed ch)\<rparr>)))"

definition fakeMessage :: "int \<Rightarrow> Receipt \<Rightarrow> entry \<Rightarrow> Message" where
  "fakeMessage mx base e =
     \<lparr>msgID = eID e, msgClaimID = eClaimID e, msgPayload = ePayload e, msgCreatedAt = 0,
      msgStatus = MessageStatusProcessing, msgRetryCount = eRetryCount e, msgMaxRetries = mx,
      msgVisibilityTimeout = None, msgProcessedAt = None, msgErrorMessage = None, msgMetadata = eMetadata e,
      msgReceipt = Some (base\<lparr>MessageID := eID e, ClaimID := eClaimID e\<rparr>)\<rparr>"

text \<open>\<^verbatim>\<open>resolve\<close>, and writing the channel it found back.\<close>

definition resolve :: "Receipt \<Rightarrow> FakeQueue \<Rightarrow> err + fchannel" where
  "resolve r q =
     (case ReceiptQueueType r of
        QueueTypeChannel \<Rightarrow>
          (case map_of (fchannels q) (ReceiptQueueName r) of None \<Rightarrow> Inl ErrQueueNotFound | Some ch \<Rightarrow> Inr ch)
      | QueueTypePubSub \<Rightarrow>
          (case map_of (ftopics q) (ReceiptQueueName r) of
             None \<Rightarrow> Inl ErrQueueNotFound
           | Some t \<Rightarrow> (case map_of (fsubs t) (SubscriberID r) of None \<Rightarrow> Inl ErrSubscriberNotFound | Some ch \<Rightarrow> Inr ch))
      | _ \<Rightarrow> Inl ErrReceiptMissingQueueType)"

definition putResolved :: "Receipt \<Rightarrow> fchannel \<Rightarrow> FakeQueue \<Rightarrow> FakeQueue" where
  "putResolved r ch q =
     (if ReceiptQueueType r = QueueTypeChannel
      then q\<lparr>fchannels := AList.update (ReceiptQueueName r) ch (fchannels q)\<rparr>
      else case map_of (ftopics q) (ReceiptQueueName r) of
             None \<Rightarrow> q
           | Some t \<Rightarrow> q\<lparr>ftopics := AList.update (ReceiptQueueName r)
                            (t\<lparr>fsubs := AList.update (SubscriberID r) ch (fsubs t)\<rparr>) (ftopics q)\<rparr>)"

definition onResolved ::
    "Receipt \<Rightarrow> (fchannel \<Rightarrow> (err + 'a) \<times> fchannel) \<Rightarrow> FakeQueue \<Rightarrow> (err + 'a) \<times> FakeQueue" where
  "onResolved r f q =
     (case resolve r q of
        Inl e \<Rightarrow> (Inl e, q)
      | Inr ch \<Rightarrow> (case f ch of (res, ch') \<Rightarrow> (res, putResolved r ch' q)))"

definition channelReceipt :: "string \<Rightarrow> Receipt" where
  "channelReceipt name =
     \<lparr>MessageID = uuid_Nil, ClaimID = uuid_Nil, ReceiptQueueName = name, ReceiptQueueType = QueueTypeChannel,
      SubscriberID = ''''\<rparr>"

definition topicReceipt :: "string \<Rightarrow> string \<Rightarrow> Receipt" where
  "topicReceipt name subscriberID =
     \<lparr>MessageID = uuid_Nil, ClaimID = uuid_Nil, ReceiptQueueName = name, ReceiptQueueType = QueueTypePubSub,
      SubscriberID = subscriberID\<rparr>"

definition claimMessage :: "err + uuid \<Rightarrow> Receipt \<Rightarrow> FakeQueue \<Rightarrow> (err + Message) \<times> FakeQueue" where
  "claimMessage draw base q =
     (case onResolved base (claimHead draw) q of
        (Inl e, q') \<Rightarrow> (Inl e, q')
      | (Inr e, q') \<Rightarrow> (Inr (fakeMessage (fmaxRetries q) base e), q'))"

definition fakeReceiveChannel :: "err + uuid \<Rightarrow> string \<Rightarrow> FakeQueue \<Rightarrow> (err + Message) \<times> FakeQueue" where
  "fakeReceiveChannel draw name q =
     (case map_of (fchannels q) name of
        None \<Rightarrow> (Inl ErrQueueNotFound, q)
      | Some ch \<Rightarrow>
          if fpaused ch then (Inl ErrQueuePaused, q) else claimMessage draw (channelReceipt name) q)"

definition fakeReceiveTopic ::
    "err + uuid \<Rightarrow> string \<Rightarrow> string \<Rightarrow> FakeQueue \<Rightarrow> (err + Message) \<times> FakeQueue" where
  "fakeReceiveTopic draw name subscriberID q =
     (case map_of (ftopics q) name of
        None \<Rightarrow> (Inl ErrQueueNotFound, q)
      | Some t \<Rightarrow>
          if ftpaused t then (Inl ErrQueuePaused, q) else claimMessage draw (topicReceipt name subscriberID) q)"

section \<open>Settling\<close>

definition held :: "Receipt \<Rightarrow> fchannel \<Rightarrow> entry option" where
  "held r ch =
     (case map_of (fclaimed ch) (MessageID r) of
        None \<Rightarrow> None
      | Some e \<Rightarrow> if eClaimID e = ClaimID r then Some e else None)"

definition ackEntry :: "Receipt \<Rightarrow> fchannel \<Rightarrow> (err + unit) \<times> fchannel" where
  "ackEntry r ch =
     (case held r ch of
        None \<Rightarrow> (Inl ErrClaimExpired, ch)
      | Some e \<Rightarrow> (Inr (), ch\<lparr>fclaimed := AList.delete (MessageID r) (fclaimed ch)\<rparr>))"

definition fakeAck :: "Receipt \<Rightarrow> FakeQueue \<Rightarrow> (err + unit) \<times> FakeQueue" where
  "fakeAck r = onResolved r (ackEntry r)"

definition extendEntry :: "Receipt \<Rightarrow> fchannel \<Rightarrow> (err + unit) \<times> fchannel" where
  "extendEntry r ch = (case held r ch of None \<Rightarrow> (Inl ErrClaimExpired, ch) | Some e \<Rightarrow> (Inr (), ch))"

definition fakeExtendVisibility :: "Receipt \<Rightarrow> duration \<Rightarrow> FakeQueue \<Rightarrow> (err + unit) \<times> FakeQueue" where
  "fakeExtendVisibility r d q =
     (if d < time_Millisecond \<or> d > 24 * time_Hour then (Inl ErrInvalidVisibilityTimeout, q)
      else onResolved r (extendEntry r) q)"

fun insertSortedByID :: "entry \<Rightarrow> entry list \<Rightarrow> entry list" where
  "insertSortedByID e [] = [e]"
| "insertSortedByID e (p # ps) = (if eID p < eID e then p # insertSortedByID e ps else e # p # ps)"

definition nackEntry :: "int \<Rightarrow> Receipt \<Rightarrow> fchannel \<Rightarrow> (err + unit) \<times> fchannel" where
  "nackEntry mx r ch =
     (case held r ch of
        None \<Rightarrow> (Inl ErrClaimExpired, ch)
      | Some e \<Rightarrow>
          let ch' = ch\<lparr>fclaimed := AList.delete (MessageID r) (fclaimed ch)\<rparr> in
          if eRetryCount e + 1 > mx
          then (Inr (), ch'\<lparr>fdlq := fdlq ch' @ [e\<lparr>eStatus := MessageStatusCompleted\<rparr>]\<rparr>)
          else (Inr (), ch'\<lparr>fpending := insertSortedByID
                  (e\<lparr>eRetryCount := eRetryCount e + 1, eClaimID := uuid_Nil, eStatus := MessageStatusPending\<rparr>)
                  (fpending ch')\<rparr>))"

definition fakeNack :: "Receipt \<Rightarrow> FakeQueue \<Rightarrow> (err + unit) \<times> FakeQueue" where
  "fakeNack r q = onResolved r (nackEntry (fmaxRetries q) r) q"

section \<open>Pausing, inspection, loops\<close>

definition setChannelPaused :: "string \<Rightarrow> bool \<Rightarrow> FakeQueue \<Rightarrow> (err + unit) \<times> FakeQueue" where
  "setChannelPaused name p q =
     (case map_of (fchannels q) name of
        None \<Rightarrow> (Inl ErrQueueNotFound, q)
      | Some ch \<Rightarrow> (Inr (), q\<lparr>fchannels := AList.update name (ch\<lparr>fpaused := p\<rparr>) (fchannels q)\<rparr>))"

definition setTopicPaused :: "string \<Rightarrow> bool \<Rightarrow> FakeQueue \<Rightarrow> (err + unit) \<times> FakeQueue" where
  "setTopicPaused name p q =
     (case map_of (ftopics q) name of
        None \<Rightarrow> (Inl ErrQueueNotFound, q)
      | Some t \<Rightarrow> (Inr (), q\<lparr>ftopics := AList.update name (t\<lparr>ftpaused := p\<rparr>) (ftopics q)\<rparr>))"

definition ChannelDLQ :: "string \<Rightarrow> FakeQueue \<Rightarrow> bytes list" where
  "ChannelDLQ name q = (case map_of (fchannels q) name of None \<Rightarrow> [] | Some ch \<Rightarrow> map ePayload (fdlq ch))"

text \<open>
  \<^verbatim>\<open>consumeLoop\<close>: \<open>ctxDone\<close> and \<open>h\<close> give what the loop sees of its context and of its handler at its
  \<open>k\<close>-th look, \<open>draws\<close> the UUIDs.  \<open>None\<close> is a loop that never returns.
\<close>

partial_function (option) fakeConsumeLoop ::
    "(nat \<Rightarrow> bool) \<Rightarrow> (nat \<Rightarrow> Message \<Rightarrow> string option) \<Rightarrow> (nat \<Rightarrow> err + uuid) \<Rightarrow>
     (err + uuid \<Rightarrow> FakeQueue \<Rightarrow> (err + Message) \<times> FakeQueue) \<Rightarrow> nat \<Rightarrow> FakeQueue \<Rightarrow> (err option \<times> FakeQueue) option" where
  "fakeConsumeLoop ctxDone h draws receive k q =
     (if ctxDone k then Some (None, q)
      else case receive (draws k) q of
        (Inl e, q') \<Rightarrow>
          if errors_Is e ErrQueueEmpty \<or> errors_Is e ErrQueuePaused then
            (if ctxDone (Suc k) then Some (None, q') else fakeConsumeLoop ctxDone h draws receive (Suc k) q')
          else Some (Some e, q')
      | (Inr msg, q') \<Rightarrow>
          fakeConsumeLoop ctxDone h draws receive (Suc k)
            (snd (case h k msg of
                    Some herr \<Rightarrow> fakeNack (Message_Receipt msg) q'
                  | None \<Rightarrow> fakeAck (Message_Receipt msg) q')))"

declare fakeConsumeLoop.simps [code]

definition fakeConsumeChannel ::
    "(nat \<Rightarrow> bool) \<Rightarrow> (nat \<Rightarrow> Message \<Rightarrow> string option) \<Rightarrow> (nat \<Rightarrow> err + uuid) \<Rightarrow> string \<Rightarrow> FakeQueue \<Rightarrow>
     (err option \<times> FakeQueue) option" where
  "fakeConsumeChannel ctxDone h draws name =
     fakeConsumeLoop ctxDone h draws (\<lambda>draw. fakeReceiveChannel draw name) 0"

definition fakeConsumeTopic ::
    "(nat \<Rightarrow> bool) \<Rightarrow> (nat \<Rightarrow> Message \<Rightarrow> string option) \<Rightarrow> (nat \<Rightarrow> err + uuid) \<Rightarrow> string \<Rightarrow> string \<Rightarrow> FakeQueue \<Rightarrow>
     (err option \<times> FakeQueue) option" where
  "fakeConsumeTopic ctxDone h draws name subscriberID =
     fakeConsumeLoop ctxDone h draws (\<lambda>draw. fakeReceiveTopic draw name subscriberID) 0"

end
