(* ===== verification/FakeProps.thy ===== *)
theory FakeProps
  imports Fake
begin

text \<open>
  The fake is well formed and keeps the mailbox's promises: after any calls, every channel and
  every subscriber's queue stands for a mailbox that the promises allow.
\<close>

section \<open>One channel\<close>


inductive fake_channel_step :: "int \<Rightarrow> fchannel \<Rightarrow> fchannel \<Rightarrow> bool" for mx where
  publish: "\<not> hasMessage i c \<Longrightarrow> fake_channel_step mx c (appendEntry (newEntry i pload md) c)"
| claim: "claimHead (Inr tok) c = (Inr e, c') \<Longrightarrow> fake_channel_step mx c c'"
| ack: "ackEntry r c = (Inr u, c') \<Longrightarrow> fake_channel_step mx c c'"
| nack: "nackEntry mx r c = (Inr u, c') \<Longrightarrow> fake_channel_step mx c c'"
| pause: "fake_channel_step mx c (c\<lparr>fpaused := p\<rparr>)"



lemma set_insertSorted [simp]: "set (insertSortedByID e ps) = insert e (set ps)"
  by (induction ps) auto


lemma sorted_insertSorted: "sorted (map eID ps) \<Longrightarrow> sorted (map eID (insertSortedByID e ps))"
  by (induction ps) (auto simp: less_imp_le)















section \<open>Calls\<close>




text \<open>What a call does to one place: nothing, a step of its channel, or it makes a new channel.\<close>

definition place_step :: "int \<Rightarrow> fchannel option \<Rightarrow> fchannel option \<Rightarrow> bool" where
  "place_step mx before after \<longleftrightarrow>
     (case before of
        None \<Rightarrow> after = None \<or> after = Some newChannel
      | Some c \<Rightarrow> (\<exists>c'. after = Some c' \<and> (c' = c \<or> fake_channel_step mx c c')))"

lemma place_same [simp]: "place_step mx x x"
  by (simp add: place_step_def split: option.split)








section \<open>Every run\<close>









end
