(* ===== verification/Migrations.thy ===== *)
theory Migrations
  imports Names Queries Listener
begin

text \<open>
  \<^verbatim>\<open>migrations.go\<close> and \<^verbatim>\<open>index_repair.go\<close>: the versioned schema changes run by \<^verbatim>\<open>InitSchema\<close> and the
  repair of indexes left invalid by an interrupted build.  A migration acts on the rest of the
  schema, an arbitrary type \<open>'w\<close>; the version table, the indexes of the catalogue and the session of
  the dedicated connection are explicit.
\<close>

section \<open>State\<close>

record pgindex =
  ixSchema :: string
  ixName :: string
  ixDef :: string
  indisvalid :: bool

record 'w schema_db =
  world :: 'w
  pgqueue_schema_version :: "(int \<times> string) list option"
  pg_index :: "pgindex list"
  adv_locked :: bool
  search_path :: string

record 'w migration =
  migVersion :: int
  migName :: string
  migApply :: "('w, unit) txm option"
  migApplyNonTx :: "('w, unit) txm option"

definition SchemaVersion :: int where
  "SchemaVersion = 1"

definition onWorld :: "('w, 'a) txm \<Rightarrow> ('w schema_db, 'a) txm" where
  "onWorld = zoom world (\<lambda>w d. d\<lparr>world := w\<rparr>)"

text \<open>The base schema is one statement; the world of the released migrations is whether it exists.\<close>

definition migrations :: "env \<Rightarrow> bool migration list" where
  "migrations env =
     [\<lparr>migVersion = 1, migName = ''initial schema'', migApply = Some (stmt env (\<lambda>n w. ((), True))),
       migApplyNonTx = None\<rparr>]"

datatype migration_check = WellFormed | BadVersion nat int | NoPhase int | StaleSchemaVersion int | IndexOutOfRange

fun check_entries :: "nat \<Rightarrow> 'w migration list \<Rightarrow> migration_check" where
  "check_entries i [] = WellFormed"
| "check_entries i (m # ms) =
     (if migVersion m \<noteq> int i + 1 then BadVersion i (migVersion m)
      else if migApply m = None \<and> migApplyNonTx m = None then NoPhase (migVersion m)
      else check_entries (Suc i) ms)"

definition validateMigrations :: "'w migration list \<Rightarrow> migration_check" where
  "validateMigrations ms =
     (case check_entries 0 ms of
        WellFormed \<Rightarrow>
          if ms = [] then IndexOutOfRange
          else if migVersion (last ms) \<noteq> SchemaVersion then StaleSchemaVersion (migVersion (last ms))
          else WellFormed
      | e \<Rightarrow> e)"

section \<open>Versions\<close>

definition recorded :: "'w schema_db \<Rightarrow> (int \<times> string) list" where
  "recorded d = (case pgqueue_schema_version d of None \<Rightarrow> [] | Some rows \<Rightarrow> rows)"

text \<open>A statement outside a transaction that the server may reject.\<close>

definition autocommitE :: "env \<Rightarrow> (nat \<Rightarrow> 's \<Rightarrow> err + ('a \<times> 's)) \<Rightarrow> ('s, 'a) txm" where
  "autocommitE env f = (\<lambda>(n, s).
     case f n s of
       Inl e \<Rightarrow> (Inl (case driver env n of None \<Rightarrow> e | Some flt \<Rightarrow> fault_err flt), Suc n, s)
     | Inr r \<Rightarrow> autocommit env (\<lambda>_ _. r) (n, s))"

definition schemaVersion :: "env \<Rightarrow> ('w schema_db, int) txm" where
  "schemaVersion env =
     autocommitE env (\<lambda>n d.
       case pgqueue_schema_version d of
         None \<Rightarrow> Inl (ErrDriver (pg_error env ''42P01''))
       | Some rows \<Rightarrow> Inr (if rows = [] then 0 else Max (set (map fst rows)), d))"

definition loadSchemaVersion :: "env \<Rightarrow> ('w schema_db, int) txm" where
  "loadSchemaVersion env =
     bindT (autocommit env (\<lambda>n d. ((), d\<lparr>pgqueue_schema_version := Some (recorded d)\<rparr>))) (\<lambda>_.
     bindT (schemaVersion env) (\<lambda>current.
       if current > SchemaVersion then failT ErrSchemaTooNew else returnT current))"

definition insertVersion :: "env \<Rightarrow> int \<Rightarrow> string \<Rightarrow> ('w schema_db, unit) txm" where
  "insertVersion env v desc =
     stmtE env (\<lambda>n d.
       case pgqueue_schema_version d of
         None \<Rightarrow> Inl (ErrDriver (pg_error env ''42P01''))
       | Some rows \<Rightarrow>
           if v \<in> fst ` set rows then Inl (ErrDriver (pg_error env ''23505''))
           else Inr ((), d\<lparr>pgqueue_schema_version := Some (rows @ [(v, desc)])\<rparr>))"

definition applyMigration :: "env \<Rightarrow> 'w migration \<Rightarrow> ('w schema_db, unit) txm" where
  "applyMigration env m =
     bindT (case migApplyNonTx m of None \<Rightarrow> returnT () | Some f \<Rightarrow> onWorld f) (\<lambda>_.
       withTx env (bindT (case migApply m of None \<Rightarrow> returnT () | Some f \<Rightarrow> onWorld f) (\<lambda>_.
         insertVersion env (migVersion m) (migName m))))"

fun applyMigrations :: "env \<Rightarrow> int \<Rightarrow> 'w migration list \<Rightarrow> ('w schema_db, unit) txm" where
  "applyMigrations env current [] = returnT ()"
| "applyMigrations env current (m # ms) =
     (if migVersion m \<le> current then applyMigrations env current ms
      else bindT (applyMigration env m) (\<lambda>_. applyMigrations env current ms))"

definition AppliedSchemaVersion :: "env \<Rightarrow> ('w schema_db, int) txm" where
  "AppliedSchemaVersion env =
     bindT (autocommit env (\<lambda>n d. (pgqueue_schema_version d \<noteq> None, d))) (\<lambda>exists.
       if \<not> exists then returnT 0 else schemaVersion env)"

section \<open>Index repair\<close>

definition idx_prefix :: string where
  "idx_prefix = ''idx_pgqueue_''"

definition findInvalidIndexes :: "env \<Rightarrow> string \<Rightarrow> ('w schema_db, pgindex list) txm" where
  "findInvalidIndexes env schema =
     autocommit env (\<lambda>n d.
       (filter (\<lambda>ix. \<not> indisvalid ix \<and> ixSchema ix = schema \<and> take (length idx_prefix) (ixName ix) = idx_prefix)
          (pg_index d), d))"

definition quoteIdent :: "string \<Rightarrow> string" where
  "quoteIdent s = quote_char # double_quotes s @ [quote_char]"

definition same_index :: "pgindex \<Rightarrow> pgindex \<Rightarrow> bool" where
  "same_index a b \<longleftrightarrow> ixSchema a = ixSchema b \<and> ixName a = ixName b"

text \<open>
  The captured definition builds the index again under the same name, all of it or nothing; the
  server rejects it while a relation of that name exists.
\<close>

definition recreateIndex :: "env \<Rightarrow> pgindex \<Rightarrow> ('w schema_db, unit) txm" where
  "recreateIndex env idx =
     bindT (autocommit env (\<lambda>n d. ((), d\<lparr>pg_index := filter (\<lambda>ix. \<not> same_index idx ix) (pg_index d)\<rparr>))) (\<lambda>_.
       autocommitE env (\<lambda>n d.
         if \<exists>ix \<in> set (pg_index d). same_index idx ix then Inl (ErrDriver (pg_error env ''42P07''))
         else Inr ((), d\<lparr>pg_index := pg_index d @ [idx\<lparr>indisvalid := True\<rparr>]\<rparr>)))"

record RepairResult =
  Repaired :: "string list"
  Failed :: "string list"

fun repairEach :: "env \<Rightarrow> pgindex list \<Rightarrow> RepairResult \<Rightarrow> ('w schema_db, RepairResult) txm" where
  "repairEach env [] result = returnT result"
| "repairEach env (idx # rest) result = (\<lambda>nd.
     case recreateIndex env idx nd of
       (Inl e, nd') \<Rightarrow> repairEach env rest (result\<lparr>Failed := Failed result @ [ixName idx]\<rparr>) nd'
     | (Inr _, nd') \<Rightarrow> repairEach env rest (result\<lparr>Repaired := Repaired result @ [ixName idx]\<rparr>) nd')"

definition repairInvalidIndexes :: "env \<Rightarrow> string \<Rightarrow> ('w schema_db, RepairResult) txm" where
  "repairInvalidIndexes env schema =
     (let schema = (if schema = '''' then defaultSchemaName else schema) in
      bindT (findInvalidIndexes env schema) (\<lambda>invalid.
        repairEach env invalid \<lparr>Repaired = [], Failed = []\<rparr>))"

definition repairIndexesAfterMigrations :: "env \<Rightarrow> string \<Rightarrow> ('w schema_db, unit) txm" where
  "repairIndexesAfterMigrations env schema =
     bindT (repairInvalidIndexes env schema) (\<lambda>result. returnT ())"

section \<open>The dedicated connection\<close>

text \<open>
  \<^verbatim>\<open>defer\<close>: the release runs on every path after the acquisition succeeded, and an error of it is
  logged and dropped.
\<close>

definition deferT :: "('s, unit) txm \<Rightarrow> ('s, 'a) txm \<Rightarrow> ('s, 'a) txm" where
  "deferT release body = (\<lambda>ns. case body ns of (r, ns') \<Rightarrow> (r, snd (release ns')))"

definition dbConn :: "env \<Rightarrow> ('s, unit) txm" where
  "dbConn env = autocommit env (\<lambda>n d. ((), d))"

definition acquireMigrationLock :: "env \<Rightarrow> ('w schema_db, unit) txm" where
  "acquireMigrationLock env = autocommit env (\<lambda>n d. ((), d\<lparr>adv_locked := True\<rparr>))"

definition releaseLock :: "env \<Rightarrow> ('w schema_db, unit) txm" where
  "releaseLock env = autocommit env (\<lambda>n d. ((), d\<lparr>adv_locked := False\<rparr>))"

definition configureMigrationSchema :: "env \<Rightarrow> string \<Rightarrow> ('w schema_db, unit) txm" where
  "configureMigrationSchema env schema =
     (if schemaTablePrefix schema = '''' then returnT ()
      else bindT (autocommit env (\<lambda>n d. ((), d))) (\<lambda>_.
        autocommit env (\<lambda>n d. ((), d\<lparr>search_path := schema\<rparr>))))"

definition resetSearchPath :: "env \<Rightarrow> string \<Rightarrow> ('w schema_db, unit) txm" where
  "resetSearchPath env schema =
     (if schemaTablePrefix schema = '''' then returnT ()
      else autocommit env (\<lambda>n d. ((), d\<lparr>search_path := ''''\<rparr>)))"

definition runMigrations :: "env \<Rightarrow> 'w migration list \<Rightarrow> string \<Rightarrow> ('w schema_db, unit) txm" where
  "runMigrations env ms schema =
     bindT (dbConn env) (\<lambda>_.
     bindT (acquireMigrationLock env) (\<lambda>_.
     deferT (releaseLock env)
       (bindT (configureMigrationSchema env schema) (\<lambda>_.
        deferT (resetSearchPath env schema)
          (bindT (loadSchemaVersion env) (\<lambda>current.
           bindT (applyMigrations env current ms) (\<lambda>_.
             repairIndexesAfterMigrations env schema)))))))"

definition RepairIndexes :: "Queue \<Rightarrow> env \<Rightarrow> ('w schema_db, RepairResult) txm" where
  "RepairIndexes pq env =
     bindT (checkClosed pq) (\<lambda>_.
     bindT (dbConn env) (\<lambda>_.
     bindT (acquireMigrationLock env) (\<lambda>_.
     deferT (releaseLock env) (repairInvalidIndexes env (schemaName (cfg pq))))))"

end
