(* ===== verification/MigrationsProps.thy ===== *)
theory MigrationsProps
  imports Migrations Sample
begin

text \<open>
  A recorded schema version is one whose migration has taken effect, whatever fails on the way; what
  the index repair restores, and what it loses when a rebuild fails.
\<close>

section \<open>Statements on the connection\<close>

lemma autocommitE_cases:
  assumes "autocommitE env f (n, s) = (r, n', s')"
  obtains (unchanged) e where "r = Inl e" "s' = s"
    | (lost) e a where "r = Inl e" "f n s = Inr (a, s')"
    | (ran) a where "r = Inr a" "f n s = Inr (a, s')"
  using assms
  by (auto simp: autocommitE_def autocommit_def split: sum.splits option.splits prod.splits fault.splits)

lemma bindT_cases:
  assumes "bindT m k (n, s) = (r, n', s')"
  obtains (first) e where "m (n, s) = (Inl e, n', s')" "r = Inl e"
    | (both) a n1 s1 where "m (n, s) = (Inr a, n1, s1)" "k a (n1, s1) = (r, n', s')"
  using assms by (auto simp: bindT_app split: prod.splits sum.splits)

lemma deferT_cases:
  assumes "deferT rel body (n, s) = (r, n', s')"
  obtains n1 s1 r2 where "body (n, s) = (r, n1, s1)" and "rel (n1, s1) = (r2, n', s')"
  using assms by (auto simp: deferT_def split: prod.splits) (metis prod.collapse)

section \<open>Recorded versions\<close>

text \<open>
  \<open>P v\<close> says that the work of migration \<open>v\<close> is present in the schema.  What a migration owes: it keeps the
  work of the earlier ones, also when its non-transactional phase fails halfway, and its phases
  together do its own.
\<close>

definition done_to :: "(int \<Rightarrow> 'w \<Rightarrow> bool) \<Rightarrow> int \<Rightarrow> 'w \<Rightarrow> bool" where
  "done_to P k w \<longleftrightarrow> (\<forall>v. 1 \<le> v \<and> v \<le> k \<longrightarrow> P v w)"

definition migration_sound :: "(int \<Rightarrow> 'w \<Rightarrow> bool) \<Rightarrow> 'w migration \<Rightarrow> bool" where
  "migration_sound P m \<longleftrightarrow>
     (\<forall>f n w r n' w'. migApplyNonTx m = Some f \<longrightarrow> done_to P (migVersion m - 1) w \<longrightarrow> f (n, w) = (r, n', w') \<longrightarrow>
        done_to P (migVersion m - 1) w' \<and> (migApply m = None \<and> r = Inr () \<longrightarrow> done_to P (migVersion m) w')) \<and>
     (\<forall>f. migApply m = Some f \<longrightarrow> hoare (done_to P (migVersion m - 1)) f (\<lambda>_. done_to P (migVersion m)))"

definition at_version :: "(int \<Rightarrow> 'w \<Rightarrow> bool) \<Rightarrow> int \<Rightarrow> 'w schema_db \<Rightarrow> bool" where
  "at_version P k d \<longleftrightarrow> 0 \<le> k \<and> map fst (recorded d) = [1..k] \<and> done_to P k (world d)"

lemma onWorld_app: "onWorld f (n, d) = (case f (n, world d) of (r, n', w) \<Rightarrow> (r, n', d\<lparr>world := w\<rparr>))"
  by (simp add: onWorld_def zoom_def)

lemma recorded_world [simp]: "recorded (d\<lparr>world := w\<rparr>) = recorded d"
  by (simp add: recorded_def)

lemma insertVersion_at:
  assumes "insertVersion env v desc (n, d) = (Inr u, n', d')" and "map fst (recorded d) = [1..v - 1]"
    and "0 \<le> v - 1" and "done_to P v (world d)"
  shows "at_version P v d'"
proof -
  have "[1..v] = [1..v - 1] @ [v]" using assms(3) by (simp add: upto_rec2)
  then show ?thesis
    using assms by (auto simp: insertVersion_def stmtE_def at_version_def recorded_def
        split: option.splits sum.splits if_splits)
qed

lemma apply_body:
  assumes "migration_sound P m" and "at_version P (migVersion m - 1) d"
    and "migApply m = None \<Longrightarrow> done_to P (migVersion m) (world d)"
    and "bindT (case migApply m of None \<Rightarrow> returnT () | Some f \<Rightarrow> onWorld f)
           (\<lambda>_. insertVersion env (migVersion m) (migName m)) (n, d) = (Inr u, n', d')"
  shows "at_version P (migVersion m) d'"
  using assms(4)
proof (cases rule: bindT_cases)
  case (both a n1 d1)
  have "done_to P (migVersion m) (world d1) \<and> recorded d1 = recorded d"
    using both(1) assms(1-3)
    by (auto simp: onWorld_app returnT_def migration_sound_def at_version_def split: option.splits prod.splits
        dest: hoareD)
  then show ?thesis
    using both(2) assms(2) by (intro insertVersion_at) (auto simp: at_version_def)
qed simp

lemma applyMigration_at:
  assumes "migration_sound P m" and "migApply m \<noteq> None \<or> migApplyNonTx m \<noteq> None"
    and "at_version P (migVersion m - 1) d" and "applyMigration env m (n, d) = (r, n', d')"
  shows "at_version P (migVersion m) d' \<or> (at_version P (migVersion m - 1) d' \<and> (\<exists>e. r = Inl e))"
  using assms(4) unfolding applyMigration_def
proof (cases rule: bindT_cases)
  case (first e)
  then show ?thesis
    using assms(1,3)
    by (auto simp: onWorld_app returnT_def migration_sound_def at_version_def split: option.splits prod.splits)
next
  case (both a n1 d1)
  have d1: "at_version P (migVersion m - 1) d1" "migApply m = None \<Longrightarrow> done_to P (migVersion m) (world d1)"
    using both(1) assms(1-3)
    by (auto simp: onWorld_app returnT_def migration_sound_def at_version_def split: option.splits prod.splits)
  show ?thesis
    using both(2)
  proof (cases rule: withTx_cases)
    case (unchanged e)
    then show ?thesis using d1 by auto
  qed (use apply_body [OF assms(1) d1] in auto)
qed

lemma applyMigrations_at:
  assumes "\<forall>m \<in> set ms. migration_sound P m" and "check_entries i ms = WellFormed"
    and "at_version P k d" and "k = max current (int i)" and "0 \<le> current"
    and "applyMigrations env current ms (n, d) = (r, n', d')"
  shows "\<exists>k'. k \<le> k' \<and> at_version P k' d' \<and> (r = Inr () \<longrightarrow> k' = max current (int (i + length ms)))"
  using assms
proof (induction ms arbitrary: i k n d)
  case (Cons m ms)
  from Cons.prems(2) have m: "migVersion m = int i + 1" "migApply m \<noteq> None \<or> migApplyNonTx m \<noteq> None"
    "check_entries (Suc i) ms = WellFormed"
    by (auto split: if_splits)
  show ?case
  proof (cases "migVersion m \<le> current")
    case True
    then have "applyMigrations env current ms (n, d) = (r, n', d')" "k = max current (int (Suc i))"
      using Cons.prems m by auto
    from Cons.IH [OF _ m(3) Cons.prems(3) this(2) Cons.prems(5) this(1)] Cons.prems(1) show ?thesis by auto
  next
    case False
    then have k: "k = int i" "migVersion m - 1 = k" using Cons.prems(4) m by auto
    have at: "at_version P (migVersion m - 1) d" using Cons.prems(3) k by simp
    have sound: "migration_sound P m" using Cons.prems(1) by simp
    have "bindT (applyMigration env m) (\<lambda>_. applyMigrations env current ms) (n, d) = (r, n', d')"
      using Cons.prems(6) False by simp
    then show ?thesis
    proof (cases rule: bindT_cases)
      case (first e)
      then show ?thesis
        using applyMigration_at [OF sound m(2) at first(1)] k by (auto intro: exI [of _ "migVersion m"])
    next
      case (both a n1 d1)
      then have "at_version P (int (Suc i)) d1"
        using applyMigration_at [OF sound m(2) at both(1)] m(1) by (auto simp: add.commute)
      moreover have "int (Suc i) = max current (int (Suc i))" using False m(1) by auto
      ultimately obtain k' where "int (Suc i) \<le> k'" "at_version P k' d'"
        "r = Inr () \<longrightarrow> k' = max current (int (Suc i + length ms))"
        using Cons.IH [OF _ m(3) _ _ Cons.prems(5) both(2)] Cons.prems(1) by auto
      then show ?thesis using k by (intro exI [of _ k']) auto
    qed
  qed
qed (auto simp: returnT_def)

section \<open>A whole run\<close>

text \<open>The parts of a run that leave the versions and the schema alone.\<close>

definition kept :: "'w schema_db \<Rightarrow> 'w schema_db \<Rightarrow> bool" where
  "kept d d' \<longleftrightarrow> recorded d' = recorded d \<and> world d' = world d"

lemma kept_refl [simp]: "kept d d"
  by (simp add: kept_def)

lemma kept_trans: "kept a b \<Longrightarrow> kept b c \<Longrightarrow> kept a c"
  by (simp add: kept_def)

lemma kept_at: "kept d d' \<Longrightarrow> at_version P k d' \<longleftrightarrow> at_version P k d"
  by (simp add: kept_def at_version_def)

lemma kept_autocommit:
  assumes "autocommit env f (n, d) = (r, n', d')" and "\<And>n d. kept d (snd (f n d))"
  shows "kept d d'"
  using assms(1) by (cases rule: autocommit_cases) (use assms(2) in auto)

lemma kept_recreate: "recreateIndex env idx (n, d) = (r, n', d') \<Longrightarrow> kept d d'"
  unfolding recreateIndex_def
  by (erule bindT_cases; (drule kept_autocommit, simp add: kept_def recorded_def)?; (erule autocommitE_cases)?)
    (auto simp: kept_def recorded_def split: if_splits)

lemma kept_repairEach: "repairEach env ixs res (n, d) = (r, n', d') \<Longrightarrow> kept d d'"
proof (induction ixs arbitrary: res n d)
  case (Cons ix ixs)
  obtain r1 n1 d1 where "recreateIndex env ix (n, d) = (r1, n1, d1)" by (rule prod_cases3)
  with Cons show ?case
    by (cases r1) (auto intro: kept_trans [OF kept_recreate])
qed (simp add: returnT_def)

lemma kept_repair: "repairInvalidIndexes env schema (n, d) = (r, n', d') \<Longrightarrow> kept d d'"
  unfolding repairInvalidIndexes_def Let_def findInvalidIndexes_def
  by (erule bindT_cases)
    (auto simp: kept_def dest!: kept_autocommit kept_repairEach intro: kept_trans)

lemma loadSchemaVersion_at:
  assumes "loadSchemaVersion env (n, d) = (r, n', d')" and "at_version P k d"
  shows "kept d d'" and "r = Inr c \<Longrightarrow> c = k \<and> k \<le> SchemaVersion"
proof -
  have max: "rows = [] \<Longrightarrow> k = 0" "rows \<noteq> [] \<Longrightarrow> Max (fst ` set rows) = k"
    if "map fst rows = [1..k]" for rows :: "(int \<times> string) list"
  proof -
    have set: "fst ` set rows = {1..k}" using arg_cong [OF that, of set] by simp
    show "k = 0" if "rows = []" using \<open>map fst rows = [1..k]\<close> that assms(2)
      by (auto simp: at_version_def upto_Nil)
    show "Max (fst ` set rows) = k" if "rows \<noteq> []"
    proof -
      have "{1..k} \<noteq> {}" using that unfolding set [symmetric] by simp
      then show ?thesis unfolding set by (intro Max_eqI) auto
    qed
  qed
  have "kept d d' \<and> (\<forall>c. r = Inr c \<longrightarrow> c = k \<and> k \<le> SchemaVersion)"
    using assms(1) unfolding loadSchemaVersion_def
  proof (cases rule: bindT_cases)
    case (first e)
    then show ?thesis by (auto dest!: kept_autocommit simp: kept_def recorded_def)
  next
    case (both a n1 d1)
    from both(1) have d1: "pgqueue_schema_version d1 = Some (recorded d)" "kept d d1"
      by (cases rule: autocommit_cases; auto simp: kept_def recorded_def)+
    from both(2) show ?thesis
    proof (cases rule: bindT_cases)
      case (first e)
      then show ?thesis using d1 by (auto simp: schemaVersion_def elim!: autocommitE_cases split: option.splits)
    next
      case (both c n2 d2)
      from both(1) have "d2 = d1" "c = (if recorded d = [] then 0 else Max (fst ` set (recorded d)))"
        using d1(1) by (auto simp: schemaVersion_def elim!: autocommitE_cases)
      moreover have "map fst (recorded d) = [1..k]" using assms(2) by (simp add: at_version_def)
      note max [OF this]
      ultimately show ?thesis using both(2) d1(2) by (auto simp: returnT_def failT_def split: if_splits)
    qed
  qed
  then show "kept d d'" "r = Inr c \<Longrightarrow> c = k \<and> k \<le> SchemaVersion" by auto
qed

lemma check_entries_last:
  "check_entries i ms = WellFormed \<Longrightarrow> ms \<noteq> [] \<Longrightarrow> migVersion (last ms) = int (i + length ms)"
  by (induction i ms rule: check_entries.induct) (auto split: if_splits)

lemma validateMigrations_length:
  assumes "validateMigrations ms = WellFormed"
  shows "check_entries 0 ms = WellFormed" and "int (length ms) = SchemaVersion"
  using assms check_entries_last [of 0 ms]
  by (auto simp: validateMigrations_def split: migration_check.splits if_splits)

lemma run_body:
  assumes "validateMigrations ms = WellFormed" and "\<forall>m \<in> set ms. migration_sound P m" and "at_version P k d"
    and "bindT (loadSchemaVersion env) (\<lambda>current. bindT (applyMigrations env current ms) (\<lambda>_.
           repairIndexesAfterMigrations env schema)) (n, d) = (r, n', d')"
  shows "\<exists>k'. k \<le> k' \<and> at_version P k' d' \<and> (r = Inr () \<longrightarrow> k' = SchemaVersion)"
  using assms(4)
proof (cases rule: bindT_cases)
  case (first e)
  then show ?thesis using loadSchemaVersion_at(1) [OF first(1) assms(3)] assms(3) by (auto simp: kept_at)
next
  case (both current n1 d1)
  have cur: "kept d d1" "current = k" "k \<le> SchemaVersion"
    using loadSchemaVersion_at [OF both(1) assms(3)] by auto
  have k: "at_version P k d1" "0 \<le> k" "k = max k (int 0)"
    using assms(3) cur(1) by (auto simp: kept_def at_version_def)
  note len = validateMigrations_length [OF assms(1)]
  from both(2) show ?thesis
  proof (cases rule: bindT_cases)
    case (first e)
    then show ?thesis
      using applyMigrations_at [OF assms(2) len(1) k(1,3,2)] cur(2) by blast
  next
    case (both u n2 d2)
    from applyMigrations_at [OF assms(2) len(1) k(1,3,2) both(1) [unfolded cur(2)]] obtain k' where
      "k \<le> k'" "at_version P k' d2" "k' = SchemaVersion" using len(2) cur(3) by auto
    moreover have "kept d2 d'"
      using both(2) by (auto simp: repairIndexesAfterMigrations_def returnT_def elim!: bindT_cases dest: kept_repair)
    ultimately show ?thesis by (auto simp: kept_at)
  qed
qed

lemma kept_session:
  "acquireMigrationLock env (n, d) = (r, n', d') \<Longrightarrow> kept d d'"
  "releaseLock env (n, d) = (r, n', d') \<Longrightarrow> kept d d'"
  "dbConn env (n, d) = (r, n', d') \<Longrightarrow> kept d d'"
  "resetSearchPath env schema (n, d) = (r, n', d') \<Longrightarrow> kept d d'"
  by (auto simp: acquireMigrationLock_def releaseLock_def dbConn_def resetSearchPath_def kept_def recorded_def
      returnT_def split: if_splits elim!: autocommit_cases)

lemma kept_configure: "configureMigrationSchema env schema (n, d) = (r, n', d') \<Longrightarrow> kept d d'"
  by (auto simp: configureMigrationSchema_def kept_def recorded_def returnT_def
      split: if_splits elim!: bindT_cases autocommit_cases)

lemma run_configured:
  assumes "validateMigrations ms = WellFormed" and "\<forall>m \<in> set ms. migration_sound P m" and "at_version P k d"
    and "bindT (configureMigrationSchema env schema) (\<lambda>_. deferT (resetSearchPath env schema)
           (bindT (loadSchemaVersion env) (\<lambda>current. bindT (applyMigrations env current ms) (\<lambda>_.
             repairIndexesAfterMigrations env schema)))) (n, d) = (r, n', d')"
  shows "\<exists>k'. k \<le> k' \<and> at_version P k' d' \<and> (r = Inr () \<longrightarrow> k' = SchemaVersion)"
  using assms(4)
proof (cases rule: bindT_cases)
  case (first e)
  then show ?thesis using assms(3) kept_configure [OF first(1)] by (auto simp: kept_at)
next
  case (both u n1 d1)
  then have d1: "at_version P k d1" using assms(3) kept_configure by (metis kept_at)
  from both(2) obtain n2 d2 r2 where body: "bindT (loadSchemaVersion env) (\<lambda>current.
      bindT (applyMigrations env current ms) (\<lambda>_. repairIndexesAfterMigrations env schema)) (n1, d1) = (r, n2, d2)"
    and "resetSearchPath env schema (n2, d2) = (r2, n', d')" by (rule deferT_cases)
  then have "kept d2 d'" by (blast intro: kept_session)
  then show ?thesis using run_body [OF assms(1,2) d1 body] by (auto simp: kept_at)
qed

lemma runMigrations_at:
  assumes "validateMigrations ms = WellFormed" and "\<forall>m \<in> set ms. migration_sound P m" and "at_version P k d"
    and "runMigrations env ms schema (n, d) = (r, n', d')"
  shows "\<exists>k'. k \<le> k' \<and> at_version P k' d' \<and> (r = Inr () \<longrightarrow> k' = SchemaVersion)"
  using assms(4) unfolding runMigrations_def
proof (cases rule: bindT_cases)
  case (first e)
  then show ?thesis using assms(3) kept_session(3) [OF first(1)] by (auto simp: kept_at)
next
  case (both u n1 d1)
  then have d1: "at_version P k d1" using assms(3) kept_session(3) by (metis kept_at)
  from both(2) show ?thesis
  proof (cases rule: bindT_cases)
    case (first e)
    then show ?thesis using d1 kept_session(1) [OF first(1)] by (auto simp: kept_at)
  next
    case (both u n2 d2)
    then have d2: "at_version P k d2" using d1 kept_session(1) by (metis kept_at)
    from both(2) obtain n3 d3 r3 where body: "bindT (configureMigrationSchema env schema) (\<lambda>_.
        deferT (resetSearchPath env schema) (bindT (loadSchemaVersion env) (\<lambda>current.
          bindT (applyMigrations env current ms) (\<lambda>_. repairIndexesAfterMigrations env schema)))) (n2, d2) = (r, n3, d3)"
      and "releaseLock env (n3, d3) = (r3, n', d')" by (rule deferT_cases)
    then have "kept d3 d'" by (blast intro: kept_session)
    then show ?thesis using run_configured [OF assms(1,2) d2 body] by (auto simp: kept_at)
  qed
qed

text \<open>
  C17.  A schema version is recorded exactly when its migration has taken effect: from a database whose
  recorded versions are 1 to k with the work of each present, a migration run that is cut short by
  any fault, a lost commit reply included, leaves the recorded versions contiguous and not fewer,
  again with the work of each present; and a run that reports success has reached the version
  this binary knows.
\<close>

theorem runMigrations_consistent:
  assumes "validateMigrations ms = WellFormed" and "\<forall>m \<in> set ms. migration_sound P m" and "at_version P k d"
    and "runMigrations env ms schema (n, d) = (r, n', d')"
  shows "\<exists>k'. k \<le> k' \<and> at_version P k' d' \<and> (r = Inr () \<longrightarrow> k' = SchemaVersion)"
  using assms by (rule runMigrations_at)

text \<open>The released migrations: the base schema of version 1 exists.\<close>

definition base_present :: "int \<Rightarrow> bool \<Rightarrow> bool" where
  "base_present v w \<longleftrightarrow> (v = 1 \<longrightarrow> w)"

lemma migrations_sound: "m \<in> set (migrations env) \<Longrightarrow> migration_sound base_present m"
  by (auto simp: migrations_def migration_sound_def done_to_def base_present_def hoare_def stmt_def split: option.splits)

lemma migrations_wellformed: "validateMigrations (migrations env) = WellFormed"
  by (simp add: validateMigrations_def migrations_def SchemaVersion_def)

definition fresh_db :: "bool schema_db" where
  "fresh_db = \<lparr>world = False, pgqueue_schema_version = None, pg_index = [], adv_locked = False, search_path = ''''\<rparr>"

theorem runMigrations_consistent_witness:
  "\<exists>k' r n' d'. runMigrations env0 (migrations env0) ''app'' (0, fresh_db) = (r, n', d') \<and> r = Inr () \<and>
     at_version base_present k' d' \<and> k' = 1 \<and> \<not> adv_locked d'"
proof -
  obtain r n' d' where run: "runMigrations env0 (migrations env0) ''app'' (0, fresh_db) = (r, n', d')" by (rule prod_cases3)
  have ok: "case runMigrations env0 (migrations env0) ''app'' (0, fresh_db) of (r, n', d') \<Rightarrow> r = Inr () \<and> \<not> adv_locked d'"
    by code_simp
  have start: "at_version base_present 0 fresh_db" by (auto simp: at_version_def fresh_db_def recorded_def done_to_def)
  have sound: "\<forall>m \<in> set (migrations env0). migration_sound base_present m" using migrations_sound by blast
  from runMigrations_consistent [OF migrations_wellformed sound start run] ok run show ?thesis
    by (auto simp: SchemaVersion_def)
qed

section \<open>Index repair\<close>

definition broken :: "string \<Rightarrow> pgindex \<Rightarrow> bool" where
  "broken schema ix \<longleftrightarrow> \<not> indisvalid ix \<and> ixSchema ix = schema \<and> (\<exists>rest. ixName ix = ''idx_pgqueue_'' @ rest)"

lemma findInvalidIndexes_ok:
  "driver env n = None \<Longrightarrow> findInvalidIndexes env schema (n, d) = (Inr (filter (broken schema) (pg_index d)), Suc n, d)"
proof -
  have "take (length idx_prefix) name = idx_prefix \<longleftrightarrow> (\<exists>rest. name = ''idx_pgqueue_'' @ rest)" for name
    unfolding idx_prefix_def by (metis append_eq_conv_conj append_take_drop_id)
  then show "driver env n = None \<Longrightarrow> ?thesis"
    by (simp add: findInvalidIndexes_def autocommit_ok broken_def cong: filter_cong)
qed

definition rebuild :: "pgindex \<Rightarrow> pgindex list \<Rightarrow> pgindex list" where
  "rebuild idx l = filter (\<lambda>ix. \<not> same_index idx ix) l @ [idx\<lparr>indisvalid := True\<rparr>]"

lemma recreateIndex_ok:
  "no_faults env \<Longrightarrow>
   recreateIndex env idx (n, d) = (Inr (), Suc (Suc n), d\<lparr>pg_index := rebuild idx (pg_index d)\<rparr>)"
  by (auto simp: recreateIndex_def bindT_app autocommit_ok autocommitE_def rebuild_def)

lemma repairEach_ok:
  "no_faults env \<Longrightarrow>
   repairEach env ixs res (n, d) =
     (Inr (res\<lparr>Repaired := Repaired res @ map ixName ixs\<rparr>), n + 2 * length ixs, d\<lparr>pg_index := fold rebuild ixs (pg_index d)\<rparr>)"
  by (induction ixs arbitrary: res n d) (simp_all add: returnT_def recreateIndex_ok)

lemma set_rebuild:
  "pairwise (\<lambda>a b. \<not> same_index a b) (set ixs) \<Longrightarrow> distinct ixs \<Longrightarrow>
   set (fold rebuild ixs l) =
     {ix \<in> set l. \<forall>i \<in> set ixs. \<not> same_index i ix} \<union> (\<lambda>i. i\<lparr>indisvalid := True\<rparr>) ` set ixs"
proof (induction ixs arbitrary: l)
  case (Cons i ixs)
  then have "\<forall>j \<in> set ixs. \<not> same_index j i" by (auto simp: pairwise_insert same_index_def)
  then have "\<forall>j \<in> set ixs. \<not> same_index j (i\<lparr>indisvalid := True\<rparr>)" by (simp add: same_index_def)
  with Cons show ?case by (auto simp: rebuild_def pairwise_insert)
qed simp

lemma distinct_keys_pairwise:
  assumes "distinct (map (\<lambda>ix. (ixSchema ix, ixName ix)) l)"
  shows "pairwise (\<lambda>a b. \<not> same_index a b) (set l)" and "distinct l"
  using assms by (auto simp: pairwise_def same_index_def distinct_map inj_on_def)

text \<open>
  When nothing fails, the repair pass rebuilds exactly the invalid indexes of pgqueue in its schema:
  they are valid afterwards with the definition they had, every other index is untouched, the
  result names them, and recorded versions and tables are left alone.
\<close>

theorem repairIndexes_exact:
  assumes "no_faults env" and "schema \<noteq> ''''"
    and "distinct (map (\<lambda>ix. (ixSchema ix, ixName ix)) (pg_index d))"
  shows "\<exists>res n' d'. repairInvalidIndexes env schema (n, d) = (Inr res, n', d') \<and>
           Failed res = [] \<and> set (Repaired res) = ixName ` {ix \<in> set (pg_index d). broken schema ix} \<and>
           set (pg_index d') = (\<lambda>ix. if broken schema ix then ix\<lparr>indisvalid := True\<rparr> else ix) ` set (pg_index d) \<and>
           \<not> (\<exists>ix \<in> set (pg_index d'). broken schema ix) \<and>
           recorded d' = recorded d \<and> world d' = world d"
proof -
  let ?bad = "filter (broken schema) (pg_index d)" and ?l = "fold rebuild (filter (broken schema) (pg_index d)) (pg_index d)"
  note key = distinct_keys_pairwise [OF assms(3)]
  have run: "repairInvalidIndexes env schema (n, d) =
      (Inr \<lparr>Repaired = map ixName ?bad, Failed = []\<rparr>, Suc n + 2 * length ?bad, d\<lparr>pg_index := ?l\<rparr>)"
    using assms(1,2) by (simp add: repairInvalidIndexes_def bindT_app findInvalidIndexes_ok repairEach_ok)
  have "pairwise (\<lambda>a b. \<not> same_index a b) (set ?bad)" using key(1) by (rule pairwise_subset) auto
  then have "set ?l = {ix \<in> set (pg_index d). \<forall>i \<in> set ?bad. \<not> same_index i ix} \<union> (\<lambda>i. i\<lparr>indisvalid := True\<rparr>) ` set ?bad"
    by (rule set_rebuild) (simp add: key(2))
  moreover have "(\<forall>i \<in> set ?bad. \<not> same_index i ix) \<longleftrightarrow> \<not> broken schema ix" if "ix \<in> set (pg_index d)" for ix
    using key(1) that by (auto simp: pairwise_def same_index_def)
  ultimately have set: "set ?l = (\<lambda>ix. if broken schema ix then ix\<lparr>indisvalid := True\<rparr> else ix) ` set (pg_index d)" by auto
  have "\<not> broken schema (ix\<lparr>indisvalid := True\<rparr>)" for ix by (simp add: broken_def)
  then have nb: "\<not> (\<exists>ix \<in> set ?l. broken schema ix)" unfolding set by auto
  define d' where "d' = d\<lparr>pg_index := ?l\<rparr>"
  have d': "pg_index d' = ?l" "recorded d' = recorded d" "world d' = world d" by (simp_all add: d'_def recorded_def)
  have "set (map ixName ?bad) = ixName ` {ix \<in> set (pg_index d). broken schema ix}" by simp
  then show ?thesis
    using run [folded d'_def] set [folded d'(1)] nb [folded d'(1)] d'(2,3)
    by (intro exI conjI) (assumption | simp only: RepairResult.simps)+
qed

lemma quoteIdent_eq: "quoteIdent = quoteListenIdent"
  by (rule ext) (simp add: quoteIdent_def quoteListenIdent_def)

definition broken_index :: pgindex where
  "broken_index = \<lparr>ixSchema = ''public'', ixName = ''idx_pgqueue_msg_orders_status'', ixDef = ''CREATE INDEX'', indisvalid = False\<rparr>"

theorem repairIndexes_exact_witness:
  "\<exists>res n' d'. repairInvalidIndexes env0 ''public'' (0, fresh_db\<lparr>pg_index := [broken_index]\<rparr>) = (Inr res, n', d') \<and>
     set (pg_index d') = {broken_index\<lparr>indisvalid := True\<rparr>}"
  using repairIndexes_exact [OF no_faults_env0, of "''public''" "fresh_db\<lparr>pg_index := [broken_index]\<rparr>" 0]
  by (auto simp: broken_def broken_index_def)

text \<open>
  C38.  A rebuild that fails loses the index for good: it has been dropped before, so it is reported as
  failed, it is gone from the catalogue, and a later pass in which nothing fails finds nothing to
  repair and does not bring it back.
\<close>

theorem failed_rebuild_loses_index:
  assumes "schema \<noteq> ''''" and "filter (broken schema) (pg_index d) = [ix]"
    and "driver env n = None" and "driver env (Suc n) = None" and "driver env (Suc (Suc n)) = Some (Fault e)"
    and "no_faults env'"
  shows "\<exists>res n' d'. repairInvalidIndexes env schema (n, d) = (Inr res, n', d') \<and>
           Repaired res = [] \<and> Failed res = [ixName ix] \<and> \<not> (\<exists>x \<in> set (pg_index d'). same_index ix x) \<and>
           (\<exists>n''. repairInvalidIndexes env' schema (m, d') = (Inr \<lparr>Repaired = [], Failed = []\<rparr>, n'', d'))"
proof -
  let ?d = "d\<lparr>pg_index := filter (\<lambda>x. \<not> same_index ix x) (pg_index d)\<rparr>"
  have "recreateIndex env ix (Suc n, d) = (Inl (ErrDriver e), Suc (Suc (Suc n)), ?d)"
    using assms(4,5) by (auto simp: recreateIndex_def bindT_app autocommit_ok autocommitE_def autocommit_def)
  then have run: "repairInvalidIndexes env schema (n, d) = (Inr \<lparr>Repaired = [], Failed = [ixName ix]\<rparr>, Suc (Suc (Suc n)), ?d)"
    using assms(1-3) by (simp add: repairInvalidIndexes_def bindT_app findInvalidIndexes_ok returnT_def)
  have "x = ix" if "x \<in> set (pg_index d)" "broken schema x" for x
  proof -
    have "x \<in> set (filter (broken schema) (pg_index d))" using that by simp
    then show ?thesis unfolding assms(2) by simp
  qed
  then have "filter (broken schema) (pg_index ?d) = []" by (auto simp: filter_empty_conv same_index_def)
  then have "repairInvalidIndexes env' schema (m, ?d) = (Inr \<lparr>Repaired = [], Failed = []\<rparr>, Suc m, ?d)"
    using assms(1,6) by (simp only: repairInvalidIndexes_def if_False Let_def bindT_app findInvalidIndexes_ok no_faultsD)
      (simp add: returnT_def)
  with run show ?thesis by auto
qed

theorem failed_rebuild_loses_index_witness:
  "\<exists>res n' d'. repairInvalidIndexes (env0\<lparr>driver := (\<lambda>n. if n = 2 then Some (Fault \<lparr>SQLState = None, errText = ''reset''\<rparr>) else None)\<rparr>)
     ''public'' (0, fresh_db\<lparr>pg_index := [broken_index]\<rparr>) = (Inr res, n', d') \<and> Failed res = [ixName broken_index] \<and>
     (\<exists>n''. repairInvalidIndexes env0 ''public'' (0, d') = (Inr \<lparr>Repaired = [], Failed = []\<rparr>, n'', d'))"
proof -
  let ?env = "env0\<lparr>driver := (\<lambda>n. if n = 2 then Some (Fault \<lparr>SQLState = None, errText = ''reset''\<rparr>) else None)\<rparr>"
  have "filter (broken ''public'') (pg_index (fresh_db\<lparr>pg_index := [broken_index]\<rparr>)) = [broken_index]"
    by (simp add: broken_def broken_index_def)
  from failed_rebuild_loses_index [OF _ this, of ?env 0 "\<lparr>SQLState = None, errText = ''reset''\<rparr>" env0 0]
  show ?thesis by auto
qed

end
