(* ===== verification/Observability.thy ===== *)
theory Observability
  imports Types
begin

text \<open>
  \<^verbatim>\<open>observability.go\<close>: the hooks into a registered tracer and metrics recorder.  An adapter is what it
  does when it is called: it returns or it panics; a call that may panic yields \<open>Panic\<close>.  The log keeps
  the calls the adapters received and the panics that were recovered.
\<close>

section \<open>Adapters\<close>

datatype 'a go = Ret 'a | Panic

datatype metric_call =
    RecordPublish string int
  | RecordHandle string duration
  | RecordDeliveryLatency string duration
  | RecordAck string bool
  | RecordAckAfterExpired string int
  | ObserveQueueDepth string int
  | ObserveDLQSize string int
  | RecordMetadataParseError string
  | RecordGCRun string duration int int "err option"
  | RecordMissedNotification string

text \<open>
  The dynamic types of an attribute's value that an adapter tells apart; a float is its bits, an error or
  a \<^verbatim>\<open>Stringer\<close> its text, and \<open>AnyOther\<close> holds the type's name and the text \<^verbatim>\<open>%v\<close> prints.
\<close>

datatype any_value =
    AnyString string
  | AnyBool bool
  | AnyInt "64 word"
  | AnyInt8 "8 word"
  | AnyInt16 "16 word"
  | AnyInt32 "32 word"
  | AnyInt64 "64 word"
  | AnyUint8 "8 word"
  | AnyUint16 "16 word"
  | AnyUint32 "32 word"
  | AnyUint "64 word"
  | AnyUint64 "64 word"
  | AnyFloat32 "32 word"
  | AnyFloat64 "64 word"
  | AnyDuration "64 word"
  | AnyTime timestamp
  | AnyError string
  | AnyStringer string
  | AnyOther string string

record Attr =
  Key :: string
  Value :: any_value

definition StringAttr :: "string \<Rightarrow> string \<Rightarrow> Attr" where
  "StringAttr key v = \<lparr>Key = key, Value = AnyString v\<rparr>"

definition Int64Attr :: "string \<Rightarrow> 64 word \<Rightarrow> Attr" where
  "Int64Attr key v = \<lparr>Key = key, Value = AnyInt64 v\<rparr>"

datatype Span = noopSpan | UserSpan nat

datatype span_call = SpanSetError nat err | SpanEnd nat

datatype start_result = StartPanics | NilSpan | Started nat

record observer =
  obsMetrics :: "(metric_call \<Rightarrow> bool) option"
  obsTracer :: "(string \<Rightarrow> Attr list \<Rightarrow> start_result) option"
  spanPanics :: "span_call \<Rightarrow> bool"

record hook_log =
  metricCalls :: "metric_call list"
  spanCalls :: "span_call list"
  recovered :: "string list"

section \<open>Recovering\<close>

definition safeHook :: "string \<Rightarrow> (hook_log \<Rightarrow> 'a go \<times> hook_log) \<Rightarrow> hook_log \<Rightarrow> 'a option go \<times> hook_log" where
  "safeHook name fn l =
     (case fn l of
        (Ret a, l') \<Rightarrow> (Ret (Some a), l')
      | (Panic, l') \<Rightarrow> (Ret None, l'\<lparr>recovered := recovered l' @ [name]\<rparr>))"

definition callMetric :: "(metric_call \<Rightarrow> bool) \<Rightarrow> metric_call \<Rightarrow> hook_log \<Rightarrow> unit go \<times> hook_log" where
  "callMetric panics c l = (if panics c then Panic else Ret (), l\<lparr>metricCalls := metricCalls l @ [c]\<rparr>)"

definition discard :: "'a go \<times> hook_log \<Rightarrow> unit go \<times> hook_log" where
  "discard p = (case p of (Ret _, l) \<Rightarrow> (Ret (), l) | (Panic, l) \<Rightarrow> (Panic, l))"

definition recordMetric :: "observer \<Rightarrow> string \<Rightarrow> metric_call \<Rightarrow> hook_log \<Rightarrow> unit go \<times> hook_log" where
  "recordMetric obs name c l =
     (case obsMetrics obs of
        None \<Rightarrow> (Ret (), l)
      | Some panics \<Rightarrow> discard (safeHook name (callMetric panics c) l))"

section \<open>Metrics\<close>

definition recordPublish :: "observer \<Rightarrow> string \<Rightarrow> int \<Rightarrow> hook_log \<Rightarrow> unit go \<times> hook_log" where
  "recordPublish obs queue n = recordMetric obs ''MetricsRecorder.RecordPublish'' (RecordPublish queue n)"

definition recordHandle :: "observer \<Rightarrow> string \<Rightarrow> duration \<Rightarrow> hook_log \<Rightarrow> unit go \<times> hook_log" where
  "recordHandle obs queue latency = recordMetric obs ''MetricsRecorder.RecordHandle'' (RecordHandle queue latency)"

text \<open>\<^verbatim>\<open>time.Time\<close> in microseconds, its zero value, and \<^verbatim>\<open>Sub\<close>, which saturates at the ends of int64 nanoseconds.\<close>

definition zeroTime :: timestamp where
  "zeroTime = - 62135596800000000"

definition time_Sub :: "timestamp \<Rightarrow> timestamp \<Rightarrow> duration" where
  "time_Sub a b = max (- (2 ^ 63)) (min (2 ^ 63 - 1) ((a - b) * 1000))"

definition recordDeliveryLatency ::
    "observer \<Rightarrow> string \<Rightarrow> timestamp \<Rightarrow> timestamp \<Rightarrow> hook_log \<Rightarrow> unit go \<times> hook_log" where
  "recordDeliveryLatency obs queue createdAt handlerStart l =
     (if obsMetrics obs = None \<or> createdAt = zeroTime then (Ret (), l)
      else recordMetric obs ''MetricsRecorder.RecordDeliveryLatency''
             (RecordDeliveryLatency queue (max (time_Sub handlerStart createdAt) 0)) l)"

definition recordAck :: "observer \<Rightarrow> string \<Rightarrow> bool \<Rightarrow> hook_log \<Rightarrow> unit go \<times> hook_log" where
  "recordAck obs queue ok = recordMetric obs ''MetricsRecorder.RecordAck'' (RecordAck queue ok)"

definition recordAckAfterExpired :: "observer \<Rightarrow> string \<Rightarrow> int \<Rightarrow> hook_log \<Rightarrow> unit go \<times> hook_log" where
  "recordAckAfterExpired obs queue n l =
     (if obsMetrics obs = None \<or> n \<le> 0 then (Ret (), l)
      else recordMetric obs ''MetricsRecorder.RecordAckAfterExpired'' (RecordAckAfterExpired queue n) l)"

definition observeQueueDepth :: "observer \<Rightarrow> string \<Rightarrow> int \<Rightarrow> hook_log \<Rightarrow> unit go \<times> hook_log" where
  "observeQueueDepth obs queue depth = recordMetric obs ''MetricsRecorder.ObserveQueueDepth'' (ObserveQueueDepth queue depth)"

definition observeDLQSize :: "observer \<Rightarrow> string \<Rightarrow> int \<Rightarrow> hook_log \<Rightarrow> unit go \<times> hook_log" where
  "observeDLQSize obs queue sz = recordMetric obs ''MetricsRecorder.ObserveDLQSize'' (ObserveDLQSize queue sz)"

definition recordMetadataParseError :: "observer \<Rightarrow> string \<Rightarrow> hook_log \<Rightarrow> unit go \<times> hook_log" where
  "recordMetadataParseError obs queue =
     recordMetric obs ''MetricsRecorder.RecordMetadataParseError'' (RecordMetadataParseError queue)"

definition recordGCRun ::
    "observer \<Rightarrow> string \<Rightarrow> duration \<Rightarrow> int \<Rightarrow> int \<Rightarrow> err option \<Rightarrow> hook_log \<Rightarrow> unit go \<times> hook_log" where
  "recordGCRun obs queue dur reclaimed purged e =
     recordMetric obs ''MetricsRecorder.RecordGCRun'' (RecordGCRun queue dur reclaimed purged e)"

definition recordMissedNotification :: "observer \<Rightarrow> string \<Rightarrow> hook_log \<Rightarrow> unit go \<times> hook_log" where
  "recordMissedNotification obs queue =
     recordMetric obs ''MetricsRecorder.RecordMissedNotification'' (RecordMissedNotification queue)"

section \<open>Spans\<close>

definition safeStartSpan :: "(string \<Rightarrow> Attr list \<Rightarrow> start_result) \<Rightarrow> string \<Rightarrow> Attr list \<Rightarrow> hook_log \<Rightarrow> Span option go \<times> hook_log" where
  "safeStartSpan start name attrs l =
     (case safeHook ''Tracer.StartSpan''
             (\<lambda>l. (case start name attrs of StartPanics \<Rightarrow> Panic | NilSpan \<Rightarrow> Ret None | Started s \<Rightarrow> Ret (Some (UserSpan s)), l)) l of
        (Ret (Some sp), l') \<Rightarrow> (Ret sp, l')
      | (Ret None, l') \<Rightarrow> (Ret None, l')
      | (Panic, l') \<Rightarrow> (Panic, l'))"

definition startSpan :: "observer \<Rightarrow> string \<Rightarrow> Attr list \<Rightarrow> hook_log \<Rightarrow> Span go \<times> hook_log" where
  "startSpan obs name attrs l =
     (case obsTracer obs of
        None \<Rightarrow> (Ret noopSpan, l)
      | Some start \<Rightarrow>
          (case safeStartSpan start name attrs l of
             (Ret (Some sp), l') \<Rightarrow> (Ret sp, l')
           | (Ret None, l') \<Rightarrow> (Ret noopSpan, l')
           | (Panic, l') \<Rightarrow> (Panic, l')))"

definition callSpan :: "observer \<Rightarrow> span_call \<Rightarrow> hook_log \<Rightarrow> unit go \<times> hook_log" where
  "callSpan obs c l = (if spanPanics obs c then Panic else Ret (), l\<lparr>spanCalls := spanCalls l @ [c]\<rparr>)"

fun spanSetError :: "observer \<Rightarrow> Span \<Rightarrow> err \<Rightarrow> hook_log \<Rightarrow> unit go \<times> hook_log" where
  "spanSetError obs noopSpan e l = (Ret (), l)"
| "spanSetError obs (UserSpan s) e l = callSpan obs (SpanSetError s e) l"

fun spanEnd :: "observer \<Rightarrow> Span \<Rightarrow> hook_log \<Rightarrow> unit go \<times> hook_log" where
  "spanEnd obs noopSpan l = (Ret (), l)"
| "spanEnd obs (UserSpan s) l = callSpan obs (SpanEnd s) l"

definition endSpan :: "observer \<Rightarrow> Span option \<Rightarrow> err option \<Rightarrow> hook_log \<Rightarrow> unit go \<times> hook_log" where
  "endSpan obs sp0 e l =
     (case sp0 of
        None \<Rightarrow> (Ret (), l)
      | Some sp \<Rightarrow> discard (safeHook ''Span.End'' (\<lambda>l.
          case (case e of None \<Rightarrow> (Ret (), l) | Some e \<Rightarrow> spanSetError obs sp e l) of
            (Ret _, l') \<Rightarrow> spanEnd obs sp l'
          | (Panic, l') \<Rightarrow> (Panic, l')) l))"

text \<open>
  How \<^verbatim>\<open>ReplayFrom\<close> ends its span on its first error return: \<^verbatim>\<open>SetError\<close> and the deferred \<^verbatim>\<open>End\<close>, called
  directly.
\<close>

definition replayEndSpan :: "observer \<Rightarrow> Span \<Rightarrow> err \<Rightarrow> hook_log \<Rightarrow> unit go \<times> hook_log" where
  "replayEndSpan obs sp e l =
     (let (r1, l1) = spanSetError obs sp e l; (r2, l2) = spanEnd obs sp l1
      in (if r1 = Panic \<or> r2 = Panic then Panic else Ret (), l2))"

section \<open>No hook escapes\<close>

lemma safeHook_returns: "\<exists>a l'. safeHook name fn l = (Ret a, l')"
  by (auto simp: safeHook_def split: prod.split go.split)

lemma recordMetric_run:
  "recordMetric obs name c l =
     (Ret (),
      case obsMetrics obs of
        None \<Rightarrow> l
      | Some panics \<Rightarrow> l\<lparr>metricCalls := metricCalls l @ [c], recovered := recovered l @ (if panics c then [name] else [])\<rparr>)"
  by (simp add: recordMetric_def safeHook_def callMetric_def discard_def split: option.split)

lemma endSpan_returns: "fst (endSpan obs sp0 e l) = Ret ()"
proof (cases sp0)
  case (Some sp)
  obtain a l' where "safeHook ''Span.End'' (\<lambda>l.
          case (case e of None \<Rightarrow> (Ret (), l) | Some e \<Rightarrow> spanSetError obs sp e l) of
            (Ret _, l') \<Rightarrow> spanEnd obs sp l'
          | (Panic, l') \<Rightarrow> (Panic, l')) l = (Ret a, l')" using safeHook_returns by blast
  then show ?thesis by (simp add: endSpan_def Some discard_def)
qed (simp add: endSpan_def)

lemma startSpan_returns: "\<exists>sp. fst (startSpan obs name attrs l) = Ret sp"
  by (auto simp: startSpan_def safeStartSpan_def safeHook_def split: option.split start_result.split)

lemmas metric_hooks = recordPublish_def recordHandle_def recordDeliveryLatency_def recordAck_def
  recordAckAfterExpired_def observeQueueDepth_def observeDLQSize_def recordMetadataParseError_def
  recordGCRun_def recordMissedNotification_def

text \<open>
  A misbehaving adapter cannot take the queue down: whatever a registered tracer or metrics recorder
  does, panicking or returning a nil span, starting and ending a span and every metric return
  normally, each metric is handed over at most once, exactly the calls that panicked are logged as
  recovered, and a delivery latency is never reported as negative.
\<close>

theorem hooks_contained:
  "(\<exists>sp. fst (startSpan obs name attrs l) = Ret sp) \<and> fst (endSpan obs sp0 e l) = Ret () \<and>
   (\<forall>r \<in> {recordPublish obs q n l, recordHandle obs q d l, recordDeliveryLatency obs q c h l, recordAck obs q b l,
          recordAckAfterExpired obs q n l, observeQueueDepth obs q n l, observeDLQSize obs q n l,
          recordMetadataParseError obs q l, recordGCRun obs q d n m e l, recordMissedNotification obs q l}.
      fst r = Ret () \<and> spanCalls (snd r) = spanCalls l \<and>
      (\<exists>new. metricCalls (snd r) = metricCalls l @ new \<and> length new \<le> 1 \<and>
         length (recovered (snd r)) = length (recovered l) + length (filter (\<lambda>x. \<exists>p. obsMetrics obs = Some p \<and> p x) new) \<and>
         (\<forall>x \<in> set new. \<forall>q' v. x = RecordDeliveryLatency q' v \<longrightarrow> 0 \<le> v)))"
  by (auto simp: startSpan_returns endSpan_returns metric_hooks recordMetric_run split: option.split)

text \<open>
  The span of \<^verbatim>\<open>ReplayFrom\<close> is not ended through \<^verbatim>\<open>endSpan\<close>: a panic of its \<^verbatim>\<open>SetError\<close> or \<^verbatim>\<open>End\<close> reaches
  the caller, and only then.
\<close>

theorem replayEndSpan_escapes:
  "fst (replayEndSpan obs (UserSpan s) e l) = Panic \<longleftrightarrow>
   spanPanics obs (SpanSetError s e) \<or> spanPanics obs (SpanEnd s)"
  by (simp add: replayEndSpan_def callSpan_def)

end
