(* ===== verification/Adapters.thy ===== *)
theory Adapters
  imports Observability
begin

text \<open>
  The adapters that connect the hooks to OpenTelemetry (\<^verbatim>\<open>otelpgqueue/otelpgqueue.go\<close>) and to Prometheus
  (\<^verbatim>\<open>prompgqueue/prompgqueue.go\<close>).  The two libraries are not part of the repository: a recording is the
  list of calls the adapter makes into its library, and a registerer, a meter and a tracer are
  arguments.
\<close>

section \<open>Instruments\<close>

text \<open>The fields of \<^verbatim>\<open>Metrics\<close>, which both adapters name alike.\<close>

datatype instrument =
    publishes | handleDur | deliveryLatency | acks | ackAfterExpired | queueDepthGauge | dlqSize
  | metadataParseErrors | gcRuns | gcDuration | gcReclaimed | gcPurged | missedNotifications

text \<open>A measured number: a count, as \<^verbatim>\<open>int64\<close> or converted to \<^verbatim>\<open>float64\<close>, or the seconds of a duration.\<close>

datatype amount = Count int | Seconds duration

datatype operation = AddTo | ObserveIn | SetTo

section \<open>Prometheus\<close>

datatype go_type = CounterVec | HistogramVec | GaugeVec | OtherCollector

text \<open>Bucket boundaries in milliseconds.\<close>

record prom_opts =
  promName :: string
  promHelp :: string
  promBuckets :: "int list"
  promLabels :: "string list"
  promType :: go_type

definition queueLabel :: string where
  "queueLabel = ''queue''"

definition DefaultLatencyBuckets :: "int list" where
  "DefaultLatencyBuckets = [1, 5, 10, 25, 50, 100, 250, 500, 1000, 2500, 5000, 10000, 30000, 60000]"

definition WithLatencyBuckets :: "int list \<Rightarrow> int list \<Rightarrow> int list" where
  "WithLatencyBuckets buckets latencyBuckets = (if length buckets > 0 then buckets else latencyBuckets)"

definition counter :: "string \<Rightarrow> string \<Rightarrow> string list \<Rightarrow> prom_opts" where
  "counter name help labels = \<lparr>promName = name, promHelp = help, promBuckets = [], promLabels = labels, promType = CounterVec\<rparr>"

definition gauge :: "string \<Rightarrow> string \<Rightarrow> string list \<Rightarrow> prom_opts" where
  "gauge name help labels = \<lparr>promName = name, promHelp = help, promBuckets = [], promLabels = labels, promType = GaugeVec\<rparr>"

definition histogram :: "string \<Rightarrow> string \<Rightarrow> int list \<Rightarrow> string list \<Rightarrow> prom_opts" where
  "histogram name help buckets labels =
     \<lparr>promName = name, promHelp = help, promBuckets = buckets, promLabels = labels, promType = HistogramVec\<rparr>"

fun prom_collector :: "int list \<Rightarrow> instrument \<Rightarrow> prom_opts" where
  "prom_collector b publishes = counter ''pgqueue_publish_messages_total''
     ''Messages published to pgqueue queues.'' [queueLabel]"
| "prom_collector b handleDur = histogram ''pgqueue_handle_duration_seconds''
     ''Handler-only execution latency in seconds (excludes queue wait, fetch, and ack); see DefaultLatencyBuckets for the bucket layout.''
     b [queueLabel]"
| "prom_collector b deliveryLatency = histogram ''pgqueue_delivery_latency_seconds''
     ''Publish-to-delivery latency in seconds: time from message creation to handler start; see DefaultLatencyBuckets for the bucket layout.''
     b [queueLabel]"
| "prom_collector b acks = counter ''pgqueue_ack_total''
     ''Acknowledgement outcomes by queue and result.'' [queueLabel, ''result'']"
| "prom_collector b ackAfterExpired = counter ''pgqueue_ack_after_expired_total''
     ''Receipts ack'd/nack'd after their claim expired or no longer matched; messages will redeliver.'' [queueLabel]"
| "prom_collector b queueDepthGauge = gauge ''pgqueue_queue_depth'' ''Pending message count.'' [queueLabel]"
| "prom_collector b dlqSize = gauge ''pgqueue_dlq_size'' ''Dead-letter queue size.'' [queueLabel]"
| "prom_collector b metadataParseErrors = counter ''pgqueue_metadata_parse_errors_total''
     ''Messages whose JSON metadata column could not be parsed; metadata is dropped, delivery continues.'' [queueLabel]"
| "prom_collector b gcRuns = counter ''pgqueue_gc_runs_total''
     ''Garbage-collector passes by queue and outcome (ok/error).'' [queueLabel, ''result'']"
| "prom_collector b gcDuration = histogram ''pgqueue_gc_duration_seconds''
     ''Wall-clock duration of a per-queue garbage-collector pass.''
     [1, 5, 10, 50, 100, 500, 1000, 5000, 10000, 30000] [queueLabel]"
| "prom_collector b gcReclaimed = counter ''pgqueue_gc_reclaimed_total''
     ''Timed-out messages reset to pending (re-deliverable) by the garbage collector.'' [queueLabel]"
| "prom_collector b gcPurged = counter ''pgqueue_gc_purged_total''
     ''Messages deleted by the retention policy during a garbage-collector pass.'' [queueLabel]"
| "prom_collector b missedNotifications = counter ''pgqueue_missed_notifications_total''
     ''LISTEN/NOTIFY confirmations that failed; notifications on this channel were dropped until re-confirmed.'' [queueLabel]"

text \<open>
  \<open>register\<close> is \<^verbatim>\<open>Registerer.Register\<close>: it accepts the collector, names the one that is already there, with its
  Go type, or fails.  A collector is known by the number it was created with.
\<close>

datatype reg_result = Accepted | AlreadyRegistered nat go_type | RegisterFailed string

datatype reg_error = WrongType instrument | NotRegistered instrument string

type_synonym 'r registerer = "nat \<Rightarrow> prom_opts \<Rightarrow> 'r \<Rightarrow> reg_result \<times> 'r"

definition registerCollector :: "'r registerer \<Rightarrow> instrument \<Rightarrow> nat \<Rightarrow> prom_opts \<Rightarrow> 'r \<Rightarrow> (reg_error + nat) \<times> 'r" where
  "registerCollector register i c opts r =
     (case register c opts r of
        (Accepted, r') \<Rightarrow> (Inr c, r')
      | (AlreadyRegistered existing t, r') \<Rightarrow> (if t = promType opts then Inr existing else Inl (WrongType i), r')
      | (RegisterFailed e, r') \<Rightarrow> (Inl (NotRegistered i e), r'))"

definition instruments :: "instrument list" where
  "instruments = [publishes, handleDur, deliveryLatency, acks, ackAfterExpired, queueDepthGauge, dlqSize,
     metadataParseErrors, gcRuns, gcDuration, gcReclaimed, gcPurged, missedNotifications]"

text \<open>The registrations in a row; \<open>c\<close> numbers the collectors as they are created.\<close>

fun registerAll ::
    "'r registerer \<Rightarrow> int list \<Rightarrow> instrument list \<Rightarrow> nat \<Rightarrow> (instrument \<rightharpoonup> nat) \<Rightarrow> 'r \<Rightarrow>
     (reg_error + (instrument \<rightharpoonup> nat)) \<times> 'r" where
  "registerAll register b [] c m r = (Inr m, r)"
| "registerAll register b (i # is) c m r =
     (case registerCollector register i c (prom_collector b i) r of
        (Inl e, r') \<Rightarrow> (Inl e, r')
      | (Inr h, r') \<Rightarrow> registerAll register b is (Suc c) (m(i \<mapsto> h)) r')"

definition promNewMetrics :: "'r registerer \<Rightarrow> int list list \<Rightarrow> nat \<Rightarrow> 'r \<Rightarrow> (reg_error + (instrument \<rightharpoonup> nat)) \<times> 'r" where
  "promNewMetrics register opts c r =
     registerAll register (fold WithLatencyBuckets opts DefaultLatencyBuckets) instruments c Map.empty r"

type_synonym prom_call = "instrument \<times> operation \<times> amount \<times> string list"

fun prom_record :: "metric_call \<Rightarrow> prom_call list" where
  "prom_record (RecordPublish queue n) = [(publishes, AddTo, Count n, [queue])]"
| "prom_record (RecordHandle queue latency) = [(handleDur, ObserveIn, Seconds latency, [queue])]"
| "prom_record (RecordDeliveryLatency queue latency) = [(deliveryLatency, ObserveIn, Seconds latency, [queue])]"
| "prom_record (RecordAck queue ok) = [(acks, AddTo, Count 1, [queue, if ok then ''ack'' else ''nack''])]"
| "prom_record (RecordAckAfterExpired queue n) = [(ackAfterExpired, AddTo, Count n, [queue])]"
| "prom_record (ObserveQueueDepth queue depth) = [(queueDepthGauge, SetTo, Count depth, [queue])]"
| "prom_record (ObserveDLQSize queue sz) = [(dlqSize, SetTo, Count sz, [queue])]"
| "prom_record (RecordMetadataParseError queue) = [(metadataParseErrors, AddTo, Count 1, [queue])]"
| "prom_record (RecordGCRun queue dur reclaimed purged e) =
     [(gcRuns, AddTo, Count 1, [queue, if e \<noteq> None then ''error'' else ''ok'']),
      (gcDuration, ObserveIn, Seconds dur, [queue])] @
     (if reclaimed > 0 then [(gcReclaimed, AddTo, Count reclaimed, [queue])] else []) @
     (if purged > 0 then [(gcPurged, AddTo, Count purged, [queue])] else [])"
| "prom_record (RecordMissedNotification queue) = [(missedNotifications, AddTo, Count 1, [queue])]"

section \<open>OpenTelemetry metrics\<close>

datatype otel_value = STRING string | BOOL bool | INT64 "64 word" | FLOAT64 "64 word"

type_synonym KeyValue = "string \<times> otel_value"

datatype otel_kind = Int64Counter | Float64Histogram | Int64Gauge

record otel_instrument =
  otelKind :: otel_kind
  otelName :: string
  otelDescription :: string
  otelUnit :: string

definition instrument_of :: "otel_kind \<Rightarrow> string \<Rightarrow> string \<Rightarrow> string \<Rightarrow> otel_instrument" where
  "instrument_of k name desc u = \<lparr>otelKind = k, otelName = name, otelDescription = desc, otelUnit = u\<rparr>"

fun otel_instrument_for :: "instrument \<Rightarrow> otel_instrument" where
  "otel_instrument_for publishes = instrument_of Int64Counter ''pgqueue.publish.messages''
     ''Messages published to pgqueue queues'' []"
| "otel_instrument_for handleDur = instrument_of Float64Histogram ''pgqueue.handle.duration''
     ''Handler-only execution latency (excludes queue wait, fetch, and ack)'' ''s''"
| "otel_instrument_for deliveryLatency = instrument_of Float64Histogram ''pgqueue.delivery.latency''
     ''Publish-to-delivery latency: time from message creation to handler start'' ''s''"
| "otel_instrument_for acks = instrument_of Int64Counter ''pgqueue.ack.total''
     ''Acknowledgement outcomes (ack and nack)'' []"
| "otel_instrument_for ackAfterExpired = instrument_of Int64Counter ''pgqueue.ack.after_expired''
     ''Receipts ack'd/nack'd after their claim expired or no longer matched; messages will redeliver'' []"
| "otel_instrument_for queueDepthGauge = instrument_of Int64Gauge ''pgqueue.queue.depth'' ''Pending message count'' []"
| "otel_instrument_for dlqSize = instrument_of Int64Gauge ''pgqueue.dlq.size'' ''Dead-letter queue size'' []"
| "otel_instrument_for metadataParseErrors = instrument_of Int64Counter ''pgqueue.metadata.parse_errors''
     ''Messages whose JSON metadata column could not be parsed; metadata is dropped, delivery continues'' []"
| "otel_instrument_for gcRuns = instrument_of Int64Counter ''pgqueue.gc.runs''
     ''Garbage-collector passes by queue and outcome'' []"
| "otel_instrument_for gcDuration = instrument_of Float64Histogram ''pgqueue.gc.duration''
     ''Wall-clock duration of a per-queue garbage-collector pass'' ''s''"
| "otel_instrument_for gcReclaimed = instrument_of Int64Counter ''pgqueue.gc.reclaimed''
     ''Timed-out messages reset to pending by the garbage collector'' []"
| "otel_instrument_for gcPurged = instrument_of Int64Counter ''pgqueue.gc.purged''
     ''Messages deleted by the retention policy during a GC pass'' []"
| "otel_instrument_for missedNotifications = instrument_of Int64Counter ''pgqueue.missed_notifications''
     ''LISTEN/NOTIFY confirmations that failed; notifications dropped until re-confirmed'' []"

text \<open>\<open>meter\<close> creates an instrument: what it returned, nil being \<open>None\<close>, and its error.\<close>

type_synonym meter = "otel_instrument \<Rightarrow> nat option \<times> string option"

definition buildInstruments :: "meter \<Rightarrow> (instrument \<rightharpoonup> nat) \<times> string list" where
  "buildInstruments meter =
     (\<lambda>i. fst (meter (otel_instrument_for i)),
      List.map_filter (\<lambda>i. snd (meter (otel_instrument_for i))) instruments)"

text \<open>A nil provider gives the meter of the no-op provider, here \<open>noop\<close>; the errors are logged when there is a logger.\<close>

definition otelNewMetrics :: "meter \<Rightarrow> meter option \<Rightarrow> bool \<Rightarrow> (instrument \<rightharpoonup> nat) \<times> string list option" where
  "otelNewMetrics noop mp logger =
     (let (m, errs) = buildInstruments (case mp of None \<Rightarrow> noop | Some meter \<Rightarrow> meter)
      in (m, if length errs > 0 \<and> logger then Some errs else None))"

definition queueAttr :: "string \<Rightarrow> KeyValue list" where
  "queueAttr queue = [(''queue'', STRING queue)]"

type_synonym otel_call = "instrument \<times> operation \<times> amount \<times> KeyValue list"

definition when_built :: "(instrument \<rightharpoonup> nat) \<Rightarrow> otel_call \<Rightarrow> otel_call list" where
  "when_built m c = (if m (fst c) \<noteq> None then [c] else [])"

fun otel_record :: "(instrument \<rightharpoonup> nat) \<Rightarrow> metric_call \<Rightarrow> otel_call list" where
  "otel_record m (RecordPublish queue n) = when_built m (publishes, AddTo, Count n, queueAttr queue)"
| "otel_record m (RecordHandle queue latency) = when_built m (handleDur, ObserveIn, Seconds latency, queueAttr queue)"
| "otel_record m (RecordDeliveryLatency queue latency) =
     when_built m (deliveryLatency, ObserveIn, Seconds latency, queueAttr queue)"
| "otel_record m (RecordAck queue ok) =
     when_built m (acks, AddTo, Count 1, [(''queue'', STRING queue), (''ack'', BOOL ok)])"
| "otel_record m (RecordAckAfterExpired queue n) = when_built m (ackAfterExpired, AddTo, Count n, queueAttr queue)"
| "otel_record m (ObserveQueueDepth queue depth) = when_built m (queueDepthGauge, SetTo, Count depth, queueAttr queue)"
| "otel_record m (ObserveDLQSize queue sz) = when_built m (dlqSize, SetTo, Count sz, queueAttr queue)"
| "otel_record m (RecordMetadataParseError queue) = when_built m (metadataParseErrors, AddTo, Count 1, queueAttr queue)"
| "otel_record m (RecordGCRun queue dur reclaimed purged e) =
     (let result = (if e \<noteq> None then ''error'' else ''ok'');
          attrs = [(''queue'', STRING queue), (''result'', STRING result)]
      in when_built m (gcRuns, AddTo, Count 1, attrs) @
         when_built m (gcDuration, ObserveIn, Seconds dur, queueAttr queue) @
         (if reclaimed > 0 then when_built m (gcReclaimed, AddTo, Count reclaimed, queueAttr queue) else []) @
         (if purged > 0 then when_built m (gcPurged, AddTo, Count purged, queueAttr queue) else []))"
| "otel_record m (RecordMissedNotification queue) = when_built m (missedNotifications, AddTo, Count 1, queueAttr queue)"

section \<open>OpenTelemetry spans\<close>

text \<open>\<^verbatim>\<open>strconv.FormatUint\<close> in base 10, and the reading of decimal digits.\<close>

fun FormatUint :: "nat \<Rightarrow> string" where
  "FormatUint n = (if n < 10 then [char_of (48 + n)] else FormatUint (n div 10) @ [char_of (48 + n mod 10)])"

declare FormatUint.simps [simp del]

definition read_decimal :: "string \<Rightarrow> nat" where
  "read_decimal s = foldl (\<lambda>n c. 10 * n + (of_char c - 48)) 0 s"

text \<open>The conversion of a float32 and the RFC 3339 text of a time.\<close>

record go_formats =
  widenFloat :: "32 word \<Rightarrow> 64 word"
  rfc3339Nano :: "timestamp \<Rightarrow> string"

definition toKeyValue :: "go_formats \<Rightarrow> Attr \<Rightarrow> KeyValue" where
  "toKeyValue f a = (Key a,
     case Value a of
       AnyString v \<Rightarrow> STRING v
     | AnyBool v \<Rightarrow> BOOL v
     | AnyInt v \<Rightarrow> INT64 v
     | AnyInt8 v \<Rightarrow> INT64 (scast v)
     | AnyInt16 v \<Rightarrow> INT64 (scast v)
     | AnyInt32 v \<Rightarrow> INT64 (scast v)
     | AnyInt64 v \<Rightarrow> INT64 v
     | AnyUint8 v \<Rightarrow> INT64 (ucast v)
     | AnyUint16 v \<Rightarrow> INT64 (ucast v)
     | AnyUint32 v \<Rightarrow> INT64 (ucast v)
     | AnyUint v \<Rightarrow> (if unat v > 2 ^ 63 - 1 then STRING (FormatUint (unat v)) else INT64 v)
     | AnyUint64 v \<Rightarrow> (if unat v > 2 ^ 63 - 1 then STRING (FormatUint (unat v)) else INT64 v)
     | AnyFloat32 v \<Rightarrow> FLOAT64 (widenFloat f v)
     | AnyFloat64 v \<Rightarrow> FLOAT64 v
     | AnyDuration v \<Rightarrow> INT64 v
     | AnyTime t \<Rightarrow> STRING (rfc3339Nano f t)
     | AnyError s \<Rightarrow> STRING s
     | AnyStringer s \<Rightarrow> STRING s
     | AnyOther ty s \<Rightarrow> STRING s)"

text \<open>The warnings a logger gets: the key and the type of each value that was printed with \<^verbatim>\<open>%v\<close>.\<close>

definition coerced :: "bool \<Rightarrow> Attr list \<Rightarrow> (string \<times> string) list" where
  "coerced logger attrs =
     (if logger then List.map_filter (\<lambda>a. case Value a of AnyOther ty _ \<Rightarrow> Some (Key a, ty) | _ \<Rightarrow> None) attrs else [])"

definition toKeyValues :: "go_formats \<Rightarrow> bool \<Rightarrow> Attr list \<Rightarrow> KeyValue list \<times> (string \<times> string) list" where
  "toKeyValues f logger attrs = (map (toKeyValue f) attrs, coerced logger attrs)"

datatype otel_span = ProviderSpan nat | NoopOtelSpan

type_synonym otel_tracer = "string \<Rightarrow> KeyValue list \<Rightarrow> nat option"

definition NewTracer :: "otel_tracer \<Rightarrow> otel_tracer option \<Rightarrow> otel_tracer" where
  "NewTracer noop tp = (case tp of None \<Rightarrow> noop | Some tracer \<Rightarrow> tracer)"

text \<open>\<^verbatim>\<open>StartSpan\<close>: \<open>start\<close> is the tracer's \<^verbatim>\<open>Start\<close>, which may return a nil span.\<close>

definition otelStartSpan ::
    "go_formats \<Rightarrow> bool \<Rightarrow> otel_tracer \<Rightarrow> string \<Rightarrow> Attr list \<Rightarrow>
     otel_span \<times> (string \<times> string) list" where
  "otelStartSpan f logger start name attrs =
     (let (kvs, warned) = toKeyValues f logger attrs
      in (case start name kvs of None \<Rightarrow> NoopOtelSpan | Some sp \<Rightarrow> ProviderSpan sp, warned))"

datatype otel_span_call = OtelEnd | OtelRecordError err | OtelSetStatusError err | OtelSetAttributes "KeyValue list"

definition otelSpanEnd :: "otel_span_call list" where
  "otelSpanEnd = [OtelEnd]"

definition otelSpanSetError :: "err option \<Rightarrow> otel_span_call list" where
  "otelSpanSetError e = (case e of None \<Rightarrow> [] | Some e \<Rightarrow> [OtelRecordError e, OtelSetStatusError e])"

definition otelSpanSetAttr :: "go_formats \<Rightarrow> bool \<Rightarrow> Attr list \<Rightarrow> otel_span_call list \<times> (string \<times> string) list" where
  "otelSpanSetAttr f logger attrs = (let (kvs, warned) = toKeyValues f logger attrs in ([OtelSetAttributes kvs], warned))"

end
