(* ===== verification/AdapterProps.thy ===== *)
theory AdapterProps
  imports Adapters
begin

text \<open>
  Properties of the adapters: the two record the same measurements, attributes keep their numbers, and
  metrics built twice on one registerer share their collectors.
\<close>

section \<open>The same measurements\<close>

text \<open>The label a Prometheus series has where OpenTelemetry has this attribute.\<close>

fun prom_label :: "KeyValue \<Rightarrow> string \<times> string" where
  "prom_label (k, BOOL b) = (if k = ''ack'' then ''result'' else k, if b then ''ack'' else ''nack'')"
| "prom_label (k, STRING s) = (k, s)"
| "prom_label (k, _) = (k, [])"

definition as_prom :: "otel_call \<Rightarrow> instrument \<times> operation \<times> amount \<times> (string \<times> string) list" where
  "as_prom c = (case c of (i, op, x, kvs) \<Rightarrow> (i, op, x, map prom_label kvs))"

definition named :: "int list \<Rightarrow> prom_call \<Rightarrow> instrument \<times> operation \<times> amount \<times> (string \<times> string) list" where
  "named b c = (case c of (i, op, x, ls) \<Rightarrow> (i, op, x, zip (promLabels (prom_collector b i)) ls))"

lemmas recordings = when_built_def as_prom_def named_def queueAttr_def counter_def gauge_def histogram_def queueLabel_def


text \<open>
  Every call into Prometheus gives each label of its collector a value and fits the collector's kind, and
  a counter is not decreased as long as the counts handed to the hooks are not negative.
\<close>

fun fits :: "operation \<Rightarrow> go_type \<Rightarrow> bool" where
  "fits AddTo t = (t = CounterVec)"
| "fits ObserveIn t = (t = HistogramVec)"
| "fits SetTo t = (t = GaugeVec)"

fun counted :: "metric_call \<Rightarrow> int" where
  "counted (RecordPublish _ n) = n"
| "counted (RecordAckAfterExpired _ n) = n"
| "counted _ = 0"

theorem prom_calls_fit:
  assumes "(i, op, x, ls) \<in> set (prom_record c)"
  shows "length ls = length (promLabels (prom_collector b i)) \<and> fits op (promType (prom_collector b i)) \<and>
    (0 \<le> counted c \<and> op = AddTo \<longrightarrow> (\<exists>n. x = Count n \<and> 0 \<le> n))"
  using assms by (cases c) (auto simp: recordings split: if_splits)

section \<open>Numbers in attributes\<close>

lemma FormatUint_digits: "read_decimal (FormatUint n) = n"
proof (induction n rule: FormatUint.induct)
  case (1 n)
  have d: "of_char (char_of (48 + k) :: char) - 48 = k" if "k < 10" for k :: nat using that by simp
  show ?case
  proof (cases "n < 10")
    case True
    then show ?thesis using d[of n] by (simp add: FormatUint.simps[of n] read_decimal_def)
  next
    case False
    then have "read_decimal (FormatUint n) = 10 * read_decimal (FormatUint (n div 10)) + n mod 10"
      using d[of "n mod 10"] by (simp add: FormatUint.simps[of n] read_decimal_def)
    then show ?thesis using 1 False by simp
  qed
qed

fun int_value :: "any_value \<Rightarrow> int option" where
  "int_value (AnyInt v) = Some (sint v)"
| "int_value (AnyInt8 v) = Some (sint v)"
| "int_value (AnyInt16 v) = Some (sint v)"
| "int_value (AnyInt32 v) = Some (sint v)"
| "int_value (AnyInt64 v) = Some (sint v)"
| "int_value (AnyUint8 v) = Some (uint v)"
| "int_value (AnyUint16 v) = Some (uint v)"
| "int_value (AnyUint32 v) = Some (uint v)"
| "int_value (AnyUint v) = Some (uint v)"
| "int_value (AnyUint64 v) = Some (uint v)"
| "int_value (AnyDuration v) = Some (sint v)"
| "int_value _ = None"

fun otel_number :: "otel_value \<Rightarrow> int option" where
  "otel_number (INT64 w) = Some (sint w)"
| "otel_number (STRING s) = Some (int (read_decimal s))"
| "otel_number _ = None"

lemma sint64_of_int: "- (2 ^ 63) \<le> k \<Longrightarrow> k < 2 ^ 63 \<Longrightarrow> sint (word_of_int k :: 64 word) = k"
  by (simp add: sint_word_ariths signed_take_bit_int_eq_self_iff sint_sbintrunc' flip: signed_take_bit_eq_if_positive)

lemma sint_in64: "- (2 ^ 63) \<le> sint (v :: 'a::len word)" "sint v < 2 ^ 63" if "LENGTH('a) \<le> 64"
proof -
  have "2 ^ (LENGTH('a) - 1) \<le> (2 :: int) ^ 63" using that by (intro power_increasing) auto
  moreover have "- (2 ^ (LENGTH('a) - 1)) \<le> sint v" "sint v < 2 ^ (LENGTH('a) - 1)"
    by (rule sint_ge, rule sint_lt)
  ultimately show "- (2 ^ 63) \<le> sint v" "sint v < 2 ^ 63" by linarith+
qed

lemma uint_above_int: "- (2 ^ 63) \<le> uint w"
  by (rule order_trans[OF _ uint_ge_0]) simp

lemma uint_in63: "uint (v :: 'a::len word) < 2 ^ 63" if "LENGTH('a) < 64"
proof -
  have "uint v < 2 ^ LENGTH('a)" by (rule uint_lt2p)
  moreover have "(2 :: int) ^ LENGTH('a) \<le> 2 ^ 63" using that by (intro power_increasing) auto
  ultimately show ?thesis by linarith
qed

lemma scast64: "sint (scast (v :: 'a::len word) :: 64 word) = sint v" if "LENGTH('a) \<le> 64"
  using sint64_of_int[OF sint_in64[OF that, of v]] by simp

lemma sint64_small: "uint (w :: 64 word) < 2 ^ 63 \<Longrightarrow> sint w = uint w"
  using sint64_of_int[OF uint_above_int, of w] by simp

lemma ucast64: "sint (ucast (v :: 'a::len word) :: 64 word) = uint v" if "LENGTH('a) < 64"
  using sint64_of_int[OF uint_above_int uint_in63[OF that, of v]] by simp

lemma unat_int64: "unat (v :: 64 word) > 2 ^ 63 - 1 \<longleftrightarrow> \<not> uint v < 2 ^ 63"
proof -
  have "n > 2 ^ 63 - 1 \<longleftrightarrow> \<not> int n < 2 ^ 63" for n :: nat by (simp, linarith)
  then show ?thesis by (metis uint_nat)
qed

lemma uint64_attr:
  fixes v :: "64 word"
  shows "otel_number (if unat v > 2 ^ 63 - 1 then STRING (FormatUint (unat v)) else INT64 v) = Some (uint v)"
    and "(\<exists>w. (if unat v > 2 ^ 63 - 1 then STRING (FormatUint (unat v)) else INT64 v) = INT64 w) \<longleftrightarrow> uint v < 2 ^ 63"
  unfolding unat_int64 by (auto simp: FormatUint_digits sint64_small)

text \<open>
  C32.  No number is altered on its way into an attribute: whatever the integer type of the value, signed or
  not and of any width, the attribute holds the same number, as an int64 when it fits and otherwise as
  decimal digits that read back to it, under the key it was given.
\<close>

theorem toKeyValue_exact:
  assumes "int_value (Value a) = Some k"
  shows "fst (toKeyValue f a) = Key a \<and> otel_number (snd (toKeyValue f a)) = Some k \<and>
    ((\<exists>w. snd (toKeyValue f a) = INT64 w) \<longleftrightarrow> k < 2 ^ 63)"
  using assms
  by (cases "Value a")
    (simp_all only: toKeyValue_def any_value.case fst_conv snd_conv int_value.simps uint64_attr option.inject option.distinct,
     auto simp: scast64 ucast64 sint_in64[simplified] uint_in63[simplified])

theorem toKeyValue_exact_witness:
  "otel_number (snd (toKeyValue \<lparr>widenFloat = ucast, rfc3339Nano = (\<lambda>_. [])\<rparr>
     \<lparr>Key = ''n'', Value = AnyUint64 (2 ^ 63)\<rparr>)) = Some (2 ^ 63)"
  using toKeyValue_exact[of "\<lparr>Key = ''n'', Value = AnyUint64 (2 ^ 63)\<rparr>" "2 ^ 63"] by simp

section \<open>Registering twice\<close>

text \<open>
  What Prometheus documents of \<^verbatim>\<open>Register\<close>: a collector is accepted when none has its descriptor, and is found
  by it from then on; otherwise the one that has it is named, and nothing else changes.
\<close>

definition descriptor :: "prom_opts \<Rightarrow> string \<times> string \<times> string list" where
  "descriptor opts = (promName opts, promHelp opts, promLabels opts)"

definition keeps_collectors ::
    "'r registerer \<Rightarrow> ('r \<Rightarrow> string \<times> string \<times> string list \<rightharpoonup> nat \<times> go_type) \<Rightarrow> bool" where
  "keeps_collectors register held \<longleftrightarrow>
     (\<forall>c opts r. case register c opts r of
        (Accepted, r') \<Rightarrow> held r (descriptor opts) = None \<and> held r' = (held r)(descriptor opts \<mapsto> (c, promType opts))
      | (AlreadyRegistered h t, r') \<Rightarrow> held r (descriptor opts) = Some (h, t) \<and> r' = r
      | (RegisterFailed _, r') \<Rightarrow> held r (descriptor opts) = None \<and> r' = r)"

lemma keeps_cases:
  assumes "keeps_collectors register held" "register c opts r = (res, r')"
  shows "res = Accepted \<and> held r (descriptor opts) = None \<and> held r' = (held r)(descriptor opts \<mapsto> (c, promType opts)) \<or>
    (\<exists>h t. res = AlreadyRegistered h t \<and> held r (descriptor opts) = Some (h, t) \<and> r' = r) \<or>
    (\<exists>e. res = RegisterFailed e \<and> held r (descriptor opts) = None \<and> r' = r)"
  using assms(1)[unfolded keeps_collectors_def, THEN spec[of _ c], THEN spec[of _ opts], THEN spec[of _ r]] assms(2)
  by (cases res) auto

lemma registered_held:
  assumes "keeps_collectors register held" "registerCollector register i c opts r = (Inr h, r')"
  shows "held r' (descriptor opts) = Some (h, promType opts)" "held r \<subseteq>\<^sub>m held r'"
  using assms(2) keeps_cases[OF assms(1), of c opts r]
  by (auto simp: registerCollector_def map_le_def dom_def split: prod.splits reg_result.splits if_splits)

lemma register_again:
  assumes "keeps_collectors register held" "held r (descriptor opts) = Some (h, promType opts)"
  shows "registerCollector register i c opts r = (Inr h, r)"
  using assms(2) keeps_cases[OF assms(1), of c opts r]
  by (auto simp: registerCollector_def split: prod.splits reg_result.splits)

lemma registerAll_held:
  assumes "keeps_collectors register held" "registerAll register b is c m r = (Inr m', r')"
  shows "held r \<subseteq>\<^sub>m held r' \<and> (\<forall>i. i \<notin> set is \<longrightarrow> m' i = m i) \<and>
    (distinct is \<longrightarrow> (\<forall>i \<in> set is. \<exists>h. m' i = Some h \<and>
       held r' (descriptor (prom_collector b i)) = Some (h, promType (prom_collector b i))))"
  using assms(2)
proof (induction "is" arbitrary: c m r)
  case (Cons i "is")
  obtain h r1 where 1: "registerCollector register i c (prom_collector b i) r = (Inr h, r1)"
      "registerAll register b is (Suc c) (m(i \<mapsto> h)) r1 = (Inr m', r')"
    using Cons.prems by (auto split: prod.splits sum.splits)
  note IH = Cons.IH[OF 1(2)]
  have "held r1 (descriptor (prom_collector b i)) = Some (h, promType (prom_collector b i))" "held r \<subseteq>\<^sub>m held r1"
    using registered_held[OF assms(1) 1(1)] by auto
  moreover from this(1) IH have "held r' (descriptor (prom_collector b i)) = Some (h, promType (prom_collector b i))"
    by (metis domI map_le_def)
  ultimately show ?case using IH by (auto intro: map_le_trans)
qed simp

lemma registerAll_again:
  assumes "keeps_collectors register held"
    and "\<forall>i \<in> set is. \<exists>h. m' i = Some h \<and> held r (descriptor (prom_collector b i)) = Some (h, promType (prom_collector b i))"
  shows "registerAll register b is c m r = (Inr (\<lambda>i. if i \<in> set is then m' i else m i), r)"
  using assms(2)
proof (induction "is" arbitrary: c m)
  case (Cons i "is")
  obtain h where h: "m' i = Some h" "held r (descriptor (prom_collector b i)) = Some (h, promType (prom_collector b i))"
    using Cons.prems by auto
  have "registerAll register b is (Suc c) (m(i \<mapsto> h)) r =
      (Inr (\<lambda>j. if j \<in> set is then m' j else (m(i \<mapsto> h)) j), r)"
    using Cons.prems by (intro Cons.IH) simp
  then show ?case using register_again[OF assms(1) h(2)] h(1) by (simp add: fun_eq_iff)
qed simp

lemma instruments_all: "set instruments = UNIV" "distinct instruments"
proof -
  have "i \<in> set instruments" for i by (cases i) (simp_all add: instruments_def)
  then show "set instruments = UNIV" by blast
qed (simp add: instruments_def)

lemma descriptor_buckets:
  "descriptor (prom_collector b i) = descriptor (prom_collector b' i)" "promType (prom_collector b i) = promType (prom_collector b' i)"
  by (cases i; simp add: descriptor_def histogram_def counter_def gauge_def)+

text \<open>
  C31.  Building the Prometheus metrics again on the same registerer is safe: once it has succeeded, a second
  call succeeds, whatever its options, leaves the registerer as it is, and gives for every one of the
  thirteen metrics the collector of the first.
\<close>

theorem promNewMetrics_reuses:
  assumes "keeps_collectors register held" "promNewMetrics register opts c r = (Inr m, r')"
  shows "promNewMetrics register opts' c' r' = (Inr m, r') \<and> dom m = UNIV"
proof -
  let ?b = "fold WithLatencyBuckets opts DefaultLatencyBuckets" and ?b' = "fold WithLatencyBuckets opts' DefaultLatencyBuckets"
  have h: "\<forall>i \<in> set instruments. \<exists>h. m i = Some h \<and>
      held r' (descriptor (prom_collector ?b i)) = Some (h, promType (prom_collector ?b i))"
    using registerAll_held[OF assms(1)] assms(2) instruments_all(2) unfolding promNewMetrics_def by blast
  then have "\<forall>i \<in> set instruments. \<exists>h. m i = Some h \<and>
      held r' (descriptor (prom_collector ?b' i)) = Some (h, promType (prom_collector ?b' i))"
    using descriptor_buckets[of ?b _ ?b'] by simp
  from registerAll_again[OF assms(1) this] have "promNewMetrics register opts' c' r' = (Inr m, r')"
    by (simp add: promNewMetrics_def instruments_all(1))
  moreover have "dom m = UNIV" using h instruments_all(1) by auto
  ultimately show ?thesis by blast
qed

definition table_register :: "(string \<times> string \<times> string list \<rightharpoonup> nat \<times> go_type) registerer" where
  "table_register c opts r =
     (case r (descriptor opts) of
        None \<Rightarrow> (Accepted, r(descriptor opts \<mapsto> (c, promType opts)))
      | Some (h, t) \<Rightarrow> (AlreadyRegistered h t, r))"

lemma table_keeps: "keeps_collectors table_register (\<lambda>r. r)"
  by (auto simp: keeps_collectors_def table_register_def split: option.split)

lemma fresh_table: "\<exists>m. fst (promNewMetrics table_register [] 0 Map.empty) = Inr m"
proof -
  have "\<not> isl (fst (promNewMetrics table_register [] 0 Map.empty))" by code_simp
  then show ?thesis by (cases "fst (promNewMetrics table_register [] 0 Map.empty)") auto
qed

theorem promNewMetrics_reuses_witness:
  "\<exists>m r'. promNewMetrics table_register [] 0 Map.empty = (Inr m, r') \<and>
     promNewMetrics table_register [[1, 2]] 13 r' = (Inr m, r')"
proof -
  obtain m r' where "promNewMetrics table_register [] 0 Map.empty = (Inr m, r')"
    using fresh_table by (metis prod.collapse)
  with promNewMetrics_reuses[OF table_keeps this] show ?thesis by blast
qed

end
