(* ===== verification/Lifecycle.thy ===== *)
theory Lifecycle
  imports Gc
begin

text \<open>
  The life of a queue's background goroutines: \<^verbatim>\<open>Close\<close>, \<^verbatim>\<open>registerGC\<close> and \<^verbatim>\<open>trackWorker\<close> of pgqueue.go and
  \<^verbatim>\<open>NewGarbageCollector\<close>, \<^verbatim>\<open>Start\<close>, \<^verbatim>\<open>Stop\<close> and \<^verbatim>\<open>run\<close> of gc.go.  The goroutines are in the state and a step
  is what one of them does between two points where another may interfere: a section under \<^verbatim>\<open>gcMu\<close>,
  a load of \<^verbatim>\<open>closed\<close> under a collector's \<^verbatim>\<open>mu\<close>, the return of a \<^verbatim>\<open>Wait\<close>.
\<close>

section \<open>State\<close>

datatype run_state = NotRun | Launched | Collecting | Idle | Exited

text \<open>\<open>starting\<close>: a \<^verbatim>\<open>Start\<close> holds \<^verbatim>\<open>mu\<close> and has seen the queue open.  The \<^verbatim>\<open>WaitGroup\<close> counts a live \<^verbatim>\<open>run\<close>.\<close>

record GarbageCollector =
  gcConfig :: GarbageCollectorConfig
  stopClosed :: bool
  started :: bool
  starting :: bool
  runState :: run_state

fun live :: "run_state \<Rightarrow> bool" where
  "live NotRun = False"
| "live Exited = False"
| "live _ = True"

datatype close_pc =
    NotClosing
  | Cancelling "nat list"
  | Stopping "nat list"
  | StopWait nat "nat list"
  | Joining
  | ClosingNotifier
  | CloseReturned

record life =
  lifeClosed :: bool
  gcHeap :: "GarbageCollector list"
  registered :: "nat list"
  workerWG :: nat
  bgCancelled :: bool
  closer :: close_pc
  otherCloses :: nat

definition new_life :: life where
  "new_life = \<lparr>lifeClosed = False, gcHeap = [], registered = [], workerWG = 0, bgCancelled = False,
     closer = NotClosing, otherCloses = 0\<rparr>"

section \<open>Operations\<close>

definition upd_gc :: "nat \<Rightarrow> (GarbageCollector \<Rightarrow> GarbageCollector) \<Rightarrow> life \<Rightarrow> life" where
  "upd_gc g f s = s\<lparr>gcHeap := (gcHeap s)[g := f (gcHeap s ! g)]\<rparr>"

definition registerGC :: "nat \<Rightarrow> life \<Rightarrow> life" where
  "registerGC g s = (if lifeClosed s then s else s\<lparr>registered := registered s @ [g]\<rparr>)"

definition NewGarbageCollector :: "GarbageCollectorConfig \<Rightarrow> life \<Rightarrow> (err + nat) \<times> life" where
  "NewGarbageCollector config s =
     (case normalizeGCConfig config of
        Inl e \<Rightarrow> (Inl e, s)
      | Inr conf \<Rightarrow>
          let g = length (gcHeap s);
              gc = \<lparr>gcConfig = conf, stopClosed = False, started = False, starting = False, runState = NotRun\<rparr>
          in (Inr g, registerGC g (s\<lparr>gcHeap := gcHeap s @ [gc]\<rparr>)))"

text \<open>\<^verbatim>\<open>Start\<close>: the load of \<^verbatim>\<open>closed\<close>, and the rest of the section under \<^verbatim>\<open>mu\<close>.\<close>

definition Start_load :: "nat \<Rightarrow> life \<Rightarrow> life" where
  "Start_load g s = (if lifeClosed s then s else upd_gc g (\<lambda>c. c\<lparr>starting := True\<rparr>) s)"

definition Start_launch :: "nat \<Rightarrow> life \<Rightarrow> life" where
  "Start_launch g = upd_gc g (\<lambda>c.
     if started c then c\<lparr>starting := False\<rparr> else c\<lparr>starting := False, started := True, runState := Launched\<rparr>)"

definition Stop_signal :: "nat \<Rightarrow> life \<Rightarrow> life" where
  "Stop_signal g = upd_gc g (\<lambda>c. c\<lparr>stopClosed := True\<rparr>)"

definition trackWorker :: "life \<Rightarrow> bool \<times> life" where
  "trackWorker s = (if lifeClosed s then (False, s) else (True, s\<lparr>workerWG := workerWG s + 1\<rparr>))"

text \<open>\<open>ctxDone\<close>: the context given to \<^verbatim>\<open>Start\<close> is cancelled.\<close>

definition stopRequested :: "bool \<Rightarrow> GarbageCollector \<Rightarrow> bool" where
  "stopRequested ctxDone c \<longleftrightarrow> ctxDone \<or> stopClosed c"

definition run_first :: "bool \<Rightarrow> GarbageCollector \<Rightarrow> GarbageCollector" where
  "run_first ctxDone c = c\<lparr>runState := if stopRequested ctxDone c then Exited else Collecting\<rparr>"

definition Close_mark :: "life \<Rightarrow> life" where
  "Close_mark s =
     (if lifeClosed s then s\<lparr>otherCloses := otherCloses s + 1\<rparr>
      else s\<lparr>lifeClosed := True, closer := Cancelling (registered s)\<rparr>)"

fun next_stop :: "nat list \<Rightarrow> close_pc" where
  "next_stop [] = Joining"
| "next_stop gs = Stopping gs"

section \<open>Steps\<close>

inductive life_step :: "life \<Rightarrow> life \<Rightarrow> bool" where
  new_gc: "life_step s (snd (NewGarbageCollector config s))"
| start_load: "g < length (gcHeap s) \<Longrightarrow> \<not> starting (gcHeap s ! g) \<Longrightarrow> life_step s (Start_load g s)"
| start_launch: "g < length (gcHeap s) \<Longrightarrow> starting (gcHeap s ! g) \<Longrightarrow> life_step s (Start_launch g s)"
| user_stop: "g < length (gcHeap s) \<Longrightarrow> \<not> starting (gcHeap s ! g) \<Longrightarrow> life_step s (Stop_signal g s)"
| run_first: "g < length (gcHeap s) \<Longrightarrow> runState (gcHeap s ! g) = Launched \<Longrightarrow> life_step s (upd_gc g (run_first ctxDone) s)"
| run_collected: "g < length (gcHeap s) \<Longrightarrow> runState (gcHeap s ! g) = Collecting \<Longrightarrow>
    life_step s (upd_gc g (\<lambda>c. c\<lparr>runState := Idle\<rparr>) s)"
| run_panics: "g < length (gcHeap s) \<Longrightarrow> runState (gcHeap s ! g) = Collecting \<Longrightarrow>
    life_step s (upd_gc g (\<lambda>c. c\<lparr>runState := Exited\<rparr>) s)"
| run_tick: "g < length (gcHeap s) \<Longrightarrow> runState (gcHeap s ! g) = Idle \<Longrightarrow>
    life_step s (upd_gc g (\<lambda>c. c\<lparr>runState := Collecting\<rparr>) s)"
| run_exit: "g < length (gcHeap s) \<Longrightarrow> runState (gcHeap s ! g) = Idle \<Longrightarrow> stopRequested ctxDone (gcHeap s ! g) \<Longrightarrow>
    life_step s (upd_gc g (\<lambda>c. c\<lparr>runState := Exited\<rparr>) s)"
| track: "life_step s (snd (trackWorker s))"
| worker_done: "0 < workerWG s \<Longrightarrow> life_step s (s\<lparr>workerWG := workerWG s - 1\<rparr>)"
| close_mark: "life_step s (Close_mark s)"
| close_cancel: "closer s = Cancelling gs \<Longrightarrow> life_step s (s\<lparr>bgCancelled := True, closer := next_stop gs\<rparr>)"
| close_stop: "closer s = Stopping (g # gs) \<Longrightarrow> \<not> starting (gcHeap s ! g) \<Longrightarrow>
    life_step s ((Stop_signal g s)\<lparr>closer := StopWait g gs\<rparr>)"
| close_waited: "closer s = StopWait g gs \<Longrightarrow> \<not> live (runState (gcHeap s ! g)) \<Longrightarrow>
    life_step s (s\<lparr>closer := next_stop gs\<rparr>)"
| close_joined: "closer s = Joining \<Longrightarrow> workerWG s = 0 \<Longrightarrow> life_step s (s\<lparr>closer := ClosingNotifier\<rparr>)"
| close_notifier: "closer s = ClosingNotifier \<Longrightarrow> life_step s (s\<lparr>closer := CloseReturned\<rparr>)"

section \<open>Invariant\<close>

definition at_rest :: "GarbageCollector \<Rightarrow> bool" where
  "at_rest c \<longleftrightarrow> \<not> starting c \<and> \<not> live (runState c)"

fun unsettled :: "life \<Rightarrow> close_pc \<Rightarrow> nat \<Rightarrow> bool" where
  "unsettled s NotClosing g \<longleftrightarrow> True"
| "unsettled s (Cancelling gs) g \<longleftrightarrow> g \<in> set gs"
| "unsettled s (Stopping gs) g \<longleftrightarrow> g \<in> set gs"
| "unsettled s (StopWait h gs) g \<longleftrightarrow> g \<in> set gs \<or> g = h \<and> \<not> starting (gcHeap s ! g)"
| "unsettled s _ g \<longleftrightarrow> False"

fun past_join :: "close_pc \<Rightarrow> bool" where
  "past_join ClosingNotifier = True"
| "past_join CloseReturned = True"
| "past_join _ = False"

fun close_ids :: "close_pc \<Rightarrow> nat set" where
  "close_ids (Cancelling gs) = set gs"
| "close_ids (Stopping gs) = set gs"
| "close_ids (StopWait g gs) = insert g (set gs)"
| "close_ids _ = {}"

definition life_inv :: "life \<Rightarrow> bool" where
  "life_inv s \<longleftrightarrow>
     (lifeClosed s \<longleftrightarrow> closer s \<noteq> NotClosing) \<and>
     (\<forall>g < length (gcHeap s). unsettled s (closer s) g \<or> at_rest (gcHeap s ! g)) \<and>
     close_ids (closer s) \<subseteq> {..<length (gcHeap s)} \<and>
     (\<not> lifeClosed s \<longrightarrow> set (registered s) = {..<length (gcHeap s)}) \<and>
     (past_join (closer s) \<longrightarrow> workerWG s = 0)"

lemmas life_ops = NewGarbageCollector_def registerGC_def Start_load_def Start_launch_def Stop_signal_def
  upd_gc_def run_first_def trackWorker_def Close_mark_def Let_def

lemma upd_gc_simps [simp]:
  "lifeClosed (upd_gc g f s) = lifeClosed s" "registered (upd_gc g f s) = registered s"
  "workerWG (upd_gc g f s) = workerWG s" "closer (upd_gc g f s) = closer s"
  "length (gcHeap (upd_gc g f s)) = length (gcHeap s)"
  "h < length (gcHeap s) \<Longrightarrow> gcHeap (upd_gc g f s) ! h = (if h = g then f (gcHeap s ! g) else gcHeap s ! h)"
  by (auto simp: upd_gc_def nth_list_update)

text \<open>A step on one collector that does not start it anew keeps every collector at rest or accounted for.\<close>

lemma upd_gc_inv:
  assumes "life_inv s" "g < length (gcHeap s)"
    and "lifeClosed s \<Longrightarrow> at_rest (gcHeap s ! g) \<Longrightarrow> at_rest (f (gcHeap s ! g))"
    and "lifeClosed s \<Longrightarrow> starting (f (gcHeap s ! g)) \<Longrightarrow> starting (gcHeap s ! g)"
  shows "life_inv (upd_gc g f s)"
  using assms unfolding life_inv_def by (cases "closer s") auto

lemma settled_next_stop: "unsettled s (next_stop gs) g \<longleftrightarrow> g \<in> set gs"
  by (cases gs) auto

lemma next_stop_simps [simp]:
  "next_stop gs \<noteq> NotClosing" "close_ids (next_stop gs) = set gs" "\<not> past_join (next_stop gs)"
  by (cases gs; simp)+

lemma unsettled_append:
  "g < length (gcHeap s) \<Longrightarrow> gcHeap s' = gcHeap s @ [c] \<Longrightarrow> unsettled s' pc g = unsettled s pc g"
  by (cases pc) (simp_all add: nth_append)

lemma add_gc_inv:
  assumes "life_inv s" "at_rest c" "gcHeap s' = gcHeap s @ [c]" "lifeClosed s' = lifeClosed s"
    and "closer s' = closer s" "workerWG s' = workerWG s"
    and "\<not> lifeClosed s \<Longrightarrow> registered s' = registered s @ [length (gcHeap s)]"
  shows "life_inv s'"
proof -
  have "unsettled s' (closer s) g \<or> at_rest (gcHeap s' ! g)" if "g < length (gcHeap s')" for g
  proof (cases "g = length (gcHeap s)")
    case True
    then show ?thesis using assms(2,3) by simp
  next
    case False
    then have g: "g < length (gcHeap s)" using that assms(3) by simp
    then have "unsettled s (closer s) g \<or> at_rest (gcHeap s ! g)" using assms(1) by (simp add: life_inv_def)
    then show ?thesis by (simp add: unsettled_append[OF g assms(3)] assms(3) nth_append g)
  qed
  moreover have "set (registered s') = {..<length (gcHeap s')}" if "\<not> lifeClosed s"
    using assms(1,3,7) that by (simp add: life_inv_def lessThan_Suc)
  moreover have "close_ids (closer s) \<subseteq> {..<length (gcHeap s')}"
    using assms(1,3) by (fastforce simp: life_inv_def)
  ultimately show ?thesis using assms(1,4-6) by (simp add: life_inv_def)
qed

lemma new_gc_inv:
  assumes "life_inv s"
  shows "life_inv (snd (NewGarbageCollector config s))"
proof (cases "normalizeGCConfig config")
  case (Inl e)
  then show ?thesis using assms by (simp add: NewGarbageCollector_def)
next
  case (Inr conf)
  show ?thesis
    by (rule add_gc_inv[OF assms, where
          c = "\<lparr>gcConfig = conf, stopClosed = False, started = False, starting = False, runState = NotRun\<rparr>"])
      (simp_all add: NewGarbageCollector_def Inr registerGC_def Let_def at_rest_def)
qed

lemma life_step_inv:
  assumes "life_step s s'" "life_inv s"
  shows "life_inv s'"
  using assms
proof (induction rule: life_step.induct)
  case (new_gc s config)
  then show ?case by (rule new_gc_inv)
next
  case (start_load g s)
  then show ?case by (auto simp: Start_load_def intro: upd_gc_inv)
next
  case (start_launch g s)
  then show ?case unfolding Start_launch_def by (intro upd_gc_inv) (auto simp: at_rest_def)
next
  case (user_stop g s)
  then show ?case unfolding Stop_signal_def by (intro upd_gc_inv) (auto simp: at_rest_def)
next
  case (track s)
  then show ?case by (cases "closer s") (auto simp: life_inv_def trackWorker_def)
next
  case (worker_done s)
  then show ?case by (cases "closer s") (auto simp: life_inv_def)
next
  case (close_mark s)
  then show ?case by (cases "closer s") (auto simp: life_inv_def Close_mark_def)
next
  case (close_cancel s gs)
  then show ?case by (auto simp: life_inv_def settled_next_stop)
next
  case (close_stop s g gs)
  have "life_inv (Stop_signal g s)"
    using close_stop unfolding Stop_signal_def by (intro upd_gc_inv) (auto simp: at_rest_def life_inv_def)
  then show ?case using close_stop by (auto simp: life_inv_def Stop_signal_def)
next
  case (close_waited s g gs)
  then show ?case by (auto simp: life_inv_def settled_next_stop at_rest_def)
next
  case (run_first g s ctxDone)
  then show ?case by (intro upd_gc_inv) (auto simp: at_rest_def run_first_def)
next
  case (close_joined s)
  then show ?case by (auto simp: life_inv_def)
next
  case (close_notifier s)
  then show ?case by (auto simp: life_inv_def)
qed (intro upd_gc_inv; simp add: at_rest_def)+

lemma life_reached_inv: "life_step\<^sup>*\<^sup>* new_life s \<Longrightarrow> life_inv s"
proof (induction rule: rtranclp_induct)
  case base
  show ?case by (simp add: new_life_def life_inv_def)
next
  case (step y z)
  from step(2,3) show ?case by (rule life_step_inv)
qed

text \<open>
  C23.  After \<^verbatim>\<open>Close\<close> returns no goroutine of the queue is left: whatever the interleaving with creating,
  starting and stopping collectors and with consume loops that come and go, no collector runs or is
  about to, no consume worker is registered, and no later step changes that.
\<close>

theorem Close_joins_all:
  assumes "life_step\<^sup>*\<^sup>* new_life s" "closer s = CloseReturned" "life_step\<^sup>*\<^sup>* s s'"
  shows "workerWG s' = 0 \<and> fst (trackWorker s') = False \<and>
    (\<forall>g < length (gcHeap s'). \<not> live (runState (gcHeap s' ! g)) \<and> \<not> starting (gcHeap s' ! g))"
proof -
  have "closer s' = CloseReturned \<and> lifeClosed s'"
    using assms(3)
  proof (induction rule: rtranclp_induct)
    case base
    then show ?case using life_reached_inv[OF assms(1)] assms(2) by (simp add: life_inv_def)
  next
    case (step y z)
    then show ?case by (auto elim!: life_step.cases simp: life_ops split: sum.split)
  qed
  moreover have "life_inv s'" using assms(1,3) by (intro life_reached_inv) simp
  ultimately show ?thesis by (auto simp: life_inv_def at_rest_def trackWorker_def)
qed

section \<open>Closing can always finish\<close>











section \<open>A run of one collector\<close>

definition sample_gc_config :: GarbageCollectorConfig where
  "sample_gc_config = \<lparr>Interval = 0, Policies = None, DefaultPolicy = zeroRetentionPolicy, MaxWorkers = 0\<rparr>"

definition life_at :: "run_state \<Rightarrow> bool \<Rightarrow> bool \<Rightarrow> close_pc \<Rightarrow> nat \<Rightarrow> life" where
  "life_at r stop cancelled pc n =
     \<lparr>lifeClosed = (pc \<noteq> NotClosing),
      gcHeap = [\<lparr>gcConfig = \<lparr>Interval = defaultGCInterval, Policies = Some [], DefaultPolicy = defaultRetentionPolicy,
                   MaxWorkers = defaultGCMaxWorkers\<rparr>,
                 stopClosed = stop, started = True, starting = False, runState = r\<rparr>],
      registered = [0], workerWG = 0, bgCancelled = cancelled, closer = pc, otherCloses = n\<rparr>"

lemma collecting_reached: "life_step\<^sup>*\<^sup>* new_life (life_at Collecting False False NotClosing 0)"
proof -
  let ?s1 = "snd (NewGarbageCollector sample_gc_config new_life)"
  have s1: "?s1 = \<lparr>lifeClosed = False,
      gcHeap = [\<lparr>gcConfig = \<lparr>Interval = defaultGCInterval, Policies = Some [], DefaultPolicy = defaultRetentionPolicy,
                   MaxWorkers = defaultGCMaxWorkers\<rparr>,
                 stopClosed = False, started = False, starting = False, runState = NotRun\<rparr>],
      registered = [0], workerWG = 0, bgCancelled = False, closer = NotClosing, otherCloses = 0\<rparr>"
    by code_simp
  have "life_step new_life ?s1" by (rule new_gc)
  moreover have "life_step ?s1 (Start_load 0 ?s1)" by (rule start_load) (simp_all add: s1)
  moreover have "life_step (Start_load 0 ?s1) (Start_launch 0 (Start_load 0 ?s1))"
    by (rule start_launch) (simp_all add: s1 Start_load_def upd_gc_def)
  moreover have "Start_launch 0 (Start_load 0 ?s1) = life_at Launched False False NotClosing 0"
    by (simp add: s1 life_at_def Start_load_def Start_launch_def upd_gc_def)
  moreover have "life_step (life_at Launched False False NotClosing 0) (life_at Collecting False False NotClosing 0)"
    using run_first[of 0 "life_at Launched False False NotClosing 0" False]
    by (simp add: life_at_def run_first_def stopRequested_def upd_gc_def)
  ultimately show ?thesis by (metis converse_rtranclp_into_rtranclp r_into_rtranclp)
qed

lemma marked_reached: "life_step\<^sup>*\<^sup>* new_life (life_at Collecting False False (Cancelling [0]) 0)"
  using rtranclp.rtrancl_into_rtrancl[OF collecting_reached close_mark]
  by (simp add: life_at_def Close_mark_def)

lemma returned_reached: "life_step\<^sup>*\<^sup>* new_life (life_at Exited True True CloseReturned 0)"
proof -
  have 1: "life_step\<^sup>*\<^sup>* new_life (life_at Collecting False True (Stopping [0]) 0)"
    using rtranclp.rtrancl_into_rtrancl[OF marked_reached close_cancel[of _ "[0]"]] by (simp add: life_at_def)
  have 2: "life_step\<^sup>*\<^sup>* new_life (life_at Collecting True True (StopWait 0 []) 0)"
    using rtranclp.rtrancl_into_rtrancl[OF 1 close_stop[of _ 0 "[]"]] by (simp add: life_at_def Stop_signal_def upd_gc_def)
  have 3: "life_step\<^sup>*\<^sup>* new_life (life_at Idle True True (StopWait 0 []) 0)"
    using rtranclp.rtrancl_into_rtrancl[OF 2 run_collected[of 0]] by (simp add: life_at_def upd_gc_def)
  have 4: "life_step\<^sup>*\<^sup>* new_life (life_at Exited True True (StopWait 0 []) 0)"
    using rtranclp.rtrancl_into_rtrancl[OF 3 run_exit[of 0 _ False]] by (simp add: life_at_def upd_gc_def stopRequested_def)
  have 5: "life_step\<^sup>*\<^sup>* new_life (life_at Exited True True Joining 0)"
    using rtranclp.rtrancl_into_rtrancl[OF 4 close_waited[of _ 0 "[]"]] by (simp add: life_at_def)
  have 6: "life_step\<^sup>*\<^sup>* new_life (life_at Exited True True ClosingNotifier 0)"
    using rtranclp.rtrancl_into_rtrancl[OF 5 close_joined] by (simp add: life_at_def)
  show ?thesis using rtranclp.rtrancl_into_rtrancl[OF 6 close_notifier] by (simp add: life_at_def)
qed

theorem Close_joins_all_witness:
  "workerWG (life_at Exited True True CloseReturned 0) = 0 \<and>
   \<not> live (runState (gcHeap (life_at Exited True True CloseReturned 0) ! 0))"
  using Close_joins_all[OF returned_reached _ rtranclp.rtrancl_refl] by (simp add: life_at_def)


text \<open>
  C36.  The guarantee belongs to the first \<^verbatim>\<open>Close\<close> only: a second one that comes while the first is still
  joining returns at once, with a collector of the queue still in the middle of a pass.
\<close>

theorem second_Close_returns_early:
  "\<exists>s. life_step\<^sup>*\<^sup>* new_life s \<and> otherCloses (Close_mark s) = otherCloses s + 1 \<and> life_step s (Close_mark s) \<and>
     (\<exists>g < length (gcHeap (Close_mark s)). runState (gcHeap (Close_mark s) ! g) = Collecting)"
  using marked_reached close_mark[of "life_at Collecting False False (Cancelling [0]) 0"]
  by (intro exI[of _ "life_at Collecting False False (Cancelling [0]) 0"]) (simp add: life_at_def Close_mark_def)

end
