(* ===== verification/GcPool.thy ===== *)
theory GcPool
  imports Gc AdminProps "HOL-Library.Multiset"
begin

text \<open>
  One pass of the collector over all queues (\<^verbatim>\<open>Collect\<close>, \<^verbatim>\<open>dispatchCollect\<close> and \<^verbatim>\<open>collectQueueWorker\<close> of
  \<^verbatim>\<open>gc.go\<close>): a dispatcher that starts a worker per queue under a semaphore, and workers that record
  their errors and stop the dispatch when the connection pool is dead.  A step is what one goroutine
  does between two points where another may interfere.
\<close>

section \<open>Errors of a pass\<close>

text \<open>What \<^verbatim>\<open>collectQueue\<close> fails with, the two sentinels \<^verbatim>\<open>isPoolDead\<close> looks for apart.\<close>

datatype gc_err = GcErr err | sql_ErrConnDone | driver_ErrBadConn | errGCPanic string

definition isPoolDead :: "gc_err \<Rightarrow> bool" where
  "isPoolDead e \<longleftrightarrow> e = sql_ErrConnDone \<or> e = driver_ErrBadConn"

datatype pass_err = QueueErr string gc_err | errCollectErrsTruncated | CancelledErr err

definition maxAccumulatedCollectErrs :: nat where
  "maxAccumulatedCollectErrs = 100"

definition appendCappedErr :: "pass_err list \<Rightarrow> string \<Rightarrow> gc_err \<Rightarrow> pass_err list" where
  "appendCappedErr errs queueName qerr =
     (if length errs < maxAccumulatedCollectErrs then errs @ [QueueErr queueName qerr]
      else if length errs = maxAccumulatedCollectErrs then errs @ [errCollectErrsTruncated]
      else errs)"

text \<open>How \<^verbatim>\<open>collectQueue\<close> ends; \<^verbatim>\<open>recoverPanic\<close> turns a panic into an error that names where it was.\<close>

datatype outcome = Collected | Failed gc_err | Panicked string

definition recoverPanic :: "string \<Rightarrow> string \<Rightarrow> gc_err" where
  "recoverPanic r place = errGCPanic (place @ '': '' @ r)"

fun outcome_err :: "string \<Rightarrow> outcome \<Rightarrow> gc_err option" where
  "outcome_err q Collected = None"
| "outcome_err q (Failed e) = Some e"
| "outcome_err q (Panicked r) = Some (recoverPanic r (''collectQueue['' @ q @ '']''))"

section \<open>State\<close>

datatype worker_pc = WRunning | WCancelling | WReleasing | WExiting

type_synonym gc_worker = "queueMetadata \<times> worker_pc"

datatype dispatch_pc = Dispatching | WaitCancelled | WaitAll | PassReturned "pass_err list"

text \<open>\<open>outcomes\<close> is a ghost: what the workers that ended their collection found, in that order.\<close>

record dispatch =
  todo :: "queueMetadata list"
  gcWorkers :: "gc_worker multiset"
  passErrs :: "pass_err list"
  dispatchCancelled :: bool
  ctxErr :: "err option"
  dispatchPc :: dispatch_pc
  outcomes :: "(queueMetadata \<times> outcome) list"

definition start_dispatch :: "queueMetadata list \<Rightarrow> dispatch" where
  "start_dispatch queues =
     \<lparr>todo = queues, gcWorkers = {#}, passErrs = [], dispatchCancelled = False, ctxErr = None,
      dispatchPc = Dispatching, outcomes = []\<rparr>"

text \<open>A worker holds its slot of the semaphore until it has released it.\<close>

definition slots_taken :: "dispatch \<Rightarrow> nat" where
  "slots_taken s = size (filter_mset (\<lambda>w. snd w \<noteq> WExiting) (gcWorkers s))"

section \<open>Steps\<close>

definition spawn :: "dispatch \<Rightarrow> dispatch" where
  "spawn s = s\<lparr>todo := tl (todo s), gcWorkers := add_mset (hd (todo s), WRunning) (gcWorkers s)\<rparr>"

definition move_worker :: "gc_worker \<Rightarrow> worker_pc \<Rightarrow> dispatch \<Rightarrow> dispatch" where
  "move_worker w pc s = s\<lparr>gcWorkers := add_mset (fst w, pc) (gcWorkers s - {#w#})\<rparr>"

definition recordErr :: "string \<Rightarrow> gc_err \<Rightarrow> dispatch \<Rightarrow> dispatch" where
  "recordErr queueName qerr s = s\<lparr>passErrs := appendCappedErr (passErrs s) queueName qerr\<rparr>"

text \<open>The body of a worker up to the release of its slot; it goes on to cancel the dispatch on a dead pool.\<close>

definition collectQueueWorker :: "queueMetadata \<Rightarrow> outcome \<Rightarrow> dispatch \<Rightarrow> dispatch" where
  "collectQueueWorker q out s =
     (let s = s\<lparr>outcomes := outcomes s @ [(q, out)]\<rparr> in
      case outcome_err (metaQueueName q) out of
        None \<Rightarrow> move_worker (q, WRunning) WReleasing s
      | Some e \<Rightarrow>
          move_worker (q, WRunning) (if out = Failed e \<and> isPoolDead e then WCancelling else WReleasing)
            (recordErr (metaQueueName q) e s))"

definition finish_pass :: "dispatch \<Rightarrow> pass_err list" where
  "finish_pass s = passErrs s @ (case ctxErr s of None \<Rightarrow> [] | Some e \<Rightarrow> [CancelledErr e])"

inductive dispatch_step :: "nat \<Rightarrow> dispatch \<Rightarrow> dispatch \<Rightarrow> bool" for maxWorkers where
  d_spawn: "dispatchPc s = Dispatching \<Longrightarrow> todo s \<noteq> [] \<Longrightarrow> slots_taken s < maxWorkers \<Longrightarrow>
    dispatch_step maxWorkers s (spawn s)"
| d_done: "dispatchPc s = Dispatching \<Longrightarrow> todo s \<noteq> [] \<Longrightarrow> dispatchCancelled s \<or> ctxErr s \<noteq> None \<Longrightarrow>
    dispatch_step maxWorkers s (s\<lparr>dispatchPc := WaitCancelled\<rparr>)"
| d_all: "dispatchPc s = Dispatching \<Longrightarrow> todo s = [] \<Longrightarrow> dispatch_step maxWorkers s (s\<lparr>dispatchPc := WaitAll\<rparr>)"
| d_return: "dispatchPc s = WaitCancelled \<or> dispatchPc s = WaitAll \<Longrightarrow> gcWorkers s = {#} \<Longrightarrow>
    dispatch_step maxWorkers s (s\<lparr>dispatchPc := PassReturned (finish_pass s)\<rparr>)"
| w_collect: "(q, WRunning) \<in># gcWorkers s \<Longrightarrow> dispatch_step maxWorkers s (collectQueueWorker q out s)"
| w_cancel: "(q, WCancelling) \<in># gcWorkers s \<Longrightarrow>
    dispatch_step maxWorkers s (move_worker (q, WCancelling) WReleasing (s\<lparr>dispatchCancelled := True\<rparr>))"
| w_release: "(q, WReleasing) \<in># gcWorkers s \<Longrightarrow> dispatch_step maxWorkers s (move_worker (q, WReleasing) WExiting s)"
| w_exit: "(q, WExiting) \<in># gcWorkers s \<Longrightarrow>
    dispatch_step maxWorkers s (s\<lparr>gcWorkers := gcWorkers s - {#(q, WExiting)#}\<rparr>)"
| ctx_cancel: "ctxErr s = None \<Longrightarrow> dispatch_step maxWorkers s (s\<lparr>ctxErr := Some e\<rparr>)"

section \<open>Errors are capped\<close>

definition failures :: "(queueMetadata \<times> outcome) list \<Rightarrow> (string \<times> gc_err) list" where
  "failures outs = List.map_filter (\<lambda>(q, out). map_option (Pair (metaQueueName q)) (outcome_err (metaQueueName q) out)) outs"

definition capped :: "(string \<times> gc_err) list \<Rightarrow> pass_err list" where
  "capped fs =
     map (\<lambda>(q, e). QueueErr q e) (take maxAccumulatedCollectErrs fs) @
     (if length fs > maxAccumulatedCollectErrs then [errCollectErrsTruncated] else [])"

lemma capped_snoc: "appendCappedErr (capped fs) q e = capped (fs @ [(q, e)])"
  by (auto simp: capped_def appendCappedErr_def min_def)

lemma capped_Nil [simp]: "capped [] = []" "capped fs = [] \<longleftrightarrow> fs = []"
  by (auto simp: capped_def maxAccumulatedCollectErrs_def)

lemma length_capped: "length (capped fs) \<le> Suc maxAccumulatedCollectErrs"
  by (simp add: capped_def)

lemma failures_snoc:
  "failures (outs @ [(q, out)]) =
     failures outs @ (case outcome_err (metaQueueName q) out of None \<Rightarrow> [] | Some e \<Rightarrow> [(metaQueueName q, e)])"
  by (simp add: failures_def List.map_filter_def split: option.split)

lemma failures_Nil: "failures outs = [] \<longleftrightarrow> (\<forall>(q, out) \<in> set outs. out = Collected)"
proof -
  have "outcome_err n out = None \<longleftrightarrow> out = Collected" for n out by (cases out) auto
  then show ?thesis by (auto simp: failures_def List.map_filter_def filter_empty_conv)
qed

section \<open>Invariant\<close>

definition running :: "dispatch \<Rightarrow> queueMetadata multiset" where
  "running s = image_mset fst (filter_mset (\<lambda>w. snd w = WRunning) (gcWorkers s))"

definition pass_conserved :: "queueMetadata list \<Rightarrow> dispatch \<Rightarrow> bool" where
  "pass_conserved queues s \<longleftrightarrow> mset (todo s) + running s + mset (map fst (outcomes s)) = mset queues"

definition pass_accounts :: "dispatch \<Rightarrow> bool" where
  "pass_accounts s \<longleftrightarrow> passErrs s = capped (failures (outcomes s)) \<and>
     (dispatchCancelled s \<or> (\<exists>q. (q, WCancelling) \<in># gcWorkers s) \<longrightarrow> passErrs s \<noteq> [])"

fun pc_ok :: "dispatch \<Rightarrow> dispatch_pc \<Rightarrow> bool" where
  "pc_ok s Dispatching = True"
| "pc_ok s WaitCancelled = (dispatchCancelled s \<or> ctxErr s \<noteq> None)"
| "pc_ok s WaitAll = (todo s = [])"
| "pc_ok s (PassReturned es) =
     (gcWorkers s = {#} \<and>
      (es = passErrs s \<and> (todo s = [] \<or> dispatchCancelled s) \<or> (\<exists>e. es = passErrs s @ [CancelledErr e])))"

definition dispatch_inv :: "nat \<Rightarrow> queueMetadata list \<Rightarrow> dispatch \<Rightarrow> bool" where
  "dispatch_inv maxWorkers queues s \<longleftrightarrow>
     pass_conserved queues s \<and> pass_accounts s \<and> slots_taken s \<le> maxWorkers \<and> pc_ok s (dispatchPc s)"

lemma member_split: "w \<in># M \<Longrightarrow> \<exists>N. M = add_mset w N"
  by (rule multi_member_split)

lemma dispatch_inv_start: "dispatch_inv maxWorkers queues (start_dispatch queues)"
  by (simp add: dispatch_inv_def start_dispatch_def pass_conserved_def pass_accounts_def running_def slots_taken_def failures_def
      List.map_filter_def)

lemma step_conserves:
  assumes "dispatch_step m s s'" "pass_conserved queues s"
  shows "pass_conserved queues s'"
  using assms
proof (induction rule: dispatch_step.induct)
  case (d_spawn s)
  then show ?case by (cases "todo s") (auto simp: pass_conserved_def spawn_def running_def)
next
  case (w_collect q s out)
  obtain N where "gcWorkers s = add_mset (q, WRunning) N" using member_split[OF w_collect(1)] by blast
  with w_collect(2) show ?case
    by (auto simp: pass_conserved_def collectQueueWorker_def move_worker_def recordErr_def running_def Let_def split: option.split)
next
  case (w_cancel q s)
  obtain N where "gcWorkers s = add_mset (q, WCancelling) N" using member_split[OF w_cancel(1)] by blast
  with w_cancel(2) show ?case by (simp add: pass_conserved_def move_worker_def running_def)
next
  case (w_release q s)
  obtain N where "gcWorkers s = add_mset (q, WReleasing) N" using member_split[OF w_release(1)] by blast
  with w_release(2) show ?case by (simp add: pass_conserved_def move_worker_def running_def)
next
  case (w_exit q s)
  obtain N where "gcWorkers s = add_mset (q, WExiting) N" using member_split[OF w_exit(1)] by blast
  with w_exit(2) show ?case by (simp add: pass_conserved_def running_def)
qed (simp_all add: pass_conserved_def running_def)

lemma step_slots:
  assumes "dispatch_step m s s'" "slots_taken s \<le> m"
  shows "slots_taken s' \<le> m"
  using assms
proof (induction rule: dispatch_step.induct)
  case (w_collect q s out)
  obtain N where "gcWorkers s = add_mset (q, WRunning) N" using member_split[OF w_collect(1)] by blast
  with w_collect(2) show ?case
    by (auto simp: slots_taken_def collectQueueWorker_def move_worker_def recordErr_def Let_def split: option.split)
next
  case (w_cancel q s)
  obtain N where "gcWorkers s = add_mset (q, WCancelling) N" using member_split[OF w_cancel(1)] by blast
  with w_cancel(2) show ?case by (simp add: slots_taken_def move_worker_def)
next
  case (w_release q s)
  obtain N where "gcWorkers s = add_mset (q, WReleasing) N" using member_split[OF w_release(1)] by blast
  with w_release(2) show ?case by (simp add: slots_taken_def move_worker_def)
next
  case (w_exit q s)
  obtain N where "gcWorkers s = add_mset (q, WExiting) N" using member_split[OF w_exit(1)] by blast
  with w_exit(2) show ?case by (simp add: slots_taken_def)
qed (simp_all add: slots_taken_def spawn_def)

lemma collect_errs:
  assumes "passErrs s = capped (failures (outcomes s))"
  shows "passErrs (collectQueueWorker q out s) = capped (failures (outcomes (collectQueueWorker q out s)))"
  using assms
  by (simp add: collectQueueWorker_def move_worker_def recordErr_def Let_def failures_snoc capped_snoc split: option.split)

lemma step_accounts:
  assumes "dispatch_step m s s'" "pass_accounts s"
  shows "pass_accounts s'"
  using assms
proof (induction rule: dispatch_step.induct)
  case (w_collect q s out)
  have e: "passErrs (collectQueueWorker q out s) = capped (failures (outcomes (collectQueueWorker q out s)))"
    using w_collect(2) by (intro collect_errs) (simp add: pass_accounts_def)
  have "passErrs (collectQueueWorker q out s) \<noteq> []"
    if "dispatchCancelled (collectQueueWorker q out s) \<or> (\<exists>p. (p, WCancelling) \<in># gcWorkers (collectQueueWorker q out s))"
  proof (cases "outcome_err (metaQueueName q) out")
    case None
    then show ?thesis using that w_collect(2)
      by (auto simp: collectQueueWorker_def move_worker_def pass_accounts_def dest: in_diffD)
  next
    case (Some err)
    then show ?thesis by (simp add: collectQueueWorker_def move_worker_def recordErr_def appendCappedErr_def maxAccumulatedCollectErrs_def Let_def)
        (auto simp: maxAccumulatedCollectErrs_def)
  qed
  with e show ?case by (simp add: pass_accounts_def)
next
  case (w_cancel q s)
  then show ?case by (auto simp: pass_accounts_def move_worker_def dest: in_diffD)
qed (auto simp: pass_accounts_def move_worker_def spawn_def dest: in_diffD)

lemma step_pc:
  assumes "dispatch_step m s s'" "pc_ok s (dispatchPc s)"
  shows "pc_ok s' (dispatchPc s')"
  using assms
proof (induction rule: dispatch_step.induct)
  case (d_return s)
  then show ?case by (auto simp: finish_pass_def split: option.split)
next
  case (w_collect q s out)
  then show ?case
    by (cases "dispatchPc s")
      (auto simp: collectQueueWorker_def move_worker_def recordErr_def Let_def split: option.split)
next
  case (w_cancel q s)
  then show ?case by (cases "dispatchPc s") (auto simp: move_worker_def)
next
  case (w_release q s)
  then show ?case by (cases "dispatchPc s") (auto simp: move_worker_def)
next
  case (w_exit q s)
  then show ?case by (cases "dispatchPc s") auto
next
  case (ctx_cancel s e)
  then show ?case by (cases "dispatchPc s") auto
qed (simp_all add: spawn_def)

lemma dispatch_reached_inv:
  "(dispatch_step m)\<^sup>*\<^sup>* (start_dispatch queues) s \<Longrightarrow> dispatch_inv m queues s"
proof (induction rule: rtranclp_induct)
  case base
  show ?case by (rule dispatch_inv_start)
next
  case (step y z)
  then show ?case
    by (simp add: dispatch_inv_def step_conserves[OF step(2)] step_slots[OF step(2)] step_accounts[OF step(2)] step_pc[OF step(2)])
qed

section \<open>Termination\<close>

fun pc_weight :: "worker_pc \<Rightarrow> nat" where
  "pc_weight WRunning = 4"
| "pc_weight WCancelling = 3"
| "pc_weight WReleasing = 2"
| "pc_weight WExiting = 1"

fun dispatch_weight :: "dispatch_pc \<Rightarrow> nat" where
  "dispatch_weight Dispatching = 2"
| "dispatch_weight WaitCancelled = 1"
| "dispatch_weight WaitAll = 1"
| "dispatch_weight (PassReturned _) = 0"

definition pass_measure :: "dispatch \<Rightarrow> nat" where
  "pass_measure s =
     5 * length (todo s) + sum_mset (image_mset (\<lambda>w. pc_weight (snd w)) (gcWorkers s)) +
     dispatch_weight (dispatchPc s) + (if ctxErr s = None then 1 else 0)"

lemma step_decreases:
  assumes "dispatch_step m s s'"
  shows "pass_measure s' < pass_measure s"
  using assms
proof (induction rule: dispatch_step.induct)
  case (d_spawn s)
  then show ?case by (cases "todo s") (auto simp: pass_measure_def spawn_def)
next
  case (d_return s)
  then show ?case by (auto simp: pass_measure_def)
next
  case (w_collect q s out)
  obtain N where "gcWorkers s = add_mset (q, WRunning) N" using member_split[OF w_collect(1)] by blast
  then show ?case
    by (auto simp: pass_measure_def collectQueueWorker_def move_worker_def recordErr_def Let_def split: option.split)
next
  case (w_cancel q s)
  obtain N where "gcWorkers s = add_mset (q, WCancelling) N" using member_split[OF w_cancel(1)] by blast
  then show ?case by (simp add: pass_measure_def move_worker_def)
next
  case (w_release q s)
  obtain N where "gcWorkers s = add_mset (q, WReleasing) N" using member_split[OF w_release(1)] by blast
  then show ?case by (simp add: pass_measure_def move_worker_def)
next
  case (w_exit q s)
  obtain N where "gcWorkers s = add_mset (q, WExiting) N" using member_split[OF w_exit(1)] by blast
  then show ?case by (simp add: pass_measure_def)
qed (simp_all add: pass_measure_def)

lemma worker_moves:
  assumes "gcWorkers s \<noteq> {#}"
  shows "\<exists>s'. dispatch_step m s s'"
proof -
  obtain q pc where "(q, pc) \<in># gcWorkers s" using assms by (metis multiset_nonemptyE surj_pair)
  then show ?thesis by (cases pc) (blast intro: w_collect w_cancel w_release w_exit)+
qed

lemma pass_moves:
  assumes "0 < m" "\<And>es. dispatchPc s \<noteq> PassReturned es"
  shows "\<exists>s'. dispatch_step m s s'"
proof (cases "gcWorkers s = {#}")
  case True
  show ?thesis
  proof (cases "dispatchPc s")
    case Dispatching
    then show ?thesis using d_spawn[of s m] d_all[of s m] True assms(1) by (cases "todo s = []") (auto simp: slots_taken_def)
  qed (use d_return[of s m] True assms(2) in auto)
qed (rule worker_moves)

text \<open>
  C26.  A pass of the collector always ends: whatever the interleaving of the dispatcher with its workers,
  errors, panics and cancellation, a run of a pass has at most five steps per queue and
  three more, and one that cannot go on has returned.
\<close>

theorem pass_terminates:
  assumes "0 < m" "(dispatch_step m ^^ n) (start_dispatch queues) s"
  shows "n \<le> 5 * length queues + 3 \<and> ((\<exists>s'. dispatch_step m s s') \<or> (\<exists>es. dispatchPc s = PassReturned es))"
proof -
  have "pass_measure s + n \<le> pass_measure (start_dispatch queues)"
    using assms(2)
  proof (induction n arbitrary: s)
    case (Suc n)
    then obtain t where "(dispatch_step m ^^ n) (start_dispatch queues) t" "dispatch_step m t s" by auto
    then show ?case using Suc.IH[of t] step_decreases[of m t s] by simp
  qed simp
  then have "n \<le> 5 * length queues + 3" by (simp add: pass_measure_def start_dispatch_def)
  moreover have "(\<exists>s'. dispatch_step m s s') \<or> (\<exists>es. dispatchPc s = PassReturned es)"
    using pass_moves[OF assms(1), of s] by blast
  ultimately show ?thesis by blast
qed

section \<open>What a pass reports\<close>

text \<open>The queues a pass is started on; an error of either listing ends the pass before it.\<close>

definition listQueues :: "env \<Rightarrow> QueueType \<Rightarrow> (db, queueMetadata list) txm" where
  "listQueues env qt = listQueuesRaw env qt"

definition Collect_queues :: "env \<Rightarrow> (db, queueMetadata list) txm" where
  "Collect_queues env =
     bindT (listQueues env QueueTypePubSub) (\<lambda>topics.
     bindT (listQueues env QueueTypeChannel) (\<lambda>channels.
     returnT (topics @ channels)))"

text \<open>How a pass of \<^verbatim>\<open>Collect\<close> ends; the empty list of errors stands for a nil error.\<close>

definition Collect_ends :: "env \<Rightarrow> nat \<Rightarrow> nat \<times> db \<Rightarrow> dispatch \<Rightarrow> err + pass_err list \<Rightarrow> bool" where
  "Collect_ends env maxWorkers nd s r \<longleftrightarrow>
     (case Collect_queues env nd of
        (Inl e, _) \<Rightarrow> r = Inl e
      | (Inr queues, _) \<Rightarrow>
          (dispatch_step maxWorkers)\<^sup>*\<^sup>* (start_dispatch queues) s \<and> (\<exists>es. dispatchPc s = PassReturned es \<and> r = Inr es))"

lemma Collect_queues_all:
  assumes "no_faults env" "distinct (map metaID (pgqueue_metadata d))"
  shows "\<exists>qs n'. Collect_queues env (n, d) = (Inr qs, n', d) \<and>
    mset qs = filter_mset (\<lambda>q. metaQueueType q = QueueTypePubSub \<or> metaQueueType q = QueueTypeChannel) (mset (pgqueue_metadata d))"
proof -
  obtain n1 where 1: "listQueuesRaw env QueueTypePubSub (n, d) =
      (Inr (sort_key metaID (filter (\<lambda>m. metaQueueType m = QueueTypePubSub) (pgqueue_metadata d))), n1, d)"
    using list_pages_all[OF assms, of _ None "[]"] by (auto simp: listQueuesRaw_def after_key_def)
  obtain n2 where 2: "listQueuesRaw env QueueTypeChannel (n1, d) =
      (Inr (sort_key metaID (filter (\<lambda>m. metaQueueType m = QueueTypeChannel) (pgqueue_metadata d))), n2, d)"
    using list_pages_all[OF assms, of _ None "[]"] by (auto simp: listQueuesRaw_def after_key_def)
  have "filter_mset (\<lambda>q. metaQueueType q = QueueTypePubSub) M + filter_mset (\<lambda>q. metaQueueType q = QueueTypeChannel) M =
      filter_mset (\<lambda>q. metaQueueType q = QueueTypePubSub \<or> metaQueueType q = QueueTypeChannel) M" for M
    by (induction M) auto
  then show ?thesis by (simp add: Collect_queues_def listQueues_def bindT_app returnT_app 1 2)
qed

definition collectable :: "db \<Rightarrow> queueMetadata multiset" where
  "collectable d =
     filter_mset (\<lambda>q. metaQueueType q = QueueTypePubSub \<or> metaQueueType q = QueueTypeChannel) (mset (pgqueue_metadata d))"

lemma returned_pass:
  assumes "(dispatch_step m)\<^sup>*\<^sup>* (start_dispatch queues) s" "dispatchPc s = PassReturned es"
  shows "gcWorkers s = {#}" "mset (todo s) + mset (map fst (outcomes s)) = mset queues"
    "\<exists>note. es = capped (failures (outcomes s)) @ note \<and> length note \<le> 1"
    "es = [] \<Longrightarrow> todo s = [] \<and> failures (outcomes s) = []"
proof -
  have inv: "pass_conserved queues s" "pass_accounts s" "pc_ok s (PassReturned es)"
    using dispatch_reached_inv[OF assms(1)] assms(2) by (simp_all add: dispatch_inv_def)
  then show w: "gcWorkers s = {#}" by simp
  show "mset (todo s) + mset (map fst (outcomes s)) = mset queues"
    using inv(1) w by (simp add: pass_conserved_def running_def)
  show "\<exists>note. es = capped (failures (outcomes s)) @ note \<and> length note \<le> 1"
    using inv(2,3) by (auto simp: pass_accounts_def)
  show "todo s = [] \<and> failures (outcomes s) = []" if "es = []"
    using inv(2,3) that capped_Nil(2)[of "failures (outcomes s)"] by (auto simp: pass_accounts_def)
qed

text \<open>
  C25.  What a pass reports: when \<^verbatim>\<open>Collect\<close> returns, every worker has ended, no queue was collected twice,
  and its error lists the failures in the order they were recorded, the first hundred of them
  and a note when there were more, with at most a note of the cancellation behind; and a nil error
  means that every topic and channel of the catalogue was collected, without an error or a panic.
\<close>

theorem Collect_reports:
  assumes "no_faults env" "distinct (map metaID (pgqueue_metadata d))" "Collect_ends env m (n, d) s (Inr es)"
  shows "gcWorkers s = {#} \<and> mset (map fst (outcomes s)) \<subseteq># collectable d \<and>
    (\<exists>note. es = capped (failures (outcomes s)) @ note \<and> length note \<le> 1) \<and>
    (es = [] \<longrightarrow> mset (map fst (outcomes s)) = collectable d \<and> (\<forall>(q, out) \<in> set (outcomes s). out = Collected))"
proof -
  obtain qs n' where qs: "Collect_queues env (n, d) = (Inr qs, n', d)" "mset qs = collectable d"
    using Collect_queues_all[OF assms(1,2)] unfolding collectable_def by blast
  then have r: "(dispatch_step m)\<^sup>*\<^sup>* (start_dispatch qs) s" "dispatchPc s = PassReturned es"
    using assms(3) by (auto simp: Collect_ends_def)
  have "mset (map fst (outcomes s)) \<subseteq># collectable d"
    using returned_pass(2)[OF r] qs(2) by (metis mset_subset_eq_add_right)
  moreover have "mset (map fst (outcomes s)) = collectable d \<and> (\<forall>(q, out) \<in> set (outcomes s). out = Collected)" if "es = []"
    using returned_pass(2)[OF r] returned_pass(4)[OF r that] qs(2) by (simp add: failures_Nil)
  ultimately show ?thesis using returned_pass(1,3)[OF r] by blast
qed

text \<open>At no time do more collections run than the configuration allows, nor is a queue lost or repeated.\<close>

theorem pool_bounded:
  assumes "(dispatch_step m)\<^sup>*\<^sup>* (start_dispatch queues) s"
  shows "size (running s) \<le> m \<and> mset (todo s) + running s + mset (map fst (outcomes s)) = mset queues"
proof -
  have "filter_mset (\<lambda>w. snd w = WRunning) M \<subseteq># filter_mset (\<lambda>w. snd w \<noteq> WExiting) M" for M :: "gc_worker multiset"
    by (induction M) (auto intro: subset_mset.order_trans)
  then have "size (running s) \<le> slots_taken s" by (simp add: running_def slots_taken_def size_mset_mono)
  then show ?thesis using dispatch_reached_inv[OF assms] by (simp add: dispatch_inv_def pass_conserved_def)
qed

section \<open>A pass over one queue\<close>

definition pass_at :: "queueMetadata list \<Rightarrow> gc_worker multiset \<Rightarrow> outcome list \<Rightarrow> dispatch_pc \<Rightarrow> dispatch" where
  "pass_at qs ws outs pc =
     \<lparr>todo = qs, gcWorkers = ws, passErrs = [], dispatchCancelled = False, ctxErr = None, dispatchPc = pc,
      outcomes = map (Pair meta0) outs\<rparr>"

lemma one_queue_run: "(dispatch_step 1 ^^ 6) (start_dispatch [meta0]) (pass_at [] {#} [Collected] (PassReturned []))"
proof -
  have "dispatch_step 1 (start_dispatch [meta0]) (pass_at [] {#(meta0, WRunning)#} [] Dispatching)"
    using d_spawn[of "start_dispatch [meta0]" 1] by (simp add: start_dispatch_def slots_taken_def spawn_def pass_at_def)
  moreover have "dispatch_step 1 (pass_at [] {#(meta0, WRunning)#} [] Dispatching) (pass_at [] {#(meta0, WReleasing)#} [Collected] Dispatching)"
    using w_collect[of meta0 "pass_at [] {#(meta0, WRunning)#} [] Dispatching" 1 Collected]
    by (simp add: pass_at_def collectQueueWorker_def move_worker_def)
  moreover have "dispatch_step 1 (pass_at [] {#(meta0, WReleasing)#} [Collected] Dispatching) (pass_at [] {#(meta0, WExiting)#} [Collected] Dispatching)"
    using w_release[of meta0 "pass_at [] {#(meta0, WReleasing)#} [Collected] Dispatching" 1] by (simp add: pass_at_def move_worker_def)
  moreover have "dispatch_step 1 (pass_at [] {#(meta0, WExiting)#} [Collected] Dispatching) (pass_at [] {#} [Collected] Dispatching)"
    using w_exit[of meta0 "pass_at [] {#(meta0, WExiting)#} [Collected] Dispatching" 1] by (simp add: pass_at_def)
  moreover have "dispatch_step 1 (pass_at [] {#} [Collected] Dispatching) (pass_at [] {#} [Collected] WaitAll)"
    using d_all[of "pass_at [] {#} [Collected] Dispatching" 1] by (simp add: pass_at_def)
  moreover have "dispatch_step 1 (pass_at [] {#} [Collected] WaitAll) (pass_at [] {#} [Collected] (PassReturned []))"
    using d_return[of "pass_at [] {#} [Collected] WaitAll" 1] by (simp add: pass_at_def finish_pass_def)
  ultimately show ?thesis by (simp add: numeral_eq_Suc relcompp_apply) blast
qed

theorem pass_terminates_witness:
  "(6::nat) \<le> 5 * length [meta0] + 3 \<and>
   ((\<exists>s'. dispatch_step 1 (pass_at [] {#} [Collected] (PassReturned [])) s') \<or>
    (\<exists>es. dispatchPc (pass_at [] {#} [Collected] (PassReturned [])) = PassReturned es))"
  by (rule pass_terminates[OF _ one_queue_run]) simp

lemma sample_queues: "fst (Collect_queues env0 (0, store (sys_with pending_tables))) = Inr [meta0]"
  by code_simp

theorem Collect_reports_witness:
  "mset (map fst (outcomes (pass_at [] {#} [Collected] (PassReturned [])))) = collectable (store (sys_with pending_tables))"
proof -
  have "Collect_ends env0 1 (0, store (sys_with pending_tables)) (pass_at [] {#} [Collected] (PassReturned [])) (Inr [])"
    using relpowp_imp_rtranclp[OF one_queue_run] sample_queues
    by (cases "Collect_queues env0 (0, store (sys_with pending_tables))") (simp add: Collect_ends_def pass_at_def)
  moreover have "distinct (map metaID (pgqueue_metadata (store (sys_with pending_tables))))" by code_simp
  ultimately show ?thesis using Collect_reports[OF no_faults_env0] by blast
qed

end
