(* ===== verification/Startup.thy ===== *)
theory Startup
  imports MigrationsProps Config
begin

text \<open>
  How an application opens a queue (\<^verbatim>\<open>pgqueue.go\<close>): \<^verbatim>\<open>InitSchema\<close>, which migrates the schema, and \<^verbatim>\<open>New\<close>, which
  checks the options, the server and the schema.  The state is that of the configured schema; the
  text the server answers to \<^verbatim>\<open>SHOW server_version_num\<close> is an argument.
\<close>

section \<open>The server\<close>

definition minPGVersionNum :: int where
  "minPGVersionNum = 180000"

text \<open>\<^verbatim>\<open>strconv.Atoi\<close>: an optional sign and at least one digit, within the range of a 64-bit int.\<close>

definition digits_value :: "string \<Rightarrow> int" where
  "digits_value s = foldl (\<lambda>n c. 10 * n + (of_char c - 48)) 0 s"

definition Atoi :: "string \<Rightarrow> int option" where
  "Atoi s =
     (let neg = (s \<noteq> [] \<and> hd s = CHR ''-'');
          ds = (if s \<noteq> [] \<and> (hd s = CHR ''-'' \<or> hd s = CHR ''+'') then tl s else s);
          v = (if neg then - digits_value ds else digits_value ds)
      in if ds = [] \<or> \<not> list_all is_digit ds \<or> v < - (2 ^ 63) \<or> v \<ge> 2 ^ 63 then None else Some v)"

definition checkDBReady :: "env \<Rightarrow> string \<Rightarrow> ('s, unit) txm" where
  "checkDBReady env versionStr =
     bindT (autocommit env (\<lambda>n d. ((), d))) (\<lambda>_.
     bindT (autocommit env (\<lambda>n d. (versionStr, d))) (\<lambda>s.
       case Atoi s of
         None \<Rightarrow> failT strconv_NumError
       | Some versionNum \<Rightarrow>
           if versionNum < minPGVersionNum then failT ErrUnsupportedPGVersion else returnT ()))"

section \<open>The schema\<close>


definition checkSchemaReady :: "env \<Rightarrow> ('w schema_db, unit) txm" where
  "checkSchemaReady env =
     bindT (AppliedSchemaVersion env) (\<lambda>schemaVer.
       if schemaVer = 0 then failT ErrSchemaNotInitialized
       else if schemaVer < SchemaVersion then failT ErrSchemaOutdated
       else if schemaVer > SchemaVersion then failT ErrSchemaTooNew
       else returnT ())"

definition New :: "env \<Rightarrow> string \<Rightarrow> bool \<Rightarrow> Option list \<Rightarrow> ('w schema_db, Queue) txm" where
  "New env versionStr dbNil opts =
     (if dbNil then failT ErrDBRequired
      else bindT (liftE (New_config opts)) (\<lambda>c.
        bindT (checkDBReady env versionStr) (\<lambda>_.
        bindT (checkSchemaReady env) (\<lambda>_.
          returnT \<lparr>cfg = c, closed = False\<rparr>))))"

section \<open>What the checks let through\<close>

lemma recorded_max:
  assumes "at_version P k d" "pgqueue_schema_version d = Some rows"
  shows "(if rows = [] then 0 else Max (set (map fst rows))) = k"
proof -
  have r: "map fst rows = [1..k]" "0 \<le> k" using assms by (auto simp: at_version_def recorded_def)
  show ?thesis
  proof (cases "rows = []")
    case True
    then show ?thesis using r by (simp add: upto_Nil2)
  next
    case False
    then have "{1..k} \<noteq> {}" using r(1) by (metis map_is_Nil_conv set_empty set_upto)
    then have "Max {1..k} = k" by (intro Max_eqI) auto
    then show ?thesis using False unfolding r(1) by simp
  qed
qed

lemma AppliedSchemaVersion_at:
  assumes "no_faults env" "at_version P k d"
  shows "\<exists>n'. AppliedSchemaVersion env (n, d) = (Inr k, n', d)"
proof (cases "pgqueue_schema_version d")
  case None
  then have "k = 0" using assms(2) by (simp add: at_version_def recorded_def)
  then show ?thesis using None assms(1) by (simp add: AppliedSchemaVersion_def bindT_app autocommit_ok returnT_app)
next
  case (Some rows)
  then show ?thesis using recorded_max[OF assms(2) Some] assms(1)
    by (simp add: AppliedSchemaVersion_def bindT_app autocommit_ok schemaVersion_def autocommitE_def)
qed

lemma checkDBReady_run:
  "no_faults env \<Longrightarrow>
   checkDBReady env v (n, d) =
     ((case Atoi v of None \<Rightarrow> Inl strconv_NumError
       | Some x \<Rightarrow> if x < minPGVersionNum then Inl ErrUnsupportedPGVersion else Inr ()), n + 2, d)"
  by (simp add: checkDBReady_def bindT_app autocommit_ok failT_app returnT_app split: option.split)




text \<open>
  C33.  What \<^verbatim>\<open>New\<close> lets through: with a database that answers, it opens a queue exactly when the options are
  valid, the server is recent enough and the schema is at the version of this binary, with the
  options' configuration; in every other case it fails with the error of the first check that failed,
  and it never changes the database.
\<close>

theorem New_gate:
  assumes "no_faults env" and "at_version P k d"
  shows "\<exists>n'. New env v False opts (n, d) =
    ((case New_config opts of
        Inl e \<Rightarrow> Inl e
      | Inr c \<Rightarrow>
          (case Atoi v of
             None \<Rightarrow> Inl strconv_NumError
           | Some x \<Rightarrow>
               if x < minPGVersionNum then Inl ErrUnsupportedPGVersion
               else if k = 0 then Inl ErrSchemaNotInitialized
               else if k < SchemaVersion then Inl ErrSchemaOutdated
               else if k > SchemaVersion then Inl ErrSchemaTooNew
               else Inr \<lparr>cfg = c, closed = False\<rparr>)), n', d)"
proof -
  obtain n1 where "AppliedSchemaVersion env (n + 2, d) = (Inr k, n1, d)"
    using AppliedSchemaVersion_at[OF assms] by blast
  then show ?thesis using assms(1)
    by (auto simp: New_def checkSchemaReady_def bindT_app checkDBReady_run liftE_def failT_app returnT_app split: sum.split option.split)
qed


theorem New_gate_witness:
  "\<exists>n'. New env0 ''180001'' False [] (0, fresh_db) = (Inl ErrSchemaNotInitialized, n', fresh_db)"
proof -
  have start: "at_version base_present 0 fresh_db" by (auto simp: at_version_def fresh_db_def recorded_def done_to_def)
  have ok: "\<not> isl (New_config [])" "Atoi ''180001'' = Some 180001" by code_simp+
  from New_gate[OF no_faults_env0 start, of "''180001''" "[]" 0] ok show ?thesis
    by (cases "New_config []") (simp_all add: minPGVersionNum_def)
qed


end
