(* ===== verification/ConsumePool.thy ===== *)
theory ConsumePool
  imports ConsumeProps Names "HOL-Library.Multiset"
begin

text \<open>
  The consumers that own a loop (\<^verbatim>\<open>consume.go\<close>): the iterators over messages, the start of \<^verbatim>\<open>ConsumeChannel\<close> and
  \<^verbatim>\<open>ConsumeTopic\<close>, and the pool of workers of \<^verbatim>\<open>runHandlerLoop\<close> as interleaved steps.
\<close>

section \<open>Iterators\<close>

text \<open>
  \<open>yield\<close> is the body of the caller's loop: it may change the state and says whether to go on.  The result
  lists what was yielded; \<open>None\<close> is an iterator that never returns.
\<close>

partial_function (option) messagesIter ::
    "loop_ctx \<Rightarrow> duration \<Rightarrow> (nat \<Rightarrow> ('s, Message) txm) \<Rightarrow> (err + Message \<Rightarrow> nat \<times> 's \<Rightarrow> bool \<times> nat \<times> 's) \<Rightarrow>
     nat \<Rightarrow> nat \<Rightarrow> nat \<times> 's \<Rightarrow> ((err + Message) list \<times> nat \<times> 's) option" where
  "messagesIter c poll receive yield i fails ns =
     (case fetchNext c poll receive i fails ns of
        None \<Rightarrow> None
      | Some (Deliver m, fails', j, ns') \<Rightarrow>
          (if \<not> fst (yield (Inr m) ns') then Some ([Inr m], snd (yield (Inr m) ns'))
           else Option.bind (messagesIter c poll receive yield (Suc j) fails' (snd (yield (Inr m) ns')))
                  (\<lambda>(ys, ns2). Some (Inr m # ys, ns2)))
      | Some (Fatal e, fails', j, ns') \<Rightarrow> Some ([Inl e], snd (yield (Inl e) ns'))
      | Some (Stop, fails', j, ns') \<Rightarrow> Some ([], ns'))"

fun messages_then_error :: "(err + Message) list \<Rightarrow> bool" where
  "messages_then_error [] = True"
| "messages_then_error (Inr m # ys) = messages_then_error ys"
| "messages_then_error (Inl e # ys) = (ys = [])"

text \<open>An iterator yields messages, and at most one error, after which it ends.\<close>

theorem iterator_shape:
  assumes "messagesIter c poll receive yield i fails ns = Some out"
  shows "messages_then_error (fst out)"
proof (rule messagesIter.raw_induct[where P = "\<lambda>_ _ _ _ _ _ _ out. messages_then_error (fst out)", OF _ assms])
  fix iter c poll receive yield i fails ns out
  assume IH: "\<And>c poll receive yield i fails ns out. iter c poll receive yield i fails ns = Some out \<Longrightarrow> messages_then_error (fst out)"
    and run: "(case fetchNext c poll receive i fails ns of
        None \<Rightarrow> None
      | Some (Deliver m, fails', j, ns') \<Rightarrow>
          (if \<not> fst (yield (Inr m) ns') then Some ([Inr m], snd (yield (Inr m) ns'))
           else Option.bind (iter c poll receive yield (Suc j) fails' (snd (yield (Inr m) ns')))
                  (\<lambda>(ys, ns2). Some (Inr m # ys, ns2)))
      | Some (Fatal e, fails', j, ns') \<Rightarrow> Some ([Inl e], snd (yield (Inl e) ns'))
      | Some (Stop, fails', j, ns') \<Rightarrow> Some ([], ns')) = Some out"
  show "messages_then_error (fst out)"
  proof (cases "fetchNext c poll receive i fails ns")
    case None
    then show ?thesis using run by simp
  next
    case (Some res)
    obtain o' f j ns1 where res: "res = (o', f, j, ns1)" by (rule prod_cases4)
    show ?thesis
    proof (cases o')
      case (Deliver m)
      show ?thesis
      proof (cases "fst (yield (Inr m) ns1)")
        case True
        then obtain zs ns2 where zs: "iter c poll receive yield (Suc j) f (snd (yield (Inr m) ns1)) = Some (zs, ns2)"
            "fst out = Inr m # zs"
          using run by (auto simp: Some res Deliver bind_eq_Some_conv)
        show ?thesis using IH[OF zs(1)] zs(2) by simp
      next
        case False
        then have "out = ([Inr m], snd (yield (Inr m) ns1))" using run by (simp add: Some res Deliver)
        then show ?thesis by simp
      qed
    next
      case (Fatal e)
      then have "out = ([Inl e], snd (yield (Inl e) ns1))" using run by (simp add: Some res)
      then show ?thesis by simp
    next
      case Stop
      then have "out = ([], ns1)" using run by (simp add: Some res)
      then show ?thesis by simp
    qed
  qed
qed

section \<open>Starting a loop\<close>

definition resolveNotifyChannel :: "env \<Rightarrow> bool \<Rightarrow> QueueType \<Rightarrow> string \<Rightarrow> (sys, string) txm" where
  "resolveNotifyChannel env hasNotifier qt name = (\<lambda>ns.
     if \<not> hasNotifier then (Inr '''', ns)
     else case cachedTableName env qt name ns of
       (Inl e, ns') \<Rightarrow> (Inr '''', ns')
     | (Inr tableName, ns') \<Rightarrow> (Inr (notifyChannelName tableName), ns'))"

text \<open>
  \<^verbatim>\<open>ConsumeChannel\<close> and \<^verbatim>\<open>ConsumeTopic\<close> up to the start of the workers: the notification channel, the poll interval
  and the number of workers.  \<open>tracked\<close> is the answer of \<^verbatim>\<open>trackWorker\<close>.
\<close>

definition startHandlerLoop ::
    "Queue \<Rightarrow> env \<Rightarrow> bool \<Rightarrow> bool \<Rightarrow> QueueType \<Rightarrow> string \<Rightarrow> ConsumeOption list \<Rightarrow> (sys, string \<times> duration \<times> int) txm" where
  "startHandlerLoop pq env hasNotifier tracked qt name opts =
     bindT (checkClosed pq) (\<lambda>_.
     bindT (liftE (validateConsumeOptions (applyConsumeOptions opts))) (\<lambda>_.
     bindT (resolveNotifyChannel env hasNotifier qt name) (\<lambda>notifyCh.
       if \<not> tracked then failT ErrQueueClosed
       else returnT (notifyCh, effectivePoll pq (applyConsumeOptions opts), loop_workers (applyConsumeOptions opts)))))"

definition ConsumeChannel :: "Queue \<Rightarrow> env \<Rightarrow> bool \<Rightarrow> bool \<Rightarrow> string \<Rightarrow> ConsumeOption list \<Rightarrow> (sys, string \<times> duration \<times> int) txm" where
  "ConsumeChannel pq env hasNotifier tracked = startHandlerLoop pq env hasNotifier tracked QueueTypeChannel"

definition ConsumeTopic :: "Queue \<Rightarrow> env \<Rightarrow> bool \<Rightarrow> bool \<Rightarrow> string \<Rightarrow> ConsumeOption list \<Rightarrow> (sys, string \<times> duration \<times> int) txm" where
  "ConsumeTopic pq env hasNotifier tracked = startHandlerLoop pq env hasNotifier tracked QueueTypePubSub"

section \<open>The pool\<close>

datatype worker_state = Fetching | Handling | SettingFatal

datatype loop_pc = LoopRunning | LoopReturned "err option"

text \<open>
  \<open>fatals\<close> and \<open>quiet\<close> are ghosts: the unrecoverable errors in the order they were set, and the errors on which a
  worker ended without reporting them.
\<close>

record handler_loop =
  callerDone :: bool
  bgDone :: bool
  loopCancelled :: bool
  fatalErr :: "err option"
  pool :: "worker_state multiset"
  loopPc :: loop_pc
  fatals :: "err list"
  quiet :: "err list"

definition start_loop :: "nat \<Rightarrow> handler_loop" where
  "start_loop workers =
     \<lparr>callerDone = False, bgDone = False, loopCancelled = False, fatalErr = None,
      pool = replicate_mset workers Fetching, loopPc = LoopRunning, fatals = [], quiet = []\<rparr>"

definition loopCtx_done :: "handler_loop \<Rightarrow> bool" where
  "loopCtx_done s \<longleftrightarrow> callerDone s \<or> loopCancelled s"

definition set_worker :: "worker_state \<Rightarrow> worker_state \<Rightarrow> handler_loop \<Rightarrow> handler_loop" where
  "set_worker a b s = s\<lparr>pool := add_mset b (pool s - {#a#})\<rparr>"

definition worker_exits :: "worker_state \<Rightarrow> handler_loop \<Rightarrow> handler_loop" where
  "worker_exits a s = s\<lparr>pool := pool s - {#a#}\<rparr>"

definition setFatal :: "err \<Rightarrow> handler_loop \<Rightarrow> handler_loop" where
  "setFatal e s = s\<lparr>fatalErr := (if fatalErr s = None then Some e else fatalErr s), fatals := fatals s @ [e]\<rparr>"

inductive loop_step :: "handler_loop \<Rightarrow> handler_loop \<Rightarrow> bool" where
  caller_cancels: "loop_step s (s\<lparr>callerDone := True\<rparr>)"
| queue_closes: "loop_step s (s\<lparr>bgDone := True\<rparr>)"
| close_mirrored: "bgDone s \<Longrightarrow> loopPc s = LoopRunning \<Longrightarrow> loop_step s (s\<lparr>loopCancelled := True\<rparr>)"
| fetched: "Fetching \<in># pool s \<Longrightarrow> loop_step s (set_worker Fetching Handling s)"
| dispatched: "Handling \<in># pool s \<Longrightarrow> loop_step s (set_worker Handling Fetching s)"
| fatal: "Fetching \<in># pool s \<Longrightarrow> \<not> isEmptySignal e \<Longrightarrow> \<not> isStopSignal False e \<Longrightarrow>
    loop_step s (set_worker Fetching SettingFatal (setFatal e s))"
| cancels: "SettingFatal \<in># pool s \<Longrightarrow> loop_step s (worker_exits SettingFatal (s\<lparr>loopCancelled := True\<rparr>))"
| stopped: "Fetching \<in># pool s \<Longrightarrow> loopCtx_done s \<Longrightarrow> loop_step s (worker_exits Fetching s)"
| stopped_on: "Fetching \<in># pool s \<Longrightarrow> isStopSignal False e \<Longrightarrow> loop_step s (worker_exits Fetching (s\<lparr>quiet := quiet s @ [e]\<rparr>))"
| returned: "loopPc s = LoopRunning \<Longrightarrow> pool s = {#} \<Longrightarrow> loop_step s (s\<lparr>loopPc := LoopReturned (fatalErr s)\<rparr>)"

section \<open>What a loop returns\<close>

definition loop_inv :: "nat \<Rightarrow> handler_loop \<Rightarrow> bool" where
  "loop_inv workers s \<longleftrightarrow>
     fatalErr s = (case fatals s of [] \<Rightarrow> None | e # _ \<Rightarrow> Some e) \<and>
     size (pool s) \<le> workers \<and>
     (size (pool s) < workers \<longrightarrow> fatals s \<noteq> [] \<or> callerDone s \<or> bgDone s \<or> quiet s \<noteq> []) \<and>
     (SettingFatal \<in># pool s \<or> loopCancelled s \<longrightarrow> fatals s \<noteq> [] \<or> bgDone s) \<and>
     (\<forall>e \<in> set (quiet s). isStopSignal False e) \<and>
     (\<forall>r. loopPc s = LoopReturned r \<longrightarrow> pool s = {#} \<and> r = fatalErr s)"

lemma loop_step_inv:
  assumes "loop_step s s'" "loop_inv workers s"
  shows "loop_inv workers s'"
  using assms
proof (induction rule: loop_step.induct)
  case (fetched s)
  obtain N where "pool s = add_mset Fetching N" using multi_member_split[OF fetched(1)] by blast
  then show ?case using fetched(2) by (simp add: loop_inv_def set_worker_def)
next
  case (dispatched s)
  obtain N where "pool s = add_mset Handling N" using multi_member_split[OF dispatched(1)] by blast
  then show ?case using dispatched(2) by (simp add: loop_inv_def set_worker_def)
next
  case (fatal s e)
  obtain N where "pool s = add_mset Fetching N" using multi_member_split[OF fatal(1)] by blast
  then show ?case using fatal(4) by (cases "fatals s") (simp_all add: loop_inv_def set_worker_def setFatal_def)
next
  case (cancels s)
  obtain N where "pool s = add_mset SettingFatal N" using multi_member_split[OF cancels(1)] by blast
  then show ?case using cancels(2) by (auto simp: loop_inv_def worker_exits_def)
next
  case (stopped s)
  obtain N where "pool s = add_mset Fetching N" using multi_member_split[OF stopped(1)] by blast
  then show ?case using stopped(2,3) by (auto simp: loop_inv_def worker_exits_def loopCtx_done_def)
next
  case (stopped_on s e)
  obtain N where "pool s = add_mset Fetching N" using multi_member_split[OF stopped_on(1)] by blast
  then show ?case using stopped_on(2,3) by (simp add: loop_inv_def worker_exits_def)
qed (auto simp: loop_inv_def)

lemma loop_reached_inv: "loop_step\<^sup>*\<^sup>* (start_loop workers) s \<Longrightarrow> loop_inv workers s"
proof (induction rule: rtranclp_induct)
  case base
  show ?case by (simp add: loop_inv_def start_loop_def)
next
  case (step y z)
  from step(2,3) show ?case by (rule loop_step_inv)
qed

lemma loop_workers_bounds: "1 \<le> loop_workers o' \<and> loop_workers o' \<le> 1024"
  by (simp add: loop_workers_def maxConcurrency_def Let_def)

text \<open>
  C22.  What a handler loop returns: when it does, every worker has ended, never having been more than were
  asked for; the error is the first unrecoverable one any worker met; and a nil error means
  that the caller's context or the queue was closed, or that some worker met a cancellation or
  deadline error of its own.
\<close>

theorem handler_loop_returns:
  assumes "loop_step\<^sup>*\<^sup>* (start_loop (nat (loop_workers o'))) s"
  shows "size (pool s) \<le> 1024 \<and>
    (\<forall>r. loopPc s = LoopReturned r \<longrightarrow>
       pool s = {#} \<and> r = (case fatals s of [] \<Rightarrow> None | e # _ \<Rightarrow> Some e) \<and>
       (r = None \<longrightarrow> callerDone s \<or> bgDone s \<or> (\<exists>e \<in> set (quiet s). isStopSignal False e)))"
proof -
  have inv: "loop_inv (nat (loop_workers o')) s" by (rule loop_reached_inv[OF assms])
  have w: "0 < nat (loop_workers o')" "nat (loop_workers o') \<le> 1024" using loop_workers_bounds[of o'] by linarith+
  have "callerDone s \<or> bgDone s \<or> (\<exists>e \<in> set (quiet s). isStopSignal False e)"
    if "pool s = {#}" "fatals s = []"
    using inv w(1) that by (cases "quiet s") (auto simp: loop_inv_def)
  then show ?thesis using inv w(2) by (auto simp: loop_inv_def split: list.splits)
qed

definition loop_done :: handler_loop where
  "loop_done =
     \<lparr>callerDone = True, bgDone = False, loopCancelled = False, fatalErr = None, pool = {#},
      loopPc = LoopReturned None, fatals = [], quiet = []\<rparr>"

lemma loop_done_reached: "loop_step\<^sup>*\<^sup>* (start_loop 1) loop_done"
proof -
  have 1: "loop_step\<^sup>*\<^sup>* (start_loop 1) ((start_loop 1)\<lparr>callerDone := True\<rparr>)" by (rule r_into_rtranclp, rule caller_cancels)
  have 2: "loop_step\<^sup>*\<^sup>* (start_loop 1) (loop_done\<lparr>loopPc := LoopRunning\<rparr>)"
    using rtranclp.rtrancl_into_rtrancl[OF 1 stopped]
    by (simp add: start_loop_def worker_exits_def loopCtx_done_def loop_done_def)
  show ?thesis using rtranclp.rtrancl_into_rtrancl[OF 2 returned] by (simp add: loop_done_def)
qed

theorem handler_loop_returns_witness:
  "loop_workers \<lparr>coVisibilityTimeout = 0, coConcurrency = 0, coPollInterval = 0\<rparr> = 1 \<and>
   pool loop_done = {#} \<and> (callerDone loop_done \<or> bgDone loop_done \<or> (\<exists>e \<in> set (quiet loop_done). isStopSignal False e))"
proof -
  have w: "loop_workers \<lparr>coVisibilityTimeout = 0, coConcurrency = 0, coPollInterval = 0\<rparr> = 1" by code_simp
  then have "loop_step\<^sup>*\<^sup>* (start_loop (nat (loop_workers \<lparr>coVisibilityTimeout = 0, coConcurrency = 0, coPollInterval = 0\<rparr>))) loop_done"
    using loop_done_reached by simp
  from handler_loop_returns[OF this] w show ?thesis by (simp add: loop_done_def)
qed

text \<open>
  C34.  A loop can end by itself: a worker that gets a deadline error from a receive, with neither the caller's
  context nor the queue closed, ends without reporting it, and the loop returns nil.
\<close>

theorem deadline_ends_loop:
  "\<exists>s. loop_step\<^sup>*\<^sup>* (start_loop 1) s \<and> loopPc s = LoopReturned None \<and> \<not> callerDone s \<and> \<not> bgDone s \<and>
     quiet s = [context_DeadlineExceeded]"
proof -
  let ?s = "worker_exits Fetching ((start_loop 1)\<lparr>quiet := [context_DeadlineExceeded]\<rparr>)"
  have "loop_step (start_loop 1) ?s"
    using stopped_on[of "start_loop 1" context_DeadlineExceeded] by (simp add: start_loop_def isStopSignal_def)
  moreover have "loop_step ?s (?s\<lparr>loopPc := LoopReturned None\<rparr>)"
    using returned[of ?s] by (simp add: worker_exits_def start_loop_def)
  ultimately have "loop_step\<^sup>*\<^sup>* (start_loop 1) (?s\<lparr>loopPc := LoopReturned None\<rparr>)"
    by (meson converse_rtranclp_into_rtranclp r_into_rtranclp)
  then show ?thesis
    by (intro exI[of _ "?s\<lparr>loopPc := LoopReturned None\<rparr>"]) (simp add: worker_exits_def start_loop_def)
qed

end
