(* ===== verification/Spec2Isabelle.thy ===== *)
theory Spec2Isabelle
  imports BaseProps Names Uuid7 ReplayProps ChannelMachine PubsubProps Fanout ConsumeProps AdminProps
    ChannelRefines StatsProps NotifyProps ListenerProps FakeProps MigrationsProps
    AdapterProps Lifecycle GcPool Startup ConsumePool
begin

text \<open>
  Verification development for pgqueue, a Go library that implements message queues on
  PostgreSQL tables: \<^emph>\<open>channels\<close>, where each message goes to one consumer, and \<^emph>\<open>topics\<close>, where it
  fans out to every active subscriber.  Every operation is a sequence of SQL statements, most in
  one transaction; claims, visibility deadlines, retry counters and dead-letter tables make
  delivery at-least-once.

  \<^bold>\<open>Shape of the model.\<close>  A table is a list of records whose fields are its columns; a statement is a
  function on the tables; a Go function is a value of \<^verbatim>\<open>txm\<close>, a state-passing function that also
  counts the round trips to the driver and ends in an error or a value.  \<^verbatim>\<open>withTx\<close> restores the
  tables on every error.  Code that is not in the repository is a field of the record \<^verbatim>\<open>env\<close>, an
  argument of every operation: the clocks, \<^verbatim>\<open>uuidv7()\<close>, row locks held by others, the driver
  (which may fail a round trip, or lose the reply of one that took effect), the random source,
  float conversions, the JSON codec and the collation.  Theorems that need the driver to answer
  assume \<^verbatim>\<open>no_faults\<close>; the safety theorems do not.

  \<^bold>\<open>Theories.\<close>
  \<^item> Prelude, Sql, Tx: shared types and lemmas; UPDATE, DELETE, INSERT and ordered SELECT on lists;
    transactions, driver faults, and the partial triples \<^verbatim>\<open>hoare\<close>.
  \<^item> Errors, Types, Backoff, Config, ErrorText, Claims, Uuid7, MetadataCache, Names: errors.go,
    types.go, backoff.go, config.go with the validation of New in pgqueue.go, truncateErrorMsg
    of channel.go, the claim classification of queries.go, uuid.go at word width,
    metadatacache.go, and the validation of names and the table and index names of pgqueue.go
    and notify.go.
  \<^item> Queries: metadata lookup, cached table names and subscribers (queries.go).
  \<^item> Scan: the reclaim loop shared by channels and topics, as a locale with total-correctness
    and safety lemmas; Channel and Pubsub interpret it.
  \<^item> Channel: channel.go (consume, ack, nack, extend).  ChannelInv has the table invariant and its
    preservation by every statement and operation; ChannelSpec what a call computes when the
    database answers; ChannelProps the properties.
  \<^item> Publish: publish.go and the publishing half of batch.go; PublishProps and Fanout its properties.
  \<^item> Pubsub, PubsubInv, PubsubSpec, PubsubProps: pubsub.go in the same layers.
  \<^item> Batch, BatchProps: the acknowledging half of batch.go and the batch classification of queries.go.
  \<^item> Consume, ConsumeProps: the public calls and loops of consume.go, the per-call options of
    options.go and handler_retry.go.  A worker's loop takes what it observes of its context as an
    argument.
  \<^item> Admin, AdminProps: creating, deleting, pausing and listing queues (pgqueue.go, queries.go).
  \<^item> Gc, GcProps: the garbage collector's work on one queue (gc.go); the locale of a paged statement
    gives termination for the purges.
  \<^item> Replay, ReplayProps: replay.go and dlq.go for channels and topics, with the replay log of
    queries.go.  The JSON text of a log entry is kept as the value it prints.
  \<^item> ChannelMachine: the step relation of all transactions that write a channel's tables.
  \<^item> Stats, StatsProps: the aggregate queries of stats.go.
  \<^item> Notify, NotifyProps: the notifier of notify.go, with its goroutines in the state and one step per
    critical section.
  \<^item> Listener, ListenerProps: pglisten/listener.go in the same style; the connection is the set of
    channels the server has registered for it.
  \<^item> Migrations, MigrationsProps: migrations.go and index_repair.go, over an arbitrary schema on which
    the migrations act.
  \<^item> Mailbox: the abstract contract of a queue (put, take, acknowledge, retry, bury, replay) and the
    locale of what refines it.  ChannelRefines: the refinement of the channel machine.  Fake,
    FakeProps: fake/fake.go and its refinement.
  \<^item> Lifecycle: Close of pgqueue.go and the start, loop and stop of collectors in gc.go, as interleaved
    steps of the goroutines.
  \<^item> ConsumePool: the iterators and the worker pool of the handler loops (consume.go).
  \<^item> Startup: InitSchema and New with their checks of the server and the schema (pgqueue.go).
  \<^item> GcPool: a pass of the collector over all queues, with its dispatcher, semaphore and workers (gc.go).
  \<^item> Observability: the hooks of observability.go into a tracer and a metrics recorder that may panic.
  \<^item> Adapters, AdapterProps: the OpenTelemetry and Prometheus adapters (otelpgqueue, prompgqueue), as the
    calls they make into those libraries.
  \<^item> BaseProps: properties of the small components.
  \<^item> Sample: the concrete values of the witnesses.

  \<^bold>\<open>What is shown.\<close>  Claims fence every ack, nack and extend; consuming picks the due message with
  the least key, loses and duplicates nothing under any driver behaviour, returns, and dead-letters
  a bounded number of messages; subscribers of a topic do not interfere; publishing is atomic,
  deduplicates and fans out once per active subscriber; generated UUIDs increase strictly; queue
  names cannot escape their identifiers nor collide; a batch is its single operations and reports
  every receipt once; the catalogue of queues stays consistent; purges delete what their policy
  says; replaying dead letters ends and neither loses nor duplicates one; and over every interleaving of
  transactions on a channel no message is lost.  Statistics account for every row and agree with the
  consume queries.  The notifier keeps one live confirmation per channel, wakes every waiting
  consumer and shuts down cleanly; the listener strands no caller and keeps the order of
  notifications, but a queue deleted and recreated too quickly loses its subscription.  Recorded
  schema versions are those whose migration took effect; an index whose rebuild fails is lost.  Channels
  and the in-memory fake refine the same mailbox, so the fake keeps the promises of the queue it
  stands in for.  InitSchema makes New possible, and New opens a queue only on the schema it knows.  Close joins
  every goroutine of the queue and cannot deadlock as long as consume loops end, but a second call
  that overlaps the first does not wait.  A pass of the collector ends, collects no queue twice, and
  reports nil only when it collected them all.  A handler loop returns the first unrecoverable error of
  its workers, but takes a deadline error of a receive for a request to stop.  A panicking tracer or
  metrics recorder is recovered by every hook, but not by replay, which ends its span directly.  The two
  adapters record the same measurements and keep every number.

  \<^bold>\<open>Bounds.\<close>  No definition has fuel: loops are structural or carry a termination proof, except the
  fetch loop, the handler loop, the iterators and the paged loops of the collector and of replay, which are partial functions
  whose return is a theorem where it holds.

  \<^bold>\<open>Not modelled.\<close>  Logging, and the places where the queue operations call the hooks, which change no queue
  state; the text of DDL statements, beyond the shape of the tables and the names of their indexes;
  the wire protocol under LISTEN and the libraries under the adapters.  Statements of other sessions
  that run between two statements of one transaction appear only as row locks.  In the machines of
  goroutines (Notify, Listener, Lifecycle, GcPool, ConsumePool) the database work inside a step is
  not expanded: what it computes is shown in the theories of the operations.
\<close>

end
